(* ===== verification/Prelude.thy ===== *)
theory Prelude
  imports Main "HOL-Library.Word"
begin

text \<open>
  Shared vocabulary of the development: identifiers and time stamps, Go's \<open>error\<close> values,
  the collections of hints the component theories fill, and generic lemmas on lists that
  represent tables.
\<close>

section \<open>Collections of hints\<close>

named_theorems state_defs \<open>the literal strings of the lifecycle states\<close>
named_theorems frame \<open>what an operation leaves unchanged\<close>

section \<open>Basic types\<close>

text \<open>
  A \<open>uuid.UUID\<close> is an array of sixteen bytes; the zero array is the "unset" value.
  A \<open>time.Time\<close> is read as an integer number of microseconds (the precision that a
  TIMESTAMPTZ column keeps).
\<close>

type_synonym uuid = "128 word"
type_synonym time = int

section \<open>Go errors\<close>

text \<open>
  Go's nil error is \<open>None\<close>. An error made by \<open>fmt.Errorf\<close> keeps its format string and its
  arguments instead of the rendered text; the verb \<open>%w\<close> makes it a wrapper of another error.
\<close>

datatype arg = AStr string | AUuid uuid

datatype error =
    ErrInvalidTransition
  | ErrNotFound
  | ErrNoRows
  | UniqueViolation string
  | ForeignKeyViolation string
  | NumericOutOfRange string
  | CtxCanceled
  | CtxDeadlineExceeded
  | External string
  | Errorf string "arg list"
  | Wrapf string "arg list" error

text \<open>\<open>errors.Is\<close>: the target is the error itself or one of those it wraps.\<close>

fun errors_Is :: "error \<Rightarrow> error \<Rightarrow> bool" where
  "errors_Is (Wrapf f as e) t = (Wrapf f as e = t \<or> errors_Is e t)"
| "errors_Is e t = (e = t)"

lemma errors_Is_Wrapf [simp]: "errors_Is e t \<Longrightarrow> errors_Is (Wrapf f as e) t"
  by simp

section \<open>Tables as lists\<close>

text \<open>
  A table is the list of its rows. The statements of the stores touch one table by its key:
  \<open>set_row\<close> is the effect of \<open>UPDATE ... WHERE key = k\<close>, \<open>del_row\<close> of
  \<open>DELETE ... WHERE key = k\<close>, and \<open>hits\<close> counts the rows the condition selects.
\<close>

definition set_row :: "('r \<Rightarrow> 'k) \<Rightarrow> 'k \<Rightarrow> ('r \<Rightarrow> 'r) \<Rightarrow> 'r list \<Rightarrow> 'r list" where
  "set_row key k f rows = map (\<lambda>r. if key r = k then f r else r) rows"

definition del_row :: "('r \<Rightarrow> 'k) \<Rightarrow> 'k \<Rightarrow> 'r list \<Rightarrow> 'r list" where
  "del_row key k rows = filter (\<lambda>r. key r \<noteq> k) rows"

definition hits :: "('r \<Rightarrow> 'k) \<Rightarrow> 'k \<Rightarrow> 'r list \<Rightarrow> nat" where
  "hits key k rows = length (filter (\<lambda>r. key r = k) rows)"

definition get_row :: "('r \<Rightarrow> 'k) \<Rightarrow> 'k \<Rightarrow> 'r list \<Rightarrow> 'r option" where
  "get_row key k rows = List.find (\<lambda>r. key r = k) rows"

lemma get_row_Nil [simp]: "get_row key k [] = None"
  by (simp add: get_row_def)

lemma get_row_Cons [simp]:
  "get_row key k (r # rows) = (if key r = k then Some r else get_row key k rows)"
  by (simp add: get_row_def)

lemma get_row_append [simp]:
  "get_row key k (xs @ ys) = (case get_row key k xs of None \<Rightarrow> get_row key k ys | Some r \<Rightarrow> Some r)"
  by (induction xs) auto

lemma get_row_None [simp]: "get_row key k rows = None \<longleftrightarrow> k \<notin> key ` set rows"
  by (induction rows) auto

lemma get_row_Some: "get_row key k rows = Some r \<Longrightarrow> r \<in> set rows \<and> key r = k"
  by (induction rows) (auto split: if_splits)

lemma get_row_Some_key: "get_row key k rows = Some r \<Longrightarrow> k \<in> key ` set rows"
  by (auto dest: get_row_Some)

lemma get_row_unique:
  "distinct (map key rows) \<Longrightarrow> r \<in> set rows \<Longrightarrow> get_row key (key r) rows = Some r"
  by (induction rows) (auto simp: rev_image_eqI)

lemma hits_0 [simp]: "hits key k rows = 0 \<longleftrightarrow> k \<notin> key ` set rows"
  by (auto simp: hits_def filter_empty_conv)

lemma hits_distinct: "distinct (map key rows) \<Longrightarrow> hits key k rows \<le> 1"
proof (induction rows)
  case Nil
  then show ?case by (simp add: hits_def)
next
  case (Cons r rows)
  show ?case
  proof (cases "key r = k")
    case True
    with Cons.prems have "hits key k rows = 0" by auto
    with True show ?thesis by (simp add: hits_def)
  next
    case False
    with Cons show ?thesis by (simp add: hits_def)
  qed
qed

lemma set_row_Nil [simp]: "set_row key k f [] = []"
  by (simp add: set_row_def)

lemma set_row_Cons [simp]:
  "set_row key k f (r # rows) = (if key r = k then f r else r) # set_row key k f rows"
  by (simp add: set_row_def)

lemma length_set_row [simp]: "length (set_row key k f rows) = length rows"
  by (simp add: set_row_def)

lemma set_row_absent [simp]: "k \<notin> key ` set rows \<Longrightarrow> set_row key k f rows = rows"
  by (induction rows) auto

lemma map_key_set_row [simp]:
  "(\<And>r. key (f r) = key r) \<Longrightarrow> map key (set_row key k f rows) = map key rows"
  by (induction rows) auto

lemma key_image_set_row [simp]:
  "(\<And>r. key (f r) = key r) \<Longrightarrow> key ` set (set_row key k f rows) = key ` set rows"
  by (induction rows) auto

lemma get_row_set_row:
  assumes "\<And>r. key (f r) = key r"
  shows "get_row key j (set_row key k f rows) =
    (if j = k then map_option f (get_row key k rows) else get_row key j rows)"
  by (induction rows) (auto simp: assms)

lemma image_set_row [simp]:
  "(\<And>r. g (f r) = g r) \<Longrightarrow> g ` set (set_row key k f rows) = g ` set rows"
  by (induction rows) auto

lemma set_row_memD: "r \<in> set (set_row key k f rows) \<Longrightarrow>
    (r \<in> set rows \<and> key r \<noteq> k) \<or> (\<exists>r0\<in>set rows. key r0 = k \<and> r = f r0)"
  by (auto simp: set_row_def split: if_splits)

lemma get_row_del_row:
  "get_row key j (del_row key k rows) = (if j = k then None else get_row key j rows)"
  by (induction rows) (auto simp: del_row_def)

lemma key_image_del_row [simp]: "key ` set (del_row key k rows) = key ` set rows - {k}"
  by (auto simp: del_row_def)

lemma del_row_absent: "k \<notin> key ` set rows \<Longrightarrow> del_row key k rows = rows"
  by (induction rows) (auto simp: del_row_def)

lemma get_row_absent: "k \<notin> key ` set rows \<Longrightarrow> get_row key k rows = None"
  by simp

lemma distinct_del_row: "distinct (map g rows) \<Longrightarrow> distinct (map g (del_row key k rows))"
  by (induction rows) (auto simp: del_row_def)

section \<open>Lists\<close>

lemma map_snd_of_zip:
  "length xs = length ys \<Longrightarrow> map (\<lambda>x. f (snd x)) (zip xs ys) = map f ys"
  by (induction xs ys rule: list_induct2) simp_all

lemma map_snd_enumerate: "map (\<lambda>x. f (snd x)) (List.enumerate n xs) = map f xs"
  by (simp add: enumerate_eq_zip map_snd_of_zip)

lemma find_sorted:
  "sorted (map k xs) \<Longrightarrow> List.find P xs = Some a \<Longrightarrow> \<forall>x\<in>set xs. P x \<longrightarrow> k a \<le> k x"
  by (induction xs) (auto split: if_splits)

lemma find_mem: "List.find P xs = Some a \<Longrightarrow> a \<in> set xs \<and> P a"
  by (induction xs) (auto split: if_splits)

end
