(* ===== verification/Models.thy ===== *)
theory Models
  imports Prelude
begin

text \<open>
  The persistent entities of \<open>internal/store/models.go\<close> and the execution types of
  \<open>internal/executor/executor.go\<close>. Each entity has its own identifier type, as in the code;
  a pointer field is an option. A row of a table and the struct the store scans it into have
  the same columns, so one record stands for both.
\<close>

section \<open>Typed identifiers\<close>

datatype ProjectID = ProjectID (rawProjectID: uuid)
datatype RepositoryID = RepositoryID (rawRepositoryID: uuid)
datatype PipelineID = PipelineID (rawPipelineID: uuid)
datatype PipelineRunID = PipelineRunID (rawPipelineRunID: uuid)
datatype JobID = JobID (rawJobID: uuid)
datatype JobStepID = JobStepID (rawJobStepID: uuid)
datatype ArtifactID = ArtifactID (rawArtifactID: uuid)
datatype ExecutionID = ExecutionID (rawExecutionID: uuid)

definition JobTypeBuild :: string where "JobTypeBuild = ''build''"
definition JobTypeTest :: string where "JobTypeTest = ''test''"
definition JobTypeDeploy :: string where "JobTypeDeploy = ''deploy''"

lemmas job_type_defs = JobTypeBuild_def JobTypeTest_def JobTypeDeploy_def

section \<open>Entities\<close>

record Project =
  Project_ID :: ProjectID
  Project_Name :: string
  Project_Description :: "string option"
  Project_CreatedAt :: time
  Project_UpdatedAt :: time

record Repository =
  Repository_ID :: RepositoryID
  Repository_ProjectID :: ProjectID
  Repository_VCSProvider :: string
  Repository_CloneURL :: string
  Repository_DefaultBranch :: string
  Repository_CreatedAt :: time
  Repository_UpdatedAt :: time

record Pipeline =
  Pipeline_ID :: PipelineID
  Pipeline_RepositoryID :: RepositoryID
  Pipeline_Name :: string
  Pipeline_TriggerType :: string
  Pipeline_CreatedAt :: time
  Pipeline_UpdatedAt :: time

record PipelineRun =
  PipelineRun_ID :: PipelineRunID
  PipelineRun_PipelineID :: PipelineID
  PipelineRun_GitRef :: string
  PipelineRun_GitSHA :: string
  PipelineRun_Status :: string
  PipelineRun_CreatedAt :: time
  PipelineRun_StartedAt :: "time option"
  PipelineRun_FinishedAt :: "time option"

record Job =
  Job_ID :: JobID
  Job_PipelineRunID :: PipelineRunID
  Job_JobType :: string
  Job_Name :: string
  Job_Status :: string
  Job_CreatedAt :: time
  Job_StartedAt :: "time option"
  Job_FinishedAt :: "time option"

record JobStep =
  JobStep_ID :: JobStepID
  JobStep_JobID :: JobID
  JobStep_Name :: string
  JobStep_ExecutionOrder :: "int option"
  JobStep_ParallelGroup :: "string option"
  JobStep_Status :: string
  JobStep_CreatedAt :: time
  JobStep_StartedAt :: "time option"
  JobStep_FinishedAt :: "time option"

record Artifact =
  Artifact_ID :: ArtifactID
  Artifact_JobID :: JobID
  Artifact_ArtifactType :: string
  Artifact_StorageBackend :: string
  Artifact_StoragePath :: string
  Artifact_Checksum :: "string option"
  Artifact_CreatedAt :: time

record Execution =
  Execution_ID :: ExecutionID
  Execution_JobStepID :: JobStepID
  Execution_ExecutorType :: string
  Execution_ExternalID :: string
  Execution_Status :: string
  Execution_SubmittedAt :: time
  Execution_CompletedAt :: "time option"

section \<open>Executor types\<close>

record ArtifactSpec =
  ArtifactSpec_Type :: string
  ArtifactSpec_Path :: string

text \<open>
  \<open>Env\<close> is a Go map; it is kept as the list of its entries (distinct keys) in the order the
  runtime iterates over it. \<open>Timeout\<close> is a \<open>time.Duration\<close>: a signed 64-bit number of
  nanoseconds.
\<close>

record ExecutionSpec =
  Spec_Image :: string
  Spec_Command :: "string list"
  Spec_Env :: "(string \<times> string) list"
  Spec_Artifacts :: "ArtifactSpec list"
  Spec_Timeout :: "64 word"

datatype ExecutionHandle = ExecutionHandle (Handle_ID: string)

type_synonym ExecutionPhase = string

definition ExecutionPhasePending :: ExecutionPhase where "ExecutionPhasePending = ''pending''"
definition ExecutionPhaseRunning :: ExecutionPhase where "ExecutionPhaseRunning = ''running''"
definition ExecutionPhaseSucceeded :: ExecutionPhase where
  "ExecutionPhaseSucceeded = ''succeeded''"
definition ExecutionPhaseFailed :: ExecutionPhase where "ExecutionPhaseFailed = ''failed''"
definition ExecutionPhaseCanceled :: ExecutionPhase where "ExecutionPhaseCanceled = ''canceled''"

lemmas phase_literals [state_defs] =
  ExecutionPhasePending_def ExecutionPhaseRunning_def ExecutionPhaseSucceeded_def
  ExecutionPhaseFailed_def ExecutionPhaseCanceled_def

definition terminalExecutionPhases :: "ExecutionPhase list" where
  "terminalExecutionPhases =
     [ExecutionPhaseSucceeded, ExecutionPhaseFailed, ExecutionPhaseCanceled]"

record ExecutionStatus =
  Status_Phase :: ExecutionPhase
  Status_StartedAt :: "time option"
  Status_FinishedAt :: "time option"
  Status_ExitCode :: "int option"
  Status_Message :: string

definition ExecutionStatus_IsTerminal :: "ExecutionStatus \<Rightarrow> bool" where
  "ExecutionStatus_IsTerminal s \<longleftrightarrow> Status_Phase s \<in> set terminalExecutionPhases"

lemma IsTerminal_cases:
  "ExecutionStatus_IsTerminal s \<longleftrightarrow>
     Status_Phase s = ExecutionPhaseSucceeded \<or> Status_Phase s = ExecutionPhaseFailed \<or>
     Status_Phase s = ExecutionPhaseCanceled"
  by (auto simp: ExecutionStatus_IsTerminal_def terminalExecutionPhases_def)

end
