(* ===== verification/World.thy ===== *)
theory World
  imports Models
begin

text \<open>
  The world the control plane acts on: the tables of the database, the log of what happened to
  the rows and to the executor, and the environment, which answers every call that leaves the
  program. All stateful operations take the world and return it updated.
\<close>

section \<open>The environment\<close>

text \<open>
  Every interaction with the outside takes the next \<open>tick\<close> of the world, and the environment
  is a function of that tick, so a property proved for every environment holds for every
  behaviour of the outside:
  \<^item> \<open>uuid_new\<close> answers \<open>uuid.New()\<close> and \<open>time_now\<close> answers \<open>time.Now()\<close>;
  \<^item> \<open>db_fault n\<close>: the statement sent at tick \<open>n\<close> fails in the infrastructure (connection,
    server) with that error and is not applied;
  \<^item> \<open>ctx_done_from\<close>: the tick from which the caller's context is done (never, if
    \<open>None\<close>) and \<open>ctx_error\<close>, the value of its \<open>Err()\<close> from then on;
  \<^item> \<open>pick_ticker n\<close>: where \<open>select\<close> finds the context done and the ticker ready, it takes
    the ticker's case at tick \<open>n\<close> (Go chooses among the ready cases at random);
  \<^item> \<open>ex_submit\<close>, \<open>ex_status\<close>, \<open>ex_cancel\<close>: the \<open>executor.Executor\<close> behind the
    interface;
  \<^item> \<open>sched n k\<close>: which of the \<open>k\<close> live goroutines moves at tick \<open>n\<close>; a statement or request
    advances the tick and an exit lowers \<open>k\<close>, so every choice of a batch is free;
  \<^item> \<open>uuid_str\<close>: the text form of an identifier (\<open>uuid.UUID.String\<close>).
\<close>

datatype ctx = Ctx | WithoutCancel

record env =
  uuid_new :: "nat \<Rightarrow> uuid"
  time_now :: "nat \<Rightarrow> time"
  db_fault :: "nat \<Rightarrow> error option"
  ctx_done_from :: "nat option"
  ctx_error :: error
  pick_ticker :: "nat \<Rightarrow> bool"
  ex_submit :: "nat \<Rightarrow> ExecutionSpec \<Rightarrow> error + ExecutionHandle"
  ex_status :: "nat \<Rightarrow> ExecutionHandle \<Rightarrow> error + ExecutionStatus"
  ex_cancel :: "nat \<Rightarrow> ExecutionHandle \<Rightarrow> error option"
  sched :: "nat \<Rightarrow> nat \<Rightarrow> nat"
  uuid_str :: "uuid \<Rightarrow> string"

text \<open>
  \<open>ctx.Err() != nil\<close> at a tick. A context derived by \<open>context.WithoutCancel\<close> is never
  done.
\<close>

definition ctx_done :: "env \<Rightarrow> nat \<Rightarrow> bool" where
  "ctx_done E n \<longleftrightarrow> (case ctx_done_from E of None \<Rightarrow> False | Some c \<Rightarrow> c \<le> n)"

definition ctx_Err :: "env \<Rightarrow> ctx \<Rightarrow> nat \<Rightarrow> error option" where
  "ctx_Err E c n = (if c = Ctx \<and> ctx_done E n then Some (ctx_error E) else None)"

lemma ctx_done_mono: "ctx_done E m \<Longrightarrow> m \<le> n \<Longrightarrow> ctx_done E n"
  by (auto simp: ctx_done_def split: option.splits)

lemma ctx_Err_WithoutCancel [simp]: "ctx_Err E WithoutCancel n = None"
  by (simp add: ctx_Err_def)

section \<open>The world\<close>

text \<open>
  The log has one event per row whose status an UPDATE changed (with the status before and
  after) and one per call the executor accepted, oldest first.
\<close>

datatype event =
    RunStatus PipelineRunID string string
  | JobStatus JobID string string
  | StepStatus JobStepID string string
  | ExecStatus ExecutionID string string
  | Submitted ExecutionSpec ExecutionHandle
  | CancelCall ExecutionHandle

record world =
  tick :: nat
  projects :: "Project list"
  repositories :: "Repository list"
  pipelines :: "Pipeline list"
  pipeline_runs :: "PipelineRun list"
  jobs :: "Job list"
  job_steps :: "JobStep list"
  artifacts :: "Artifact list"
  executions :: "Execution list"
  log :: "event list"

definition empty_world :: world where
  "empty_world = \<lparr>tick = 0, projects = [], repositories = [], pipelines = [], pipeline_runs = [],
     jobs = [], job_steps = [], artifacts = [], executions = [], log = []\<rparr>"

definition tock :: "world \<Rightarrow> world" where
  "tock w = w\<lparr>tick := Suc (tick w)\<rparr>"

lemma tock_simps [simp]:
  "tick (tock w) = Suc (tick w)" "projects (tock w) = projects w"
  "repositories (tock w) = repositories w" "pipelines (tock w) = pipelines w"
  "pipeline_runs (tock w) = pipeline_runs w" "jobs (tock w) = jobs w"
  "job_steps (tock w) = job_steps w" "artifacts (tock w) = artifacts w"
  "executions (tock w) = executions w" "log (tock w) = log w"
  by (simp_all add: tock_def)

text \<open>\<open>uuid.New()\<close> and \<open>time.Now()\<close>.\<close>

definition uuid_New :: "env \<Rightarrow> world \<Rightarrow> uuid \<times> world" where
  "uuid_New E w = (uuid_new E (tick w), tock w)"

definition time_Now :: "env \<Rightarrow> world \<Rightarrow> time \<times> world" where
  "time_Now E w = (time_now E (tick w), tock w)"

text \<open>The constructors and the text forms of the typed identifiers.\<close>

definition NewProjectID :: "env \<Rightarrow> world \<Rightarrow> ProjectID \<times> world" where
  "NewProjectID E w = (case uuid_New E w of (u, w1) \<Rightarrow> (ProjectID u, w1))"

definition NewRepositoryID :: "env \<Rightarrow> world \<Rightarrow> RepositoryID \<times> world" where
  "NewRepositoryID E w = (case uuid_New E w of (u, w1) \<Rightarrow> (RepositoryID u, w1))"

definition NewPipelineID :: "env \<Rightarrow> world \<Rightarrow> PipelineID \<times> world" where
  "NewPipelineID E w = (case uuid_New E w of (u, w1) \<Rightarrow> (PipelineID u, w1))"

definition NewPipelineRunID :: "env \<Rightarrow> world \<Rightarrow> PipelineRunID \<times> world" where
  "NewPipelineRunID E w = (case uuid_New E w of (u, w1) \<Rightarrow> (PipelineRunID u, w1))"

definition NewJobID :: "env \<Rightarrow> world \<Rightarrow> JobID \<times> world" where
  "NewJobID E w = (case uuid_New E w of (u, w1) \<Rightarrow> (JobID u, w1))"

definition NewJobStepID :: "env \<Rightarrow> world \<Rightarrow> JobStepID \<times> world" where
  "NewJobStepID E w = (case uuid_New E w of (u, w1) \<Rightarrow> (JobStepID u, w1))"

definition NewArtifactID :: "env \<Rightarrow> world \<Rightarrow> ArtifactID \<times> world" where
  "NewArtifactID E w = (case uuid_New E w of (u, w1) \<Rightarrow> (ArtifactID u, w1))"

definition NewExecutionID :: "env \<Rightarrow> world \<Rightarrow> ExecutionID \<times> world" where
  "NewExecutionID E w = (case uuid_New E w of (u, w1) \<Rightarrow> (ExecutionID u, w1))"

definition ProjectID_String :: "env \<Rightarrow> ProjectID \<Rightarrow> string" where
  "ProjectID_String E i = uuid_str E (rawProjectID i)"

definition RepositoryID_String :: "env \<Rightarrow> RepositoryID \<Rightarrow> string" where
  "RepositoryID_String E i = uuid_str E (rawRepositoryID i)"

definition PipelineID_String :: "env \<Rightarrow> PipelineID \<Rightarrow> string" where
  "PipelineID_String E i = uuid_str E (rawPipelineID i)"

definition PipelineRunID_String :: "env \<Rightarrow> PipelineRunID \<Rightarrow> string" where
  "PipelineRunID_String E i = uuid_str E (rawPipelineRunID i)"

definition JobID_String :: "env \<Rightarrow> JobID \<Rightarrow> string" where
  "JobID_String E i = uuid_str E (rawJobID i)"

definition JobStepID_String :: "env \<Rightarrow> JobStepID \<Rightarrow> string" where
  "JobStepID_String E i = uuid_str E (rawJobStepID i)"

definition ArtifactID_String :: "env \<Rightarrow> ArtifactID \<Rightarrow> string" where
  "ArtifactID_String E i = uuid_str E (rawArtifactID i)"

definition ExecutionID_String :: "env \<Rightarrow> ExecutionID \<Rightarrow> string" where
  "ExecutionID_String E i = uuid_str E (rawExecutionID i)"

lemmas String_defs = ProjectID_String_def RepositoryID_String_def PipelineID_String_def PipelineRunID_String_def
  JobID_String_def JobStepID_String_def ArtifactID_String_def ExecutionID_String_def

text \<open>An identifier can be read off its text form, if it can be for a \<open>uuid.UUID\<close>.\<close>

lemma String_inj:
  assumes "inj (uuid_str E)"
  shows "inj (ProjectID_String E)" "inj (RepositoryID_String E)" "inj (PipelineID_String E)" "inj (PipelineRunID_String E)"
    "inj (JobID_String E)" "inj (JobStepID_String E)" "inj (ArtifactID_String E)" "inj (ExecutionID_String E)"
  using assms by (auto simp: String_defs inj_def ProjectID.expand RepositoryID.expand PipelineID.expand PipelineRunID.expand JobID.expand JobStepID.expand ArtifactID.expand ExecutionID.expand)

section \<open>Statements\<close>

text \<open>
  \<open>pool.Exec\<close>, \<open>pool.Query\<close> and \<open>pool.QueryRow\<close> of pgx: one statement, applied
  atomically. It fails without being applied when the infrastructure fails or when its context
  is already done; otherwise the statement runs against the tables, which may refuse it.
\<close>

definition pool_call :: "env \<Rightarrow> ctx \<Rightarrow> (world \<Rightarrow> (error + 'a) \<times> world) \<Rightarrow> world \<Rightarrow>
    (error + 'a) \<times> world" where
  "pool_call E c stmt w =
    (case db_fault E (tick w) of
       Some e \<Rightarrow> (Inl e, tock w)
     | None \<Rightarrow>
        (case ctx_Err E c (tick w) of
           Some e \<Rightarrow> (Inl e, tock w)
         | None \<Rightarrow> stmt (tock w)))"

text \<open>Whether a statement sent at tick \<open>n\<close> under a context reaches the tables.\<close>

definition db_up :: "env \<Rightarrow> ctx \<Rightarrow> nat \<Rightarrow> bool" where
  "db_up E c n \<longleftrightarrow> db_fault E n = None \<and> ctx_Err E c n = None"

definition db_error :: "env \<Rightarrow> nat \<Rightarrow> error" where
  "db_error E n = (case db_fault E n of Some e \<Rightarrow> e | None \<Rightarrow> ctx_error E)"

lemma pool_call_up: "db_up E c (tick w) \<Longrightarrow> pool_call E c stmt w = stmt (tock w)"
  by (simp add: pool_call_def db_up_def)

lemma pool_call_down:
  "\<not> db_up E c (tick w) \<Longrightarrow> pool_call E c stmt w = (Inl (db_error E (tick w)), tock w)"
  by (auto simp: pool_call_def db_up_def db_error_def ctx_Err_def split: option.splits)

lemmas pool_call_simps = pool_call_up pool_call_down

lemma pool_call_eq:
  "pool_call E c stmt w =
     (if db_up E c (tick w) then stmt (tock w) else (Inl (db_error E (tick w)), tock w))"
  by (simp add: pool_call_simps)

lemma db_up_mono_ctx: "db_up E Ctx n \<Longrightarrow> db_up E WithoutCancel n"
  by (simp add: db_up_def)

end
