(* ===== verification/Fsm.thy ===== *)
theory Fsm
  imports Prelude
begin

text \<open>
  The two lifecycle state machines of \<open>internal/orchestrator\<close>: \<open>states.go\<close>,
  \<open>stage_fsm.go\<close> and \<open>pipeline_run_fsm.go\<close>. A \<open>StageState\<close> or
  \<open>PipelineRunState\<close> is a Go string type, so any string is a value of it and the lookup of a
  transition may miss; the model keeps both as \<open>string\<close>.
\<close>

section \<open>State literals\<close>

definition statePending :: string where "statePending = ''pending''"
definition stateRunning :: string where "stateRunning = ''running''"
definition stateSuccess :: string where "stateSuccess = ''success''"
definition stateFailed :: string where "stateFailed = ''failed''"
definition stateCanceled :: string where "stateCanceled = ''canceled''"
definition stateSucceeded :: string where "stateSucceeded = ''succeeded''"

lemmas state_literals [state_defs] =
  statePending_def stateRunning_def stateSuccess_def stateFailed_def stateCanceled_def
  stateSucceeded_def

section \<open>The stage machine\<close>

type_synonym StageState = string

definition StageStatePending :: StageState where "StageStatePending = statePending"
definition StageStateRunning :: StageState where "StageStateRunning = stateRunning"
definition StageStateSucceeded :: StageState where "StageStateSucceeded = stateSucceeded"
definition StageStateFailed :: StageState where "StageStateFailed = stateFailed"

lemmas stage_literals [state_defs] =
  StageStatePending_def StageStateRunning_def StageStateSucceeded_def StageStateFailed_def

definition stageTransitions :: "StageState \<rightharpoonup> StageState list" where
  "stageTransitions = map_of
    [(StageStatePending, [StageStateRunning]),
     (StageStateRunning, [StageStateSucceeded, StageStateFailed]),
     (StageStateSucceeded, []),
     (StageStateFailed, [])]"

definition stageTerminalStates :: "StageState list" where
  "stageTerminalStates = [StageStateSucceeded, StageStateFailed]"

definition StageState_ValidateTransition :: "StageState \<Rightarrow> StageState \<Rightarrow> error option" where
  "StageState_ValidateTransition current target =
    (if current = target then None
     else case stageTransitions current of
       None \<Rightarrow> Some (Wrapf ''stage state %q: %w'' [AStr current] ErrInvalidTransition)
     | Some allowed \<Rightarrow>
         if target \<in> set allowed then None
         else Some (Wrapf ''stage: %q -> %q: %w'' [AStr current, AStr target] ErrInvalidTransition))"

definition StageState_IsTerminal :: "StageState \<Rightarrow> bool" where
  "StageState_IsTerminal s \<longleftrightarrow> s \<in> set stageTerminalStates"

section \<open>The pipeline run machine\<close>

type_synonym PipelineRunState = string

definition PipelineRunStatePending :: PipelineRunState where
  "PipelineRunStatePending = statePending"
definition PipelineRunStateRunning :: PipelineRunState where
  "PipelineRunStateRunning = stateRunning"
definition PipelineRunStateSuccess :: PipelineRunState where
  "PipelineRunStateSuccess = stateSuccess"
definition PipelineRunStateFailed :: PipelineRunState where
  "PipelineRunStateFailed = stateFailed"
definition PipelineRunStateCanceled :: PipelineRunState where
  "PipelineRunStateCanceled = stateCanceled"

lemmas run_literals [state_defs] =
  PipelineRunStatePending_def PipelineRunStateRunning_def PipelineRunStateSuccess_def
  PipelineRunStateFailed_def PipelineRunStateCanceled_def

definition pipelineRunTransitions :: "PipelineRunState \<rightharpoonup> PipelineRunState list" where
  "pipelineRunTransitions = map_of
    [(PipelineRunStatePending,
        [PipelineRunStateRunning, PipelineRunStateFailed, PipelineRunStateCanceled]),
     (PipelineRunStateRunning,
        [PipelineRunStateSuccess, PipelineRunStateFailed, PipelineRunStateCanceled]),
     (PipelineRunStateSuccess, []),
     (PipelineRunStateFailed, []),
     (PipelineRunStateCanceled, [])]"

definition terminalStates :: "PipelineRunState list" where
  "terminalStates = [PipelineRunStateSuccess, PipelineRunStateFailed, PipelineRunStateCanceled]"

definition PipelineRunState_ValidateTransition ::
    "PipelineRunState \<Rightarrow> PipelineRunState \<Rightarrow> error option" where
  "PipelineRunState_ValidateTransition current target =
    (if current = target then None
     else case pipelineRunTransitions current of
       None \<Rightarrow> Some (Wrapf ''pipeline run state %q: %w'' [AStr current] ErrInvalidTransition)
     | Some allowed \<Rightarrow>
         if target \<in> set allowed then None
         else Some (Wrapf ''pipeline run: %q -> %q: %w'' [AStr current, AStr target]
                     ErrInvalidTransition))"

definition PipelineRunState_IsTerminal :: "PipelineRunState \<Rightarrow> bool" where
  "PipelineRunState_IsTerminal s \<longleftrightarrow> s \<in> set terminalStates"

section \<open>What both machines promise\<close>

text \<open>
  The contract the two machines share: \<open>trans\<close> is the transition table, \<open>validate\<close> the
  check a caller makes before it writes a state, \<open>terminal\<close> the predicate that ends a
  lifecycle and \<open>rank\<close> an upper bound on the transitions still to come. A history is the
  list of states a lifecycle went through; it is accepted when each state validates against its
  successor.
\<close>

locale lifecycle =
  fixes trans :: "'s \<Rightarrow> 's list option"
    and validate :: "'s \<Rightarrow> 's \<Rightarrow> error option"
    and terminal :: "'s \<Rightarrow> bool"
    and rank :: "'s \<Rightarrow> nat"
  assumes validate_None:
      "validate s t = None \<longleftrightarrow> s = t \<or> (\<exists>ts. trans s = Some ts \<and> t \<in> set ts)"
    and validate_Some: "validate s t = Some e \<Longrightarrow> errors_Is e ErrInvalidTransition"
    and terminal_iff: "terminal s \<longleftrightarrow> trans s = Some []"
    and closed: "trans s = Some ts \<Longrightarrow> t \<in> set ts \<Longrightarrow> trans t \<noteq> None"
    and rank_less: "trans s = Some ts \<Longrightarrow> t \<in> set ts \<Longrightarrow> rank t < rank s"
begin

lemma validate_refl [simp]: "validate s s = None"
  by (simp add: validate_None)

lemma terminal_final: "terminal s \<Longrightarrow> validate s t = None \<Longrightarrow> t = s"
  by (auto simp: validate_None terminal_iff)

lemma accepted_terminal:
  "successively (\<lambda>s t. validate s t = None) (s # hist) \<Longrightarrow> terminal s \<Longrightarrow> set hist \<subseteq> {s}"
proof (induction hist)
  case Nil
  then show ?case by simp
next
  case (Cons t hist)
  then have "t = s" by (auto dest: terminal_final)
  with Cons show ?case by simp
qed

lemma accepted_rank:
  "successively (\<lambda>s t. validate s t = None) (s # hist) \<Longrightarrow>
     length (remdups_adj (s # hist)) \<le> Suc (rank s)"
proof (induction hist arbitrary: s)
  case Nil
  then show ?case by simp
next
  case (Cons t hist)
  then have IH: "length (remdups_adj (t # hist)) \<le> Suc (rank t)" by simp
  show ?case
  proof (cases "s = t")
    case True
    with IH show ?thesis by simp
  next
    case False
    with Cons.prems have "rank t < rank s" by (auto simp: validate_None dest: rank_less)
    with IH False show ?thesis by simp
  qed
qed

lemma accepted_known:
  "successively (\<lambda>s t. validate s t = None) (s # hist) \<Longrightarrow> trans s \<noteq> None \<Longrightarrow>
     \<forall>t \<in> set hist. trans t \<noteq> None"
proof (induction hist arbitrary: s)
  case Nil
  then show ?case by simp
next
  case (Cons t hist)
  then have "trans t \<noteq> None" by (auto simp: validate_None dest: closed)
  with Cons show ?case by auto
qed

end

text \<open>How many transitions a state can still take, for the two tables.\<close>

definition stage_rank :: "StageState \<Rightarrow> nat" where
  "stage_rank s = (if s = StageStatePending then 2 else if s = StageStateRunning then 1 else 0)"

definition run_rank :: "PipelineRunState \<Rightarrow> nat" where
  "run_rank s =
    (if s = PipelineRunStatePending then 2 else if s = PipelineRunStateRunning then 1 else 0)"

interpretation stage: lifecycle stageTransitions StageState_ValidateTransition
    StageState_IsTerminal stage_rank
proof unfold_locales
  fix s t :: StageState and ts e
  show "StageState_ValidateTransition s t = None \<longleftrightarrow>
      s = t \<or> (\<exists>ts. stageTransitions s = Some ts \<and> t \<in> set ts)"
    by (auto simp: StageState_ValidateTransition_def split: option.splits)
  show "StageState_ValidateTransition s t = Some e \<Longrightarrow> errors_Is e ErrInvalidTransition"
    by (auto simp: StageState_ValidateTransition_def split: option.splits if_splits)
  show "StageState_IsTerminal s \<longleftrightarrow> stageTransitions s = Some []"
    by (auto simp: StageState_IsTerminal_def stageTerminalStates_def stageTransitions_def state_defs)
  show "stageTransitions s = Some ts \<Longrightarrow> t \<in> set ts \<Longrightarrow> stageTransitions t \<noteq> None"
    by (auto simp: stageTransitions_def state_defs split: if_splits)
  show "stageTransitions s = Some ts \<Longrightarrow> t \<in> set ts \<Longrightarrow> stage_rank t < stage_rank s"
    by (auto simp: stageTransitions_def stage_rank_def state_defs split: if_splits)
qed

interpretation run: lifecycle pipelineRunTransitions PipelineRunState_ValidateTransition
    PipelineRunState_IsTerminal run_rank
proof unfold_locales
  fix s t :: PipelineRunState and ts e
  show "PipelineRunState_ValidateTransition s t = None \<longleftrightarrow>
      s = t \<or> (\<exists>ts. pipelineRunTransitions s = Some ts \<and> t \<in> set ts)"
    by (auto simp: PipelineRunState_ValidateTransition_def split: option.splits)
  show "PipelineRunState_ValidateTransition s t = Some e \<Longrightarrow> errors_Is e ErrInvalidTransition"
    by (auto simp: PipelineRunState_ValidateTransition_def split: option.splits if_splits)
  show "PipelineRunState_IsTerminal s \<longleftrightarrow> pipelineRunTransitions s = Some []"
    by (auto simp: PipelineRunState_IsTerminal_def terminalStates_def pipelineRunTransitions_def
        state_defs)
  show "pipelineRunTransitions s = Some ts \<Longrightarrow> t \<in> set ts \<Longrightarrow> pipelineRunTransitions t \<noteq> None"
    by (auto simp: pipelineRunTransitions_def state_defs split: if_splits)
  show "pipelineRunTransitions s = Some ts \<Longrightarrow> t \<in> set ts \<Longrightarrow> run_rank t < run_rank s"
    by (auto simp: pipelineRunTransitions_def run_rank_def state_defs split: if_splits)
qed

section \<open>The accepted histories\<close>

lemma stage_valid_cases:
  "StageState_ValidateTransition s t = None \<longleftrightarrow>
     s = t \<or> (s = StageStatePending \<and> t = StageStateRunning) \<or>
     (s = StageStateRunning \<and> (t = StageStateSucceeded \<or> t = StageStateFailed))"
  by (auto simp: StageState_ValidateTransition_def stageTransitions_def state_defs)

lemma run_valid_cases:
  "PipelineRunState_ValidateTransition s t = None \<longleftrightarrow>
     s = t \<or>
     (s = PipelineRunStatePending \<and>
       (t = PipelineRunStateRunning \<or> t = PipelineRunStateFailed \<or> t = PipelineRunStateCanceled)) \<or>
     (s = PipelineRunStateRunning \<and>
       (t = PipelineRunStateSuccess \<or> t = PipelineRunStateFailed \<or> t = PipelineRunStateCanceled))"
  by (auto simp: PipelineRunState_ValidateTransition_def pipelineRunTransitions_def state_defs)

lemma remdups_adj_constant: "set xs \<subseteq> {x} \<Longrightarrow> remdups_adj (x # xs) = [x]"
  by (induction xs) auto

lemma stage_from_running:
  assumes "successively (\<lambda>s t. StageState_ValidateTransition s t = None) (StageStateRunning # hist)"
  shows "remdups_adj (StageStateRunning # hist) \<in>
    {[StageStateRunning], [StageStateRunning, StageStateSucceeded],
     [StageStateRunning, StageStateFailed]}"
  using assms
proof (induction hist)
  case Nil
  then show ?case by simp
next
  case (Cons t hist)
  then have step: "StageState_ValidateTransition StageStateRunning t = None"
    and rest: "successively (\<lambda>s t. StageState_ValidateTransition s t = None) (t # hist)"
    by simp_all
  show ?case
  proof (cases "t = StageStateRunning")
    case True
    with Cons show ?thesis by simp
  next
    case False
    with step have t: "t = StageStateSucceeded \<or> t = StageStateFailed"
      by (auto simp: stage_valid_cases state_defs)
    then have "StageState_IsTerminal t"
      by (auto simp: StageState_IsTerminal_def stageTerminalStates_def)
    with rest have "set hist \<subseteq> {t}" by (rule stage.accepted_terminal)
    then have "remdups_adj (t # hist) = [t]" by (rule remdups_adj_constant)
    with False t show ?thesis by auto
  qed
qed

lemma run_from_running:
  assumes "successively (\<lambda>s t. PipelineRunState_ValidateTransition s t = None)
    (PipelineRunStateRunning # hist)"
  shows "remdups_adj (PipelineRunStateRunning # hist) \<in>
    {[PipelineRunStateRunning], [PipelineRunStateRunning, PipelineRunStateSuccess],
     [PipelineRunStateRunning, PipelineRunStateFailed],
     [PipelineRunStateRunning, PipelineRunStateCanceled]}"
  using assms
proof (induction hist)
  case Nil
  then show ?case by simp
next
  case (Cons t hist)
  then have step: "PipelineRunState_ValidateTransition PipelineRunStateRunning t = None"
    and rest: "successively (\<lambda>s t. PipelineRunState_ValidateTransition s t = None) (t # hist)"
    by simp_all
  show ?case
  proof (cases "t = PipelineRunStateRunning")
    case True
    with Cons show ?thesis by simp
  next
    case False
    with step have t: "t \<in> set terminalStates"
      by (auto simp: run_valid_cases terminalStates_def state_defs)
    then have "PipelineRunState_IsTerminal t"
      by (simp add: PipelineRunState_IsTerminal_def)
    with rest have "set hist \<subseteq> {t}" by (rule run.accepted_terminal)
    then have "remdups_adj (t # hist) = [t]" by (rule remdups_adj_constant)
    with False t show ?thesis by (auto simp: terminalStates_def)
  qed
qed

text \<open>
  The histories of a job or step. A sequence of states that starts at \<open>pending\<close> passes
  \<open>StageState.ValidateTransition\<close> at every step exactly when, repetitions aside, it is a
  prefix of pending, running, succeeded or of pending, running, failed.
\<close>

lemma stage_histories:
  "successively (\<lambda>s t. StageState_ValidateTransition s t = None) (StageStatePending # hist)
   \<longleftrightarrow> remdups_adj (StageStatePending # hist) \<in>
     {[StageStatePending], [StageStatePending, StageStateRunning],
      [StageStatePending, StageStateRunning, StageStateSucceeded],
      [StageStatePending, StageStateRunning, StageStateFailed]}"
    (is "?acc (StageStatePending # hist) \<longleftrightarrow> _ \<in> ?H")
proof
  assume "remdups_adj (StageStatePending # hist) \<in> ?H"
  then have "?acc (remdups_adj (StageStatePending # hist))"
    by (auto simp: stage_valid_cases simp del: remdups_adj.simps)
  then show "?acc (StageStatePending # hist)"
    by (simp add: successively_remdups_adj_iff del: remdups_adj.simps)
next
  assume "?acc (StageStatePending # hist)"
  then show "remdups_adj (StageStatePending # hist) \<in> ?H"
  proof (induction hist)
    case Nil
    then show ?case by simp
  next
    case (Cons t hist)
    show ?case
    proof (cases "t = StageStatePending")
      case True
      with Cons show ?thesis by simp
    next
      case False
      with Cons.prems have "t = StageStateRunning"
        by (auto simp: stage_valid_cases state_defs)
      with Cons.prems False stage_from_running [of hist] show ?thesis by auto
    qed
  qed
qed

text \<open>
  The histories of a pipeline run. A sequence of states that starts at \<open>pending\<close> passes
  \<open>PipelineRunState.ValidateTransition\<close> at every step exactly when, repetitions aside, it
  stays pending, or is running and then ends at most once in success, failed or canceled, or goes
  straight from pending to failed or canceled.
\<close>

lemma run_histories:
  "successively (\<lambda>s t. PipelineRunState_ValidateTransition s t = None)
     (PipelineRunStatePending # hist)
   \<longleftrightarrow> remdups_adj (PipelineRunStatePending # hist) \<in>
     {[PipelineRunStatePending], [PipelineRunStatePending, PipelineRunStateRunning],
      [PipelineRunStatePending, PipelineRunStateRunning, PipelineRunStateSuccess],
      [PipelineRunStatePending, PipelineRunStateRunning, PipelineRunStateFailed],
      [PipelineRunStatePending, PipelineRunStateRunning, PipelineRunStateCanceled],
      [PipelineRunStatePending, PipelineRunStateFailed],
      [PipelineRunStatePending, PipelineRunStateCanceled]}"
    (is "?acc (PipelineRunStatePending # hist) \<longleftrightarrow> _ \<in> ?H")
proof
  assume "remdups_adj (PipelineRunStatePending # hist) \<in> ?H"
  then have "?acc (remdups_adj (PipelineRunStatePending # hist))"
    by (auto simp: run_valid_cases simp del: remdups_adj.simps)
  then show "?acc (PipelineRunStatePending # hist)"
    by (simp add: successively_remdups_adj_iff del: remdups_adj.simps)
next
  assume "?acc (PipelineRunStatePending # hist)"
  then show "remdups_adj (PipelineRunStatePending # hist) \<in> ?H"
  proof (induction hist)
    case Nil
    then show ?case by simp
  next
    case (Cons t hist)
    show ?case
    proof (cases "t = PipelineRunStatePending \<or> t = PipelineRunStateRunning")
      case True
      with Cons run_from_running [of hist] show ?thesis by (auto simp: state_defs)
    next
      case False
      with Cons.prems have t: "t = PipelineRunStateFailed \<or> t = PipelineRunStateCanceled"
        and rest: "?acc (t # hist)"
        by (auto simp: run_valid_cases state_defs)
      from t have "PipelineRunState_IsTerminal t"
        by (auto simp: PipelineRunState_IsTerminal_def terminalStates_def)
      with rest have "set hist \<subseteq> {t}" by (rule run.accepted_terminal)
      then have "remdups_adj (t # hist) = [t]" by (rule remdups_adj_constant)
      with False t show ?thesis by auto
    qed
  qed
qed

text \<open>
  C37: the histories the two state machines accept. A sequence of states that starts at \<open>pending\<close>
  passes \<open>StageState.ValidateTransition\<close> at every step exactly when, repetitions aside, it is a
  prefix of pending, running, succeeded or of pending, running, failed; it passes
  \<open>PipelineRunState.ValidateTransition\<close> exactly when it stays pending, or is running and then ends at
  most once in success, failed or canceled, or goes straight from pending to failed or canceled.
\<close>

theorem lifecycle_histories:
  "(successively (\<lambda>s t. StageState_ValidateTransition s t = None) (StageStatePending # hist)
     \<longleftrightarrow> remdups_adj (StageStatePending # hist) \<in>
       {[StageStatePending], [StageStatePending, StageStateRunning],
        [StageStatePending, StageStateRunning, StageStateSucceeded],
        [StageStatePending, StageStateRunning, StageStateFailed]}) \<and>
   (successively (\<lambda>s t. PipelineRunState_ValidateTransition s t = None) (PipelineRunStatePending # hist)
     \<longleftrightarrow> remdups_adj (PipelineRunStatePending # hist) \<in>
       {[PipelineRunStatePending], [PipelineRunStatePending, PipelineRunStateRunning],
        [PipelineRunStatePending, PipelineRunStateRunning, PipelineRunStateSuccess],
        [PipelineRunStatePending, PipelineRunStateRunning, PipelineRunStateFailed],
        [PipelineRunStatePending, PipelineRunStateRunning, PipelineRunStateCanceled],
        [PipelineRunStatePending, PipelineRunStateFailed],
        [PipelineRunStatePending, PipelineRunStateCanceled]})"
  by (intro conjI stage_histories run_histories)

end
