(* ===== verification/PgHelpers.thy ===== *)
theory PgHelpers
  imports World Fsm
begin

text \<open>
  \<open>internal/store/postgres/helpers.go\<close>: defaults filled in before an INSERT, translation of
  "no rows" into \<open>store.ErrNotFound\<close>, and the time stamps a status implies. A Go function that
  writes through a pointer returns the new value here.
\<close>

text \<open>
  \<open>ensureID\<close> is generic over the identifier types; the conversions \<open>T([16]byte(u))\<close> and
  \<open>[16]byte(id)\<close> are its first two arguments.
\<close>

definition ensureID :: "(uuid \<Rightarrow> 'i) \<Rightarrow> ('i \<Rightarrow> uuid) \<Rightarrow> env \<Rightarrow> 'i \<Rightarrow> world \<Rightarrow> 'i \<times> world" where
  "ensureID mk raw E i w =
    (if raw i = 0 then (case uuid_New E w of (u, w1) \<Rightarrow> (mk u, w1)) else (i, w))"

text \<open>An identifier that is not set becomes what the constructor of its type makes.\<close>

lemma ensureID_unset:
  "ensureID ProjectID rawProjectID E (ProjectID 0) w = NewProjectID E w"
  "ensureID RepositoryID rawRepositoryID E (RepositoryID 0) w = NewRepositoryID E w"
  "ensureID PipelineID rawPipelineID E (PipelineID 0) w = NewPipelineID E w"
  "ensureID PipelineRunID rawPipelineRunID E (PipelineRunID 0) w = NewPipelineRunID E w"
  "ensureID JobID rawJobID E (JobID 0) w = NewJobID E w"
  "ensureID JobStepID rawJobStepID E (JobStepID 0) w = NewJobStepID E w"
  "ensureID ArtifactID rawArtifactID E (ArtifactID 0) w = NewArtifactID E w"
  "ensureID ExecutionID rawExecutionID E (ExecutionID 0) w = NewExecutionID E w"
  by (simp_all add: ensureID_def NewProjectID_def NewRepositoryID_def NewPipelineID_def NewPipelineRunID_def
      NewJobID_def NewJobStepID_def NewArtifactID_def NewExecutionID_def)

definition setCreatedAt :: "env \<Rightarrow> world \<Rightarrow> time \<times> world" where
  "setCreatedAt E w = time_Now E w"

definition setUpdatedAt :: "env \<Rightarrow> world \<Rightarrow> time \<times> world" where
  "setUpdatedAt E w = time_Now E w"

definition setCreatedUpdated :: "env \<Rightarrow> world \<Rightarrow> (time \<times> time) \<times> world" where
  "setCreatedUpdated E w = (case time_Now E w of (now, w1) \<Rightarrow> ((now, now), w1))"

definition setDefaultStatus :: "string \<Rightarrow> string \<Rightarrow> string" where
  "setDefaultStatus status fallback = (if status = '''' then fallback else status)"

definition wrapNoRowsByID :: "string \<Rightarrow> uuid \<Rightarrow> error \<Rightarrow> error" where
  "wrapNoRowsByID entity i e =
    (if errors_Is e ErrNoRows then Wrapf ''%s %s: %w'' [AStr entity, AUuid i] ErrNotFound else e)"

definition wrapNoRowsByName :: "string \<Rightarrow> string \<Rightarrow> error \<Rightarrow> error" where
  "wrapNoRowsByName entity name e =
    (if errors_Is e ErrNoRows then Wrapf ''%s %q: %w'' [AStr entity, AStr name] ErrNotFound else e)"

definition ensureRowsAffected :: "nat \<Rightarrow> string \<Rightarrow> uuid \<Rightarrow> error option" where
  "ensureRowsAffected n entity i =
    (if n = 0 then Some (Wrapf ''%s %s: %w'' [AStr entity, AUuid i] ErrNotFound) else None)"

definition startedFinishedForStatus :: "string \<Rightarrow> time \<Rightarrow> time option \<times> time option" where
  "startedFinishedForStatus status now =
    (if status = ''running'' then (Some now, None)
     else if status \<in> {''success'', ''failed'', ''canceled''} then (None, Some now)
     else (None, None))"

definition completedAtForStatus :: "string \<Rightarrow> time \<Rightarrow> time option" where
  "completedAtForStatus status now =
    (if status \<in> {''success'', ''failed'', ''canceled''} then Some now else None)"

text \<open>SQL's \<open>COALESCE\<close> of two values, NULL being \<open>None\<close>.\<close>

definition coalesce :: "'a option \<Rightarrow> 'a option \<Rightarrow> 'a option" where
  "coalesce a b = (case a of None \<Rightarrow> b | Some x \<Rightarrow> Some x)"

lemma coalesce_simps [simp]: "coalesce None b = b" "coalesce (Some x) b = Some x"
  by (simp_all add: coalesce_def)

lemma ensureRowsAffected_simps [simp]:
  "ensureRowsAffected n entity i = None \<longleftrightarrow> n \<noteq> 0"
  "ensureRowsAffected n entity i = Some e \<Longrightarrow> errors_Is e ErrNotFound"
  by (auto simp: ensureRowsAffected_def split: if_splits)

lemma errors_Is_wrapNoRowsByID [simp]:
  "errors_Is e ErrNoRows \<Longrightarrow> errors_Is (wrapNoRowsByID entity i e) ErrNotFound"
  by (simp add: wrapNoRowsByID_def)

text \<open>
  A table whose rows carry a status: the laws of \<open>Create\<close>d rows being read back by
  \<open>GetByID\<close> and moved by \<open>UpdateStatus\<close>, stated once for the four stores that have these
  operations. \<open>UpdateStatus\<close> reads the clock first and sends its statement at the next tick.
\<close>

locale status_store =
  fixes rows :: "world \<Rightarrow> 'r list"
    and key :: "'r \<Rightarrow> 'k"
    and status :: "'r \<Rightarrow> string"
    and update :: "env \<Rightarrow> ctx \<Rightarrow> 'k \<Rightarrow> string \<Rightarrow> world \<Rightarrow> error option \<times> world"
    and get :: "env \<Rightarrow> ctx \<Rightarrow> 'k \<Rightarrow> world \<Rightarrow> (error + 'r) \<times> world"
  assumes update_down: "\<not> db_up E c (Suc (tick w)) \<Longrightarrow>
      fst (update E c k s w) \<noteq> None \<and> rows (snd (update E c k s w)) = rows w"
    and update_hit: "db_up E c (Suc (tick w)) \<Longrightarrow> k \<in> key ` set (rows w) \<Longrightarrow>
      fst (update E c k s w) = None"
    and update_miss: "db_up E c (Suc (tick w)) \<Longrightarrow> k \<notin> key ` set (rows w) \<Longrightarrow>
      \<exists>e. fst (update E c k s w) = Some e \<and> errors_Is e ErrNotFound"
    and update_rows: "db_up E c (Suc (tick w)) \<Longrightarrow>
      \<exists>f. (\<forall>r. key (f r) = key r \<and> status (f r) = s) \<and>
          rows (snd (update E c k s w)) = set_row key k f (rows w)"
    and get_up: "db_up E c (tick w) \<Longrightarrow>
      (case get_row key k (rows w) of
         Some r \<Rightarrow> fst (get E c k w) = Inr r
       | None \<Rightarrow> \<exists>e. fst (get E c k w) = Inl e \<and> errors_Is e ErrNotFound)"
    and get_down: "\<not> db_up E c (tick w) \<Longrightarrow> \<exists>e. fst (get E c k w) = Inl e"
    and get_frame: "rows (snd (get E c k w)) = rows w"
begin

lemma update_None_iff:
  "fst (update E c k s w) = None \<longleftrightarrow> db_up E c (Suc (tick w)) \<and> k \<in> key ` set (rows w)"
  by (metis update_down update_hit update_miss option.distinct(1))

lemma update_keys: "map key (rows (snd (update E c k s w))) = map key (rows w)"
  by (metis map_key_set_row update_down update_rows)

lemma update_other:
  assumes "j \<noteq> k"
  shows "get_row key j (rows (snd (update E c k s w))) = get_row key j (rows w)"
proof (cases "db_up E c (Suc (tick w))")
  case True
  then obtain f where "\<forall>r. key (f r) = key r"
    "rows (snd (update E c k s w)) = set_row key k f (rows w)"
    using update_rows by blast
  with assms show ?thesis by (simp add: get_row_set_row)
next
  case False
  then show ?thesis using update_down by simp
qed

lemma update_status:
  assumes "fst (update E c k s w) = None"
  shows "\<exists>r. get_row key k (rows (snd (update E c k s w))) = Some r \<and> status r = s"
proof -
  from assms have up: "db_up E c (Suc (tick w))" and k: "k \<in> key ` set (rows w)"
    by (simp_all add: update_None_iff)
  from k obtain r where r: "get_row key k (rows w) = Some r"
    by (metis get_row_None not_None_eq)
  from up obtain f where "\<forall>r. key (f r) = key r \<and> status (f r) = s"
    "rows (snd (update E c k s w)) = set_row key k f (rows w)"
    using update_rows by blast
  with r show ?thesis by (simp add: get_row_set_row)
qed

lemma update_then_get:
  assumes "update E c k s w = (None, w1)" and "rows w2 = rows w1" and "db_up E c' (tick w2)"
  shows "\<exists>r. fst (get E c' k w2) = Inr r \<and> key r = k \<and> status r = s"
proof -
  from assms(1) obtain r where r: "get_row key k (rows w1) = Some r" "status r = s"
    using update_status [of E c k s w] by auto
  with assms(2,3) have "fst (get E c' k w2) = Inr r"
    using get_up [of E c' w2 k] by simp
  with r show ?thesis by (auto dest: get_row_Some)
qed

lemma get_missing:
  assumes "db_up E c (tick w)" and "k \<notin> key ` set (rows w)"
  shows "\<exists>e. fst (get E c k w) = Inl e \<and> errors_Is e ErrNotFound"
  using get_up [OF assms(1), of k] assms(2) by (auto split: option.splits dest: get_row_Some)

end

end
