(* ===== verification/PgRuns.thy ===== *)
theory PgRuns
  imports PgHelpers
begin

text \<open>
  The stores of a run's history: \<open>pipeline_run.go\<close>, \<open>job.go\<close>, \<open>job_step.go\<close>,
  \<open>artifact.go\<close> and \<open>execution.go\<close> of \<open>internal/store/postgres\<close>, with the constraints of
  \<open>migrations/\<close>. The four stores with a status satisfy the laws of \<open>status_store\<close>. An UPDATE of
  a status is recorded in the world's log, with the status it replaced.
\<close>

section \<open>Pipeline runs\<close>

definition insert_pipeline_run :: "PipelineRun \<Rightarrow> world \<Rightarrow> (error + nat) \<times> world" where
  "insert_pipeline_run r w =
    (if PipelineRun_ID r \<in> PipelineRun_ID ` set (pipeline_runs w)
     then (Inl (UniqueViolation ''pipeline_runs_pkey''), w)
     else if PipelineRun_PipelineID r \<notin> Pipeline_ID ` set (pipelines w)
     then (Inl (ForeignKeyViolation ''pipeline_runs_pipeline_id_fkey''), w)
     else (Inr 1, w\<lparr>pipeline_runs := pipeline_runs w @ [r]\<rparr>))"

definition set_run :: "string \<Rightarrow> time option \<Rightarrow> time option \<Rightarrow> PipelineRun \<Rightarrow> PipelineRun" where
  "set_run s st fi r = r\<lparr>PipelineRun_Status := s,
     PipelineRun_StartedAt := coalesce st (PipelineRun_StartedAt r),
     PipelineRun_FinishedAt := coalesce fi (PipelineRun_FinishedAt r)\<rparr>"

definition update_pipeline_run :: "PipelineRunID \<Rightarrow> string \<Rightarrow> time option \<Rightarrow> time option \<Rightarrow> world \<Rightarrow>
    (error + nat) \<times> world" where
  "update_pipeline_run k s st fi w =
    (Inr (hits PipelineRun_ID k (pipeline_runs w)),
     w\<lparr>pipeline_runs := set_row PipelineRun_ID k (set_run s st fi) (pipeline_runs w),
       log := log w @ map (\<lambda>r. RunStatus k (PipelineRun_Status r) s)
                (filter (\<lambda>r. PipelineRun_ID r = k) (pipeline_runs w))\<rparr>)"

definition PipelineRunStore_Create :: "env \<Rightarrow> ctx \<Rightarrow> PipelineRun \<Rightarrow> world \<Rightarrow>
    error option \<times> PipelineRun \<times> world" where
  "PipelineRunStore_Create E c r w =
    (case ensureID PipelineRunID rawPipelineRunID E (PipelineRun_ID r) w of (i, w1) \<Rightarrow>
     case setCreatedAt E w1 of (cr, w2) \<Rightarrow>
     let r' = r\<lparr>PipelineRun_ID := i, PipelineRun_CreatedAt := cr,
                PipelineRun_Status := setDefaultStatus (PipelineRun_Status r) ''pending''\<rparr> in
     case pool_call E c (insert_pipeline_run r') w2 of
       (Inl e, w3) \<Rightarrow> (Some e, r', w3)
     | (Inr _, w3) \<Rightarrow> (None, r', w3))"

definition PipelineRunStore_GetByID :: "env \<Rightarrow> ctx \<Rightarrow> PipelineRunID \<Rightarrow> world \<Rightarrow>
    (error + PipelineRun) \<times> world" where
  "PipelineRunStore_GetByID E c k w =
    (case pool_call E c (\<lambda>w. (case get_row PipelineRun_ID k (pipeline_runs w) of
         None \<Rightarrow> Inl ErrNoRows | Some r \<Rightarrow> Inr r, w)) w of
       (Inl e, w1) \<Rightarrow> (Inl (wrapNoRowsByID ''pipeline run'' (rawPipelineRunID k) e), w1)
     | (Inr r, w1) \<Rightarrow> (Inr r, w1))"

definition PipelineRunStore_ListByPipeline :: "env \<Rightarrow> ctx \<Rightarrow> PipelineID \<Rightarrow> world \<Rightarrow>
    (error + PipelineRun list) \<times> world" where
  "PipelineRunStore_ListByPipeline E c pid w =
    pool_call E c (\<lambda>w. (Inr (sort_key PipelineRun_CreatedAt
      (filter (\<lambda>r. PipelineRun_PipelineID r = pid) (pipeline_runs w))), w)) w"

definition PipelineRunStore_ListByStatus :: "env \<Rightarrow> ctx \<Rightarrow> string \<Rightarrow> world \<Rightarrow>
    (error + PipelineRun list) \<times> world" where
  "PipelineRunStore_ListByStatus E c s w =
    pool_call E c (\<lambda>w. (Inr (sort_key PipelineRun_CreatedAt
      (filter (\<lambda>r. PipelineRun_Status r = s) (pipeline_runs w))), w)) w"

definition PipelineRunStore_UpdateStatus :: "env \<Rightarrow> ctx \<Rightarrow> PipelineRunID \<Rightarrow> string \<Rightarrow> world \<Rightarrow>
    error option \<times> world" where
  "PipelineRunStore_UpdateStatus E c k s w =
    (case time_Now E w of (now, w1) \<Rightarrow>
     case startedFinishedForStatus s now of (startedAt, finishedAt) \<Rightarrow>
     case pool_call E c (update_pipeline_run k s startedAt finishedAt) w1 of
       (Inl e, w2) \<Rightarrow> (Some e, w2)
     | (Inr n, w2) \<Rightarrow> (ensureRowsAffected n ''pipeline run'' (rawPipelineRunID k), w2))"

section \<open>Jobs\<close>

definition insert_job :: "Job \<Rightarrow> world \<Rightarrow> (error + nat) \<times> world" where
  "insert_job j w =
    (if Job_ID j \<in> Job_ID ` set (jobs w) then (Inl (UniqueViolation ''jobs_pkey''), w)
     else if Job_PipelineRunID j \<notin> PipelineRun_ID ` set (pipeline_runs w)
     then (Inl (ForeignKeyViolation ''jobs_pipeline_run_id_fkey''), w)
     else (Inr 1, w\<lparr>jobs := jobs w @ [j]\<rparr>))"

definition set_job :: "string \<Rightarrow> time option \<Rightarrow> time option \<Rightarrow> Job \<Rightarrow> Job" where
  "set_job s st fi j = j\<lparr>Job_Status := s,
     Job_StartedAt := coalesce st (Job_StartedAt j),
     Job_FinishedAt := coalesce fi (Job_FinishedAt j)\<rparr>"

definition update_job :: "JobID \<Rightarrow> string \<Rightarrow> time option \<Rightarrow> time option \<Rightarrow> world \<Rightarrow>
    (error + nat) \<times> world" where
  "update_job k s st fi w =
    (Inr (hits Job_ID k (jobs w)),
     w\<lparr>jobs := set_row Job_ID k (set_job s st fi) (jobs w),
       log := log w @ map (\<lambda>j. JobStatus k (Job_Status j) s) (filter (\<lambda>j. Job_ID j = k) (jobs w))\<rparr>)"

definition JobStore_Create :: "env \<Rightarrow> ctx \<Rightarrow> Job \<Rightarrow> world \<Rightarrow> error option \<times> Job \<times> world" where
  "JobStore_Create E c j w =
    (case ensureID JobID rawJobID E (Job_ID j) w of (i, w1) \<Rightarrow>
     case setCreatedAt E w1 of (cr, w2) \<Rightarrow>
     let j' = j\<lparr>Job_ID := i, Job_CreatedAt := cr,
                Job_Status := setDefaultStatus (Job_Status j) ''pending''\<rparr> in
     case pool_call E c (insert_job j') w2 of
       (Inl e, w3) \<Rightarrow> (Some e, j', w3)
     | (Inr _, w3) \<Rightarrow> (None, j', w3))"

definition JobStore_GetByID :: "env \<Rightarrow> ctx \<Rightarrow> JobID \<Rightarrow> world \<Rightarrow> (error + Job) \<times> world" where
  "JobStore_GetByID E c k w =
    (case pool_call E c (\<lambda>w. (case get_row Job_ID k (jobs w) of
         None \<Rightarrow> Inl ErrNoRows | Some j \<Rightarrow> Inr j, w)) w of
       (Inl e, w1) \<Rightarrow> (Inl (wrapNoRowsByID ''job'' (rawJobID k) e), w1)
     | (Inr j, w1) \<Rightarrow> (Inr j, w1))"

definition JobStore_ListByPipelineRun :: "env \<Rightarrow> ctx \<Rightarrow> PipelineRunID \<Rightarrow> world \<Rightarrow>
    (error + Job list) \<times> world" where
  "JobStore_ListByPipelineRun E c rid w =
    pool_call E c (\<lambda>w. (Inr (sort_key Job_CreatedAt
      (filter (\<lambda>j. Job_PipelineRunID j = rid) (jobs w))), w)) w"

definition JobStore_UpdateStatus :: "env \<Rightarrow> ctx \<Rightarrow> JobID \<Rightarrow> string \<Rightarrow> world \<Rightarrow>
    error option \<times> world" where
  "JobStore_UpdateStatus E c k s w =
    (case time_Now E w of (now, w1) \<Rightarrow>
     case startedFinishedForStatus s now of (startedAt, finishedAt) \<Rightarrow>
     case pool_call E c (update_job k s startedAt finishedAt) w1 of
       (Inl e, w2) \<Rightarrow> (Some e, w2)
     | (Inr n, w2) \<Rightarrow> (ensureRowsAffected n ''job'' (rawJobID k), w2))"

section \<open>Job steps\<close>

text \<open>The column \<open>execution_order\<close> is a 32-bit INTEGER; pgx refuses a value it cannot hold.\<close>

definition int4_ok :: "int option \<Rightarrow> bool" where
  "int4_ok x = (case x of None \<Rightarrow> True | Some i \<Rightarrow> - (2 ^ 31) \<le> i \<and> i < 2 ^ 31)"

definition insert_job_step :: "JobStep \<Rightarrow> world \<Rightarrow> (error + nat) \<times> world" where
  "insert_job_step s w =
    (if \<not> int4_ok (JobStep_ExecutionOrder s) then (Inl (NumericOutOfRange ''execution_order''), w)
     else if JobStep_ID s \<in> JobStep_ID ` set (job_steps w)
     then (Inl (UniqueViolation ''job_steps_pkey''), w)
     else if JobStep_JobID s \<notin> Job_ID ` set (jobs w)
     then (Inl (ForeignKeyViolation ''job_steps_job_id_fkey''), w)
     else (Inr 1, w\<lparr>job_steps := job_steps w @ [s]\<rparr>))"

definition set_step :: "string \<Rightarrow> time option \<Rightarrow> time option \<Rightarrow> JobStep \<Rightarrow> JobStep" where
  "set_step s st fi x = x\<lparr>JobStep_Status := s,
     JobStep_StartedAt := coalesce st (JobStep_StartedAt x),
     JobStep_FinishedAt := coalesce fi (JobStep_FinishedAt x)\<rparr>"

definition update_job_step :: "JobStepID \<Rightarrow> string \<Rightarrow> time option \<Rightarrow> time option \<Rightarrow> world \<Rightarrow>
    (error + nat) \<times> world" where
  "update_job_step k s st fi w =
    (Inr (hits JobStep_ID k (job_steps w)),
     w\<lparr>job_steps := set_row JobStep_ID k (set_step s st fi) (job_steps w),
       log := log w @ map (\<lambda>x. StepStatus k (JobStep_Status x) s)
                (filter (\<lambda>x. JobStep_ID x = k) (job_steps w))\<rparr>)"

definition JobStepStore_Create :: "env \<Rightarrow> ctx \<Rightarrow> JobStep \<Rightarrow> world \<Rightarrow>
    error option \<times> JobStep \<times> world" where
  "JobStepStore_Create E c s w =
    (case ensureID JobStepID rawJobStepID E (JobStep_ID s) w of (i, w1) \<Rightarrow>
     case setCreatedAt E w1 of (cr, w2) \<Rightarrow>
     let s' = s\<lparr>JobStep_ID := i, JobStep_CreatedAt := cr,
                JobStep_Status := setDefaultStatus (JobStep_Status s) ''pending''\<rparr> in
     case pool_call E c (insert_job_step s') w2 of
       (Inl e, w3) \<Rightarrow> (Some e, s', w3)
     | (Inr _, w3) \<Rightarrow> (None, s', w3))"

definition JobStepStore_GetByID :: "env \<Rightarrow> ctx \<Rightarrow> JobStepID \<Rightarrow> world \<Rightarrow>
    (error + JobStep) \<times> world" where
  "JobStepStore_GetByID E c k w =
    (case pool_call E c (\<lambda>w. (case get_row JobStep_ID k (job_steps w) of
         None \<Rightarrow> Inl ErrNoRows | Some s \<Rightarrow> Inr s, w)) w of
       (Inl e, w1) \<Rightarrow> (Inl (wrapNoRowsByID ''job step'' (rawJobStepID k) e), w1)
     | (Inr s, w1) \<Rightarrow> (Inr s, w1))"

definition JobStepStore_ListByJob :: "env \<Rightarrow> ctx \<Rightarrow> JobID \<Rightarrow> world \<Rightarrow>
    (error + JobStep list) \<times> world" where
  "JobStepStore_ListByJob E c jid w =
    pool_call E c (\<lambda>w. (Inr (sort_key JobStep_CreatedAt
      (filter (\<lambda>s. JobStep_JobID s = jid) (job_steps w))), w)) w"

definition JobStepStore_UpdateStatus :: "env \<Rightarrow> ctx \<Rightarrow> JobStepID \<Rightarrow> string \<Rightarrow> world \<Rightarrow>
    error option \<times> world" where
  "JobStepStore_UpdateStatus E c k s w =
    (case time_Now E w of (now, w1) \<Rightarrow>
     case startedFinishedForStatus s now of (startedAt, finishedAt) \<Rightarrow>
     case pool_call E c (update_job_step k s startedAt finishedAt) w1 of
       (Inl e, w2) \<Rightarrow> (Some e, w2)
     | (Inr n, w2) \<Rightarrow> (ensureRowsAffected n ''job step'' (rawJobStepID k), w2))"

section \<open>Artifacts\<close>

definition insert_artifact :: "Artifact \<Rightarrow> world \<Rightarrow> (error + nat) \<times> world" where
  "insert_artifact a w =
    (if Artifact_ID a \<in> Artifact_ID ` set (artifacts w)
     then (Inl (UniqueViolation ''artifacts_pkey''), w)
     else if Artifact_JobID a \<notin> Job_ID ` set (jobs w)
     then (Inl (ForeignKeyViolation ''artifacts_job_id_fkey''), w)
     else (Inr 1, w\<lparr>artifacts := artifacts w @ [a]\<rparr>))"

definition ArtifactStore_Create :: "env \<Rightarrow> ctx \<Rightarrow> Artifact \<Rightarrow> world \<Rightarrow>
    error option \<times> Artifact \<times> world" where
  "ArtifactStore_Create E c a w =
    (case ensureID ArtifactID rawArtifactID E (Artifact_ID a) w of (i, w1) \<Rightarrow>
     case setCreatedAt E w1 of (cr, w2) \<Rightarrow>
     let a' = a\<lparr>Artifact_ID := i, Artifact_CreatedAt := cr\<rparr> in
     case pool_call E c (insert_artifact a') w2 of
       (Inl e, w3) \<Rightarrow> (Some e, a', w3)
     | (Inr _, w3) \<Rightarrow> (None, a', w3))"

definition ArtifactStore_GetByID :: "env \<Rightarrow> ctx \<Rightarrow> ArtifactID \<Rightarrow> world \<Rightarrow>
    (error + Artifact) \<times> world" where
  "ArtifactStore_GetByID E c k w =
    (case pool_call E c (\<lambda>w. (case get_row Artifact_ID k (artifacts w) of
         None \<Rightarrow> Inl ErrNoRows | Some a \<Rightarrow> Inr a, w)) w of
       (Inl e, w1) \<Rightarrow> (Inl (wrapNoRowsByID ''artifact'' (rawArtifactID k) e), w1)
     | (Inr a, w1) \<Rightarrow> (Inr a, w1))"

definition ArtifactStore_ListByJob :: "env \<Rightarrow> ctx \<Rightarrow> JobID \<Rightarrow> world \<Rightarrow>
    (error + Artifact list) \<times> world" where
  "ArtifactStore_ListByJob E c jid w =
    pool_call E c (\<lambda>w. (Inr (sort_key Artifact_CreatedAt
      (filter (\<lambda>a. Artifact_JobID a = jid) (artifacts w))), w)) w"

section \<open>Executions\<close>

definition insert_execution :: "Execution \<Rightarrow> world \<Rightarrow> (error + nat) \<times> world" where
  "insert_execution e w =
    (if Execution_ID e \<in> Execution_ID ` set (executions w)
     then (Inl (UniqueViolation ''executions_pkey''), w)
     else if Execution_JobStepID e \<notin> JobStep_ID ` set (job_steps w)
     then (Inl (ForeignKeyViolation ''executions_job_step_id_fkey''), w)
     else (Inr 1, w\<lparr>executions := executions w @ [e]\<rparr>))"

definition set_execution :: "string \<Rightarrow> time option \<Rightarrow> Execution \<Rightarrow> Execution" where
  "set_execution s done_at e = e\<lparr>Execution_Status := s,
     Execution_CompletedAt := coalesce done_at (Execution_CompletedAt e)\<rparr>"

definition update_execution :: "ExecutionID \<Rightarrow> string \<Rightarrow> time option \<Rightarrow> world \<Rightarrow>
    (error + nat) \<times> world" where
  "update_execution k s done_at w =
    (Inr (hits Execution_ID k (executions w)),
     w\<lparr>executions := set_row Execution_ID k (set_execution s done_at) (executions w),
       log := log w @ map (\<lambda>e. ExecStatus k (Execution_Status e) s)
                (filter (\<lambda>e. Execution_ID e = k) (executions w))\<rparr>)"

definition ExecutionStore_Create :: "env \<Rightarrow> ctx \<Rightarrow> Execution \<Rightarrow> world \<Rightarrow>
    error option \<times> Execution \<times> world" where
  "ExecutionStore_Create E c e w =
    (case ensureID ExecutionID rawExecutionID E (Execution_ID e) w of (i, w1) \<Rightarrow>
     case setCreatedAt E w1 of (cr, w2) \<Rightarrow>
     let e' = e\<lparr>Execution_ID := i, Execution_SubmittedAt := cr,
                Execution_Status := setDefaultStatus (Execution_Status e) ''pending''\<rparr> in
     case pool_call E c (insert_execution e') w2 of
       (Inl er, w3) \<Rightarrow> (Some er, e', w3)
     | (Inr _, w3) \<Rightarrow> (None, e', w3))"

definition ExecutionStore_GetByID :: "env \<Rightarrow> ctx \<Rightarrow> ExecutionID \<Rightarrow> world \<Rightarrow>
    (error + Execution) \<times> world" where
  "ExecutionStore_GetByID E c k w =
    (case pool_call E c (\<lambda>w. (case get_row Execution_ID k (executions w) of
         None \<Rightarrow> Inl ErrNoRows | Some e \<Rightarrow> Inr e, w)) w of
       (Inl e, w1) \<Rightarrow> (Inl (wrapNoRowsByID ''execution'' (rawExecutionID k) e), w1)
     | (Inr e, w1) \<Rightarrow> (Inr e, w1))"

definition ExecutionStore_ListByJobStep :: "env \<Rightarrow> ctx \<Rightarrow> JobStepID \<Rightarrow> world \<Rightarrow>
    (error + Execution list) \<times> world" where
  "ExecutionStore_ListByJobStep E c sid w =
    pool_call E c (\<lambda>w. (Inr (sort_key Execution_SubmittedAt
      (filter (\<lambda>e. Execution_JobStepID e = sid) (executions w))), w)) w"

definition ExecutionStore_UpdateStatus :: "env \<Rightarrow> ctx \<Rightarrow> ExecutionID \<Rightarrow> string \<Rightarrow> world \<Rightarrow>
    error option \<times> world" where
  "ExecutionStore_UpdateStatus E c k s w =
    (case time_Now E w of (now, w1) \<Rightarrow>
     let completedAt = completedAtForStatus s now in
     case pool_call E c (update_execution k s completedAt) w1 of
       (Inl e, w2) \<Rightarrow> (Some e, w2)
     | (Inr n, w2) \<Rightarrow> (ensureRowsAffected n ''execution'' (rawExecutionID k), w2))"

section \<open>The laws of a status store\<close>

lemmas status_store_defs =
  time_Now_def update_pipeline_run_def update_job_def update_job_step_def update_execution_def
  set_run_def set_job_def set_step_def set_execution_def

lemma set_key_simps [simp]:
  "PipelineRun_ID (set_run s st fi r) = PipelineRun_ID r"
  "PipelineRun_PipelineID (set_run s st fi r) = PipelineRun_PipelineID r"
  "PipelineRun_Status (set_run s st fi r) = s"
  "Job_ID (set_job s st fi j) = Job_ID j"
  "Job_PipelineRunID (set_job s st fi j) = Job_PipelineRunID j"
  "Job_Status (set_job s st fi j) = s"
  "JobStep_ID (set_step s st fi x) = JobStep_ID x"
  "JobStep_JobID (set_step s st fi x) = JobStep_JobID x"
  "JobStep_Status (set_step s st fi x) = s"
  "Execution_ID (set_execution s done_at e) = Execution_ID e"
  "Execution_JobStepID (set_execution s done_at e) = Execution_JobStepID e"
  "Execution_Status (set_execution s done_at e) = s"
  by (simp_all add: set_run_def set_job_def set_step_def set_execution_def)

lemma PipelineRunStore_UpdateStatus_down:
  "\<not> db_up E c (Suc (tick w)) \<Longrightarrow> PipelineRunStore_UpdateStatus E c k s w =
     (Some (db_error E (Suc (tick w))), tock (tock w))"
  by (simp add: PipelineRunStore_UpdateStatus_def time_Now_def pool_call_down  split: prod.splits)

lemma PipelineRunStore_UpdateStatus_up:
  "db_up E c (Suc (tick w)) \<Longrightarrow> PipelineRunStore_UpdateStatus E c k s w =
     (ensureRowsAffected (hits PipelineRun_ID k (pipeline_runs w)) ''pipeline run'' (rawPipelineRunID k),
      snd (update_pipeline_run k s (fst (startedFinishedForStatus s (time_now E (tick w)))) 
        (snd (startedFinishedForStatus s (time_now E (tick w)))) (tock (tock w))))"
  by (simp add: PipelineRunStore_UpdateStatus_def time_Now_def pool_call_up update_pipeline_run_def  split: prod.splits)

lemma JobStore_UpdateStatus_down:
  "\<not> db_up E c (Suc (tick w)) \<Longrightarrow> JobStore_UpdateStatus E c k s w =
     (Some (db_error E (Suc (tick w))), tock (tock w))"
  by (simp add: JobStore_UpdateStatus_def time_Now_def pool_call_down  split: prod.splits)

lemma JobStore_UpdateStatus_up:
  "db_up E c (Suc (tick w)) \<Longrightarrow> JobStore_UpdateStatus E c k s w =
     (ensureRowsAffected (hits Job_ID k (jobs w)) ''job'' (rawJobID k),
      snd (update_job k s (fst (startedFinishedForStatus s (time_now E (tick w)))) 
        (snd (startedFinishedForStatus s (time_now E (tick w)))) (tock (tock w))))"
  by (simp add: JobStore_UpdateStatus_def time_Now_def pool_call_up update_job_def  split: prod.splits)

lemma JobStepStore_UpdateStatus_down:
  "\<not> db_up E c (Suc (tick w)) \<Longrightarrow> JobStepStore_UpdateStatus E c k s w =
     (Some (db_error E (Suc (tick w))), tock (tock w))"
  by (simp add: JobStepStore_UpdateStatus_def time_Now_def pool_call_down  split: prod.splits)

lemma JobStepStore_UpdateStatus_up:
  "db_up E c (Suc (tick w)) \<Longrightarrow> JobStepStore_UpdateStatus E c k s w =
     (ensureRowsAffected (hits JobStep_ID k (job_steps w)) ''job step'' (rawJobStepID k),
      snd (update_job_step k s (fst (startedFinishedForStatus s (time_now E (tick w)))) 
        (snd (startedFinishedForStatus s (time_now E (tick w)))) (tock (tock w))))"
  by (simp add: JobStepStore_UpdateStatus_def time_Now_def pool_call_up update_job_step_def  split: prod.splits)

lemma ExecutionStore_UpdateStatus_down:
  "\<not> db_up E c (Suc (tick w)) \<Longrightarrow> ExecutionStore_UpdateStatus E c k s w =
     (Some (db_error E (Suc (tick w))), tock (tock w))"
  by (simp add: ExecutionStore_UpdateStatus_def time_Now_def pool_call_down Let_def split: prod.splits)

lemma ExecutionStore_UpdateStatus_up:
  "db_up E c (Suc (tick w)) \<Longrightarrow> ExecutionStore_UpdateStatus E c k s w =
     (ensureRowsAffected (hits Execution_ID k (executions w)) ''execution'' (rawExecutionID k),
      snd (update_execution k s (completedAtForStatus s (time_now E (tick w))) (tock (tock w))))"
  by (simp add: ExecutionStore_UpdateStatus_def time_Now_def pool_call_up update_execution_def Let_def split: prod.splits)

lemma row_update_witness:
  "(\<forall>r. key (f r) = key r \<and> status (f r) = s) \<Longrightarrow>
     \<exists>g. (\<forall>r. key (g r) = key r \<and> status (g r) = s) \<and> set_row key k f rows = set_row key k g rows"
  by blast

interpretation run_store: status_store pipeline_runs PipelineRun_ID PipelineRun_Status PipelineRunStore_UpdateStatus PipelineRunStore_GetByID
proof unfold_locales
  fix E c k s w
  show "\<not> db_up E c (Suc (tick w)) \<Longrightarrow> fst (PipelineRunStore_UpdateStatus E c k s w) \<noteq> None \<and>
      pipeline_runs (snd (PipelineRunStore_UpdateStatus E c k s w)) = pipeline_runs w"
    by (simp add: PipelineRunStore_UpdateStatus_down)
  show "db_up E c (Suc (tick w)) \<Longrightarrow> k \<in> PipelineRun_ID ` set (pipeline_runs w) \<Longrightarrow>
      fst (PipelineRunStore_UpdateStatus E c k s w) = None"
    by (simp add: PipelineRunStore_UpdateStatus_up)
  show "db_up E c (Suc (tick w)) \<Longrightarrow> k \<notin> PipelineRun_ID ` set (pipeline_runs w) \<Longrightarrow>
      \<exists>e. fst (PipelineRunStore_UpdateStatus E c k s w) = Some e \<and> errors_Is e ErrNotFound"
    by (simp add: PipelineRunStore_UpdateStatus_up ensureRowsAffected_def)
  show "db_up E c (Suc (tick w)) \<Longrightarrow>
      \<exists>f. (\<forall>r. PipelineRun_ID (f r) = PipelineRun_ID r \<and> PipelineRun_Status (f r) = s) \<and>
          pipeline_runs (snd (PipelineRunStore_UpdateStatus E c k s w)) = set_row PipelineRun_ID k f (pipeline_runs w)"
    by (simp add: PipelineRunStore_UpdateStatus_up update_pipeline_run_def) (rule row_update_witness, simp)
  show "db_up E c (tick w) \<Longrightarrow>
      (case get_row PipelineRun_ID k (pipeline_runs w) of
         Some r \<Rightarrow> fst (PipelineRunStore_GetByID E c k w) = Inr r
       | None \<Rightarrow> \<exists>e. fst (PipelineRunStore_GetByID E c k w) = Inl e \<and> errors_Is e ErrNotFound)"
    by (auto simp: PipelineRunStore_GetByID_def pool_call_up split: option.splits dest: get_row_Some)
  show "\<not> db_up E c (tick w) \<Longrightarrow> \<exists>e. fst (PipelineRunStore_GetByID E c k w) = Inl e"
    by (simp add: PipelineRunStore_GetByID_def pool_call_down)
  show "pipeline_runs (snd (PipelineRunStore_GetByID E c k w)) = pipeline_runs w"
    by (auto simp: PipelineRunStore_GetByID_def pool_call_eq split: option.splits)
qed

interpretation job_store: status_store jobs Job_ID Job_Status JobStore_UpdateStatus JobStore_GetByID
proof unfold_locales
  fix E c k s w
  show "\<not> db_up E c (Suc (tick w)) \<Longrightarrow> fst (JobStore_UpdateStatus E c k s w) \<noteq> None \<and>
      jobs (snd (JobStore_UpdateStatus E c k s w)) = jobs w"
    by (simp add: JobStore_UpdateStatus_down)
  show "db_up E c (Suc (tick w)) \<Longrightarrow> k \<in> Job_ID ` set (jobs w) \<Longrightarrow>
      fst (JobStore_UpdateStatus E c k s w) = None"
    by (simp add: JobStore_UpdateStatus_up)
  show "db_up E c (Suc (tick w)) \<Longrightarrow> k \<notin> Job_ID ` set (jobs w) \<Longrightarrow>
      \<exists>e. fst (JobStore_UpdateStatus E c k s w) = Some e \<and> errors_Is e ErrNotFound"
    by (simp add: JobStore_UpdateStatus_up ensureRowsAffected_def)
  show "db_up E c (Suc (tick w)) \<Longrightarrow>
      \<exists>f. (\<forall>r. Job_ID (f r) = Job_ID r \<and> Job_Status (f r) = s) \<and>
          jobs (snd (JobStore_UpdateStatus E c k s w)) = set_row Job_ID k f (jobs w)"
    by (simp add: JobStore_UpdateStatus_up update_job_def) (rule row_update_witness, simp)
  show "db_up E c (tick w) \<Longrightarrow>
      (case get_row Job_ID k (jobs w) of
         Some r \<Rightarrow> fst (JobStore_GetByID E c k w) = Inr r
       | None \<Rightarrow> \<exists>e. fst (JobStore_GetByID E c k w) = Inl e \<and> errors_Is e ErrNotFound)"
    by (auto simp: JobStore_GetByID_def pool_call_up split: option.splits dest: get_row_Some)
  show "\<not> db_up E c (tick w) \<Longrightarrow> \<exists>e. fst (JobStore_GetByID E c k w) = Inl e"
    by (simp add: JobStore_GetByID_def pool_call_down)
  show "jobs (snd (JobStore_GetByID E c k w)) = jobs w"
    by (auto simp: JobStore_GetByID_def pool_call_eq split: option.splits)
qed

interpretation step_store: status_store job_steps JobStep_ID JobStep_Status JobStepStore_UpdateStatus JobStepStore_GetByID
proof unfold_locales
  fix E c k s w
  show "\<not> db_up E c (Suc (tick w)) \<Longrightarrow> fst (JobStepStore_UpdateStatus E c k s w) \<noteq> None \<and>
      job_steps (snd (JobStepStore_UpdateStatus E c k s w)) = job_steps w"
    by (simp add: JobStepStore_UpdateStatus_down)
  show "db_up E c (Suc (tick w)) \<Longrightarrow> k \<in> JobStep_ID ` set (job_steps w) \<Longrightarrow>
      fst (JobStepStore_UpdateStatus E c k s w) = None"
    by (simp add: JobStepStore_UpdateStatus_up)
  show "db_up E c (Suc (tick w)) \<Longrightarrow> k \<notin> JobStep_ID ` set (job_steps w) \<Longrightarrow>
      \<exists>e. fst (JobStepStore_UpdateStatus E c k s w) = Some e \<and> errors_Is e ErrNotFound"
    by (simp add: JobStepStore_UpdateStatus_up ensureRowsAffected_def)
  show "db_up E c (Suc (tick w)) \<Longrightarrow>
      \<exists>f. (\<forall>r. JobStep_ID (f r) = JobStep_ID r \<and> JobStep_Status (f r) = s) \<and>
          job_steps (snd (JobStepStore_UpdateStatus E c k s w)) = set_row JobStep_ID k f (job_steps w)"
    by (simp add: JobStepStore_UpdateStatus_up update_job_step_def) (rule row_update_witness, simp)
  show "db_up E c (tick w) \<Longrightarrow>
      (case get_row JobStep_ID k (job_steps w) of
         Some r \<Rightarrow> fst (JobStepStore_GetByID E c k w) = Inr r
       | None \<Rightarrow> \<exists>e. fst (JobStepStore_GetByID E c k w) = Inl e \<and> errors_Is e ErrNotFound)"
    by (auto simp: JobStepStore_GetByID_def pool_call_up split: option.splits dest: get_row_Some)
  show "\<not> db_up E c (tick w) \<Longrightarrow> \<exists>e. fst (JobStepStore_GetByID E c k w) = Inl e"
    by (simp add: JobStepStore_GetByID_def pool_call_down)
  show "job_steps (snd (JobStepStore_GetByID E c k w)) = job_steps w"
    by (auto simp: JobStepStore_GetByID_def pool_call_eq split: option.splits)
qed

interpretation execution_store: status_store executions Execution_ID Execution_Status ExecutionStore_UpdateStatus ExecutionStore_GetByID
proof unfold_locales
  fix E c k s w
  show "\<not> db_up E c (Suc (tick w)) \<Longrightarrow> fst (ExecutionStore_UpdateStatus E c k s w) \<noteq> None \<and>
      executions (snd (ExecutionStore_UpdateStatus E c k s w)) = executions w"
    by (simp add: ExecutionStore_UpdateStatus_down)
  show "db_up E c (Suc (tick w)) \<Longrightarrow> k \<in> Execution_ID ` set (executions w) \<Longrightarrow>
      fst (ExecutionStore_UpdateStatus E c k s w) = None"
    by (simp add: ExecutionStore_UpdateStatus_up)
  show "db_up E c (Suc (tick w)) \<Longrightarrow> k \<notin> Execution_ID ` set (executions w) \<Longrightarrow>
      \<exists>e. fst (ExecutionStore_UpdateStatus E c k s w) = Some e \<and> errors_Is e ErrNotFound"
    by (simp add: ExecutionStore_UpdateStatus_up ensureRowsAffected_def)
  show "db_up E c (Suc (tick w)) \<Longrightarrow>
      \<exists>f. (\<forall>r. Execution_ID (f r) = Execution_ID r \<and> Execution_Status (f r) = s) \<and>
          executions (snd (ExecutionStore_UpdateStatus E c k s w)) = set_row Execution_ID k f (executions w)"
    by (simp add: ExecutionStore_UpdateStatus_up update_execution_def) (rule row_update_witness, simp)
  show "db_up E c (tick w) \<Longrightarrow>
      (case get_row Execution_ID k (executions w) of
         Some r \<Rightarrow> fst (ExecutionStore_GetByID E c k w) = Inr r
       | None \<Rightarrow> \<exists>e. fst (ExecutionStore_GetByID E c k w) = Inl e \<and> errors_Is e ErrNotFound)"
    by (auto simp: ExecutionStore_GetByID_def pool_call_up split: option.splits dest: get_row_Some)
  show "\<not> db_up E c (tick w) \<Longrightarrow> \<exists>e. fst (ExecutionStore_GetByID E c k w) = Inl e"
    by (simp add: ExecutionStore_GetByID_def pool_call_down)
  show "executions (snd (ExecutionStore_GetByID E c k w)) = executions w"
    by (auto simp: ExecutionStore_GetByID_def pool_call_eq split: option.splits)
qed

section \<open>What Create and UpdateStatus do to the world\<close>

text \<open>
  Every operation advances the clock and touches one table: a Create adds one row or none, an
  UpdateStatus rewrites the rows with its key and logs the change, or does nothing.
\<close>

lemma setDefaultStatus_simps [simp]:
  "setDefaultStatus [] d = d" "s \<noteq> [] \<Longrightarrow> setDefaultStatus s d = s"
  by (simp_all add: setDefaultStatus_def)

lemma ensureID_cases:
  obtains i n where "ensureID mk raw E i0 w = (i, w\<lparr>tick := n\<rparr>)" "tick w \<le> n"
    "raw i0 \<noteq> 0 \<Longrightarrow> i = i0"
proof (cases "raw i0 = 0")
  case True
  then show ?thesis
    by (intro that [of "mk (uuid_new E (tick w))" "Suc (tick w)"])
      (simp_all add: ensureID_def uuid_New_def tock_def)
next
  case False
  then show ?thesis by (intro that [of i0 "tick w"]) (simp_all add: ensureID_def)
qed

lemmas create_defs = setCreatedAt_def time_Now_def tock_def

lemma PipelineRunStore_Create_cases:
  obtains (failed) e r' n where "PipelineRunStore_Create E c r w = (Some e, r', w\<lparr>tick := n\<rparr>)" "tick w < n"
  | (created) r' i t n where
      "PipelineRunStore_Create E c r w = (None, r', w\<lparr>tick := n, pipeline_runs := pipeline_runs w @ [r']\<rparr>)" "tick w < n"
      "r' = r\<lparr>PipelineRun_ID := i, PipelineRun_CreatedAt := t, PipelineRun_Status := setDefaultStatus (PipelineRun_Status r) ''pending''\<rparr>"
      "i \<notin> PipelineRun_ID ` set (pipeline_runs w)" "PipelineRun_PipelineID r \<in> Pipeline_ID ` set (pipelines w)"
proof -
  obtain i n where i: "ensureID PipelineRunID rawPipelineRunID E (PipelineRun_ID r) w = (i, w\<lparr>tick := n\<rparr>)" "tick w \<le> n"
    by (rule ensureID_cases)
  let ?r = "r\<lparr>PipelineRun_ID := i, PipelineRun_CreatedAt := time_now E n, PipelineRun_Status := setDefaultStatus (PipelineRun_Status r) ''pending''\<rparr>"
  let ?w = "w\<lparr>tick := Suc (Suc n)\<rparr>"
  have eq: "PipelineRunStore_Create E c r w =
      (if db_up E c (Suc n)
       then (case insert_pipeline_run ?r ?w of (Inl e, w3) \<Rightarrow> (Some e, ?r, w3) | (Inr _, w3) \<Rightarrow> (None, ?r, w3))
       else (Some (db_error E (Suc n)), ?r, ?w))"
    by (simp add: PipelineRunStore_Create_def i create_defs pool_call_eq Let_def split: prod.split sum.split)
  show ?thesis
  proof (cases "db_up E c (Suc n) \<and> fst (insert_pipeline_run ?r ?w) = Inr 1")
    case True
    then have "insert_pipeline_run ?r ?w = (Inr 1, ?w\<lparr>pipeline_runs := pipeline_runs w @ [?r]\<rparr>)"
      and "i \<notin> PipelineRun_ID ` set (pipeline_runs w)" and "PipelineRun_PipelineID r \<in> Pipeline_ID ` set (pipelines w)"
      by (auto simp: insert_pipeline_run_def split: if_splits)
    with True eq i show ?thesis by (intro created [where i = i and t = "time_now E n" and n = "Suc (Suc n)"]) simp_all
  next
    case False
    then have "\<exists>e. PipelineRunStore_Create E c r w = (Some e, ?r, ?w)"
      by (auto simp: eq insert_pipeline_run_def)
    with i show ?thesis using failed [where n = "Suc (Suc n)"] by auto
  qed
qed

lemma JobStore_Create_cases:
  obtains (failed) e j' n where "JobStore_Create E c j w = (Some e, j', w\<lparr>tick := n\<rparr>)" "tick w < n"
  | (created) j' i t n where
      "JobStore_Create E c j w = (None, j', w\<lparr>tick := n, jobs := jobs w @ [j']\<rparr>)" "tick w < n"
      "j' = j\<lparr>Job_ID := i, Job_CreatedAt := t, Job_Status := setDefaultStatus (Job_Status j) ''pending''\<rparr>"
      "i \<notin> Job_ID ` set (jobs w)" "Job_PipelineRunID j \<in> PipelineRun_ID ` set (pipeline_runs w)"
proof -
  obtain i n where i: "ensureID JobID rawJobID E (Job_ID j) w = (i, w\<lparr>tick := n\<rparr>)" "tick w \<le> n"
    by (rule ensureID_cases)
  let ?r = "j\<lparr>Job_ID := i, Job_CreatedAt := time_now E n, Job_Status := setDefaultStatus (Job_Status j) ''pending''\<rparr>"
  let ?w = "w\<lparr>tick := Suc (Suc n)\<rparr>"
  have eq: "JobStore_Create E c j w =
      (if db_up E c (Suc n)
       then (case insert_job ?r ?w of (Inl e, w3) \<Rightarrow> (Some e, ?r, w3) | (Inr _, w3) \<Rightarrow> (None, ?r, w3))
       else (Some (db_error E (Suc n)), ?r, ?w))"
    by (simp add: JobStore_Create_def i create_defs pool_call_eq Let_def split: prod.split sum.split)
  show ?thesis
  proof (cases "db_up E c (Suc n) \<and> fst (insert_job ?r ?w) = Inr 1")
    case True
    then have "insert_job ?r ?w = (Inr 1, ?w\<lparr>jobs := jobs w @ [?r]\<rparr>)"
      and "i \<notin> Job_ID ` set (jobs w)" and "Job_PipelineRunID j \<in> PipelineRun_ID ` set (pipeline_runs w)"
      by (auto simp: insert_job_def split: if_splits)
    with True eq i show ?thesis by (intro created [where i = i and t = "time_now E n" and n = "Suc (Suc n)"]) simp_all
  next
    case False
    then have "\<exists>e. JobStore_Create E c j w = (Some e, ?r, ?w)"
      by (auto simp: eq insert_job_def)
    with i show ?thesis using failed [where n = "Suc (Suc n)"] by auto
  qed
qed

lemma JobStepStore_Create_cases:
  obtains (failed) e s' n where "JobStepStore_Create E c s w = (Some e, s', w\<lparr>tick := n\<rparr>)" "tick w < n"
  | (created) s' i t n where
      "JobStepStore_Create E c s w = (None, s', w\<lparr>tick := n, job_steps := job_steps w @ [s']\<rparr>)" "tick w < n"
      "s' = s\<lparr>JobStep_ID := i, JobStep_CreatedAt := t, JobStep_Status := setDefaultStatus (JobStep_Status s) ''pending''\<rparr>"
      "i \<notin> JobStep_ID ` set (job_steps w)" "JobStep_JobID s \<in> Job_ID ` set (jobs w)"
proof -
  obtain i n where i: "ensureID JobStepID rawJobStepID E (JobStep_ID s) w = (i, w\<lparr>tick := n\<rparr>)" "tick w \<le> n"
    by (rule ensureID_cases)
  let ?r = "s\<lparr>JobStep_ID := i, JobStep_CreatedAt := time_now E n, JobStep_Status := setDefaultStatus (JobStep_Status s) ''pending''\<rparr>"
  let ?w = "w\<lparr>tick := Suc (Suc n)\<rparr>"
  have eq: "JobStepStore_Create E c s w =
      (if db_up E c (Suc n)
       then (case insert_job_step ?r ?w of (Inl e, w3) \<Rightarrow> (Some e, ?r, w3) | (Inr _, w3) \<Rightarrow> (None, ?r, w3))
       else (Some (db_error E (Suc n)), ?r, ?w))"
    by (simp add: JobStepStore_Create_def i create_defs pool_call_eq Let_def split: prod.split sum.split)
  show ?thesis
  proof (cases "db_up E c (Suc n) \<and> fst (insert_job_step ?r ?w) = Inr 1")
    case True
    then have "insert_job_step ?r ?w = (Inr 1, ?w\<lparr>job_steps := job_steps w @ [?r]\<rparr>)"
      and "i \<notin> JobStep_ID ` set (job_steps w)" and "JobStep_JobID s \<in> Job_ID ` set (jobs w)"
      by (auto simp: insert_job_step_def split: if_splits)
    with True eq i show ?thesis by (intro created [where i = i and t = "time_now E n" and n = "Suc (Suc n)"]) simp_all
  next
    case False
    then have "\<exists>e. JobStepStore_Create E c s w = (Some e, ?r, ?w)"
      by (auto simp: eq insert_job_step_def)
    with i show ?thesis using failed [where n = "Suc (Suc n)"] by auto
  qed
qed

lemma ArtifactStore_Create_cases:
  obtains (failed) e a' n where "ArtifactStore_Create E c a w = (Some e, a', w\<lparr>tick := n\<rparr>)" "tick w < n"
  | (created) a' i t n where
      "ArtifactStore_Create E c a w = (None, a', w\<lparr>tick := n, artifacts := artifacts w @ [a']\<rparr>)" "tick w < n"
      "a' = a\<lparr>Artifact_ID := i, Artifact_CreatedAt := t\<rparr>"
      "i \<notin> Artifact_ID ` set (artifacts w)" "Artifact_JobID a \<in> Job_ID ` set (jobs w)"
proof -
  obtain i n where i: "ensureID ArtifactID rawArtifactID E (Artifact_ID a) w = (i, w\<lparr>tick := n\<rparr>)" "tick w \<le> n"
    by (rule ensureID_cases)
  let ?r = "a\<lparr>Artifact_ID := i, Artifact_CreatedAt := time_now E n\<rparr>"
  let ?w = "w\<lparr>tick := Suc (Suc n)\<rparr>"
  have eq: "ArtifactStore_Create E c a w =
      (if db_up E c (Suc n)
       then (case insert_artifact ?r ?w of (Inl e, w3) \<Rightarrow> (Some e, ?r, w3) | (Inr _, w3) \<Rightarrow> (None, ?r, w3))
       else (Some (db_error E (Suc n)), ?r, ?w))"
    by (simp add: ArtifactStore_Create_def i create_defs pool_call_eq Let_def split: prod.split sum.split)
  show ?thesis
  proof (cases "db_up E c (Suc n) \<and> fst (insert_artifact ?r ?w) = Inr 1")
    case True
    then have "insert_artifact ?r ?w = (Inr 1, ?w\<lparr>artifacts := artifacts w @ [?r]\<rparr>)"
      and "i \<notin> Artifact_ID ` set (artifacts w)" and "Artifact_JobID a \<in> Job_ID ` set (jobs w)"
      by (auto simp: insert_artifact_def split: if_splits)
    with True eq i show ?thesis by (intro created [where i = i and t = "time_now E n" and n = "Suc (Suc n)"]) simp_all
  next
    case False
    then have "\<exists>e. ArtifactStore_Create E c a w = (Some e, ?r, ?w)"
      by (auto simp: eq insert_artifact_def)
    with i show ?thesis using failed [where n = "Suc (Suc n)"] by auto
  qed
qed

lemma ExecutionStore_Create_cases:
  obtains (failed) e e0' n where "ExecutionStore_Create E c e0 w = (Some e, e0', w\<lparr>tick := n\<rparr>)" "tick w < n"
  | (created) e0' i t n where
      "ExecutionStore_Create E c e0 w = (None, e0', w\<lparr>tick := n, executions := executions w @ [e0']\<rparr>)" "tick w < n"
      "e0' = e0\<lparr>Execution_ID := i, Execution_SubmittedAt := t, Execution_Status := setDefaultStatus (Execution_Status e0) ''pending''\<rparr>"
      "i \<notin> Execution_ID ` set (executions w)" "Execution_JobStepID e0 \<in> JobStep_ID ` set (job_steps w)"
proof -
  obtain i n where i: "ensureID ExecutionID rawExecutionID E (Execution_ID e0) w = (i, w\<lparr>tick := n\<rparr>)" "tick w \<le> n"
    by (rule ensureID_cases)
  let ?r = "e0\<lparr>Execution_ID := i, Execution_SubmittedAt := time_now E n, Execution_Status := setDefaultStatus (Execution_Status e0) ''pending''\<rparr>"
  let ?w = "w\<lparr>tick := Suc (Suc n)\<rparr>"
  have eq: "ExecutionStore_Create E c e0 w =
      (if db_up E c (Suc n)
       then (case insert_execution ?r ?w of (Inl e, w3) \<Rightarrow> (Some e, ?r, w3) | (Inr _, w3) \<Rightarrow> (None, ?r, w3))
       else (Some (db_error E (Suc n)), ?r, ?w))"
    by (simp add: ExecutionStore_Create_def i create_defs pool_call_eq Let_def split: prod.split sum.split)
  show ?thesis
  proof (cases "db_up E c (Suc n) \<and> fst (insert_execution ?r ?w) = Inr 1")
    case True
    then have "insert_execution ?r ?w = (Inr 1, ?w\<lparr>executions := executions w @ [?r]\<rparr>)"
      and "i \<notin> Execution_ID ` set (executions w)" and "Execution_JobStepID e0 \<in> JobStep_ID ` set (job_steps w)"
      by (auto simp: insert_execution_def split: if_splits)
    with True eq i show ?thesis by (intro created [where i = i and t = "time_now E n" and n = "Suc (Suc n)"]) simp_all
  next
    case False
    then have "\<exists>e. ExecutionStore_Create E c e0 w = (Some e, ?r, ?w)"
      by (auto simp: eq insert_execution_def)
    with i show ?thesis using failed [where n = "Suc (Suc n)"] by auto
  qed
qed

lemma PipelineRunStore_UpdateStatus_cases:
  obtains (unsent) e where "PipelineRunStore_UpdateStatus E c k s w = (Some e, w\<lparr>tick := tick w + 2\<rparr>)"
      "\<not> db_up E c (Suc (tick w))"
  | (sent) f where
      "PipelineRunStore_UpdateStatus E c k s w = (ensureRowsAffected (hits PipelineRun_ID k (pipeline_runs w)) ''pipeline run'' (rawPipelineRunID k),
         w\<lparr>tick := tick w + 2, pipeline_runs := set_row PipelineRun_ID k f (pipeline_runs w),
           log := log w @ map (\<lambda>r. RunStatus k (PipelineRun_Status r) s) (filter (\<lambda>r. PipelineRun_ID r = k) (pipeline_runs w))\<rparr>)"
      "db_up E c (Suc (tick w))"
      "f = set_run s (fst (startedFinishedForStatus s (time_now E (tick w))))
             (snd (startedFinishedForStatus s (time_now E (tick w))))"
proof (cases "db_up E c (Suc (tick w))")
  case True
  then show ?thesis
    using sent by (simp add: PipelineRunStore_UpdateStatus_up update_pipeline_run_def tock_def)
next
  case False
  then show ?thesis
    using unsent by (simp add: PipelineRunStore_UpdateStatus_down tock_def)
qed

lemma JobStore_UpdateStatus_cases:
  obtains (unsent) e where "JobStore_UpdateStatus E c k s w = (Some e, w\<lparr>tick := tick w + 2\<rparr>)"
      "\<not> db_up E c (Suc (tick w))"
  | (sent) f where
      "JobStore_UpdateStatus E c k s w = (ensureRowsAffected (hits Job_ID k (jobs w)) ''job'' (rawJobID k),
         w\<lparr>tick := tick w + 2, jobs := set_row Job_ID k f (jobs w),
           log := log w @ map (\<lambda>r. JobStatus k (Job_Status r) s) (filter (\<lambda>r. Job_ID r = k) (jobs w))\<rparr>)"
      "db_up E c (Suc (tick w))"
      "f = set_job s (fst (startedFinishedForStatus s (time_now E (tick w))))
             (snd (startedFinishedForStatus s (time_now E (tick w))))"
proof (cases "db_up E c (Suc (tick w))")
  case True
  then show ?thesis
    using sent by (simp add: JobStore_UpdateStatus_up update_job_def tock_def)
next
  case False
  then show ?thesis
    using unsent by (simp add: JobStore_UpdateStatus_down tock_def)
qed

lemma JobStepStore_UpdateStatus_cases:
  obtains (unsent) e where "JobStepStore_UpdateStatus E c k s w = (Some e, w\<lparr>tick := tick w + 2\<rparr>)"
      "\<not> db_up E c (Suc (tick w))"
  | (sent) f where
      "JobStepStore_UpdateStatus E c k s w = (ensureRowsAffected (hits JobStep_ID k (job_steps w)) ''job step'' (rawJobStepID k),
         w\<lparr>tick := tick w + 2, job_steps := set_row JobStep_ID k f (job_steps w),
           log := log w @ map (\<lambda>r. StepStatus k (JobStep_Status r) s) (filter (\<lambda>r. JobStep_ID r = k) (job_steps w))\<rparr>)"
      "db_up E c (Suc (tick w))"
      "f = set_step s (fst (startedFinishedForStatus s (time_now E (tick w))))
             (snd (startedFinishedForStatus s (time_now E (tick w))))"
proof (cases "db_up E c (Suc (tick w))")
  case True
  then show ?thesis
    using sent by (simp add: JobStepStore_UpdateStatus_up update_job_step_def tock_def)
next
  case False
  then show ?thesis
    using unsent by (simp add: JobStepStore_UpdateStatus_down tock_def)
qed

lemma ExecutionStore_UpdateStatus_cases:
  obtains (unsent) e where "ExecutionStore_UpdateStatus E c k s w = (Some e, w\<lparr>tick := tick w + 2\<rparr>)"
      "\<not> db_up E c (Suc (tick w))"
  | (sent) f where
      "ExecutionStore_UpdateStatus E c k s w = (ensureRowsAffected (hits Execution_ID k (executions w)) ''execution'' (rawExecutionID k),
         w\<lparr>tick := tick w + 2, executions := set_row Execution_ID k f (executions w),
           log := log w @ map (\<lambda>r. ExecStatus k (Execution_Status r) s) (filter (\<lambda>r. Execution_ID r = k) (executions w))\<rparr>)"
      "db_up E c (Suc (tick w))"
      "f = set_execution s (completedAtForStatus s (time_now E (tick w)))"
proof (cases "db_up E c (Suc (tick w))")
  case True
  then show ?thesis
    using sent by (simp add: ExecutionStore_UpdateStatus_up update_execution_def tock_def)
next
  case False
  then show ?thesis
    using unsent by (simp add: ExecutionStore_UpdateStatus_down tock_def)
qed

end
