(* ===== verification/Threads.thy ===== *)
theory Threads
  imports World "HOL-Library.Multiset"
begin

text \<open>
  Goroutines over step machines. A function that other goroutines may interleave with is a step
  machine: \<open>adv\<close> performs its next atomic action on the world (one call on a store or on the
  executor, each of which is one statement or one request), and \<open>res\<close> is its result once it
  has returned. Running it alone is the sequential call; \<open>par_loop\<close> runs one goroutine per
  machine, moved in an order the environment chooses, until the wait group is drained.
\<close>

type_synonym 'th adv = "'th \<Rightarrow> world \<Rightarrow> 'th \<times> world"
type_synonym 'th res = "'th \<Rightarrow> error option option"

section \<open>A call in the current goroutine\<close>

text \<open>\<open>None\<close> stands for a call that never returns.\<close>

partial_function (option) run_machine ::
    "'th adv \<Rightarrow> 'th res \<Rightarrow> 'th \<Rightarrow> world \<Rightarrow> (error option \<times> world) option" where
  "run_machine adv res t w =
    (case res t of
       Some r \<Rightarrow> Some (r, w)
     | None \<Rightarrow> (case adv t w of (t', w') \<Rightarrow> run_machine adv res t' w'))"

lemma run_machine_result: "res t = Some r \<Longrightarrow> run_machine adv res t w = Some (r, w)"
  by (simp add: run_machine.simps)

lemma run_machine_step:
  "res t = None \<Longrightarrow> run_machine adv res t w = run_machine adv res (fst (adv t w)) (snd (adv t w))"
  by (subst run_machine.simps) (simp add: case_prod_beta)

text \<open>
  What every step keeps, a completed call keeps: partial correctness of a call from an
  invariant of its steps.
\<close>

lemma run_machine_inv:
  assumes run: "run_machine adv res t w = Some (r, w')"
    and step: "\<And>t w. I t w \<Longrightarrow> res t = None \<Longrightarrow> I (fst (adv t w)) (snd (adv t w))"
    and init: "I t w"
  shows "\<exists>t'. I t' w' \<and> res t' = Some r"
proof -
  have "I t w \<longrightarrow> (\<exists>t'. I t' (snd (r, w')) \<and> res t' = Some (fst (r, w')))"
  proof (rule run_machine.raw_induct [where P = "\<lambda>adv' res' t w x. adv' = adv \<longrightarrow> res' = res \<longrightarrow>
        I t w \<longrightarrow> (\<exists>t'. I t' (snd x) \<and> res t' = Some (fst x))", OF _ run, THEN mp, THEN mp])
    fix f :: "'a adv \<Rightarrow> 'a res \<Rightarrow> 'a \<Rightarrow> world \<Rightarrow> (error option \<times> world) option"
    fix adv' res' t w x
    assume IH: "\<And>adv' res' t w x. f adv' res' t w = Some x \<Longrightarrow>
        adv' = adv \<longrightarrow> res' = res \<longrightarrow> I t w \<longrightarrow> (\<exists>t'. I t' (snd x) \<and> res t' = Some (fst x))"
      and eq: "(case res' t of Some r \<Rightarrow> Some (r, w)
        | None \<Rightarrow> (case adv' t w of (t', w') \<Rightarrow> f adv' res' t' w')) = Some x"
    show "adv' = adv \<longrightarrow> res' = res \<longrightarrow> I t w \<longrightarrow> (\<exists>t'. I t' (snd x) \<and> res t' = Some (fst x))"
    proof (intro impI)
      assume same: "adv' = adv" "res' = res" and I: "I t w"
      show "\<exists>t'. I t' (snd x) \<and> res t' = Some (fst x)"
      proof (cases "res t")
        case None
        with eq same have "f adv res (fst (adv t w)) (snd (adv t w)) = Some x"
          by (simp add: case_prod_beta)
        with IH [OF this] step [OF I None] show ?thesis by simp
      next
        case (Some r')
        with eq same I show ?thesis by auto
      qed
    qed
  qed simp_all
  with init show ?thesis by simp
qed

section \<open>Goroutines and the wait group\<close>

text \<open>
  A goroutine of \<open>runParallel\<close> calls the step function; when the call has returned it appends
  an error, if any, to the shared slice under the mutex and signals the wait group. The append
  is a step of its own: another goroutine may finish its last statement first and append later.
\<close>

datatype 'th goroutine = Live 'th | Exited "error option"

fun is_Live :: "'th goroutine \<Rightarrow> bool" where
  "is_Live (Live _) = True"
| "is_Live (Exited _) = False"

type_synonym 'th pool = "'th goroutine list \<times> error list \<times> world"

definition err_list :: "error option \<Rightarrow> error list" where
  "err_list r = (case r of None \<Rightarrow> [] | Some e \<Rightarrow> [e])"

definition live_ids :: "'th goroutine list \<Rightarrow> nat list" where
  "live_ids gs = filter (\<lambda>i. is_Live (gs ! i)) [0..<length gs]"

definition go_next :: "'th adv \<Rightarrow> 'th res \<Rightarrow> nat \<Rightarrow> 'th pool \<Rightarrow> 'th pool" where
  "go_next adv res i p = (case p of (gs, errs, w) \<Rightarrow>
    (case gs ! i of
       Exited _ \<Rightarrow> p
     | Live t \<Rightarrow>
        (case res t of
           None \<Rightarrow> (case adv t w of (t', w') \<Rightarrow> (gs[i := Live t'], errs, w'))
         | Some r \<Rightarrow> (gs[i := Exited r], errs @ err_list r, w))))"

partial_function (option) par_loop ::
    "'th adv \<Rightarrow> 'th res \<Rightarrow> (nat \<Rightarrow> nat \<Rightarrow> nat) \<Rightarrow> 'th pool \<Rightarrow> 'th pool option" where
  "par_loop adv res sch p =
    (case p of (gs, errs, w) \<Rightarrow>
      (let live = live_ids gs in
       if live = [] then Some p
       else par_loop adv res sch
              (go_next adv res (live ! (sch (tick w) (length live) mod length live)) p)))"

declare run_machine.simps [code] par_loop.simps [code]

text \<open>The same as a relation: any live goroutine may move.\<close>

inductive go_step :: "'th adv \<Rightarrow> 'th res \<Rightarrow> 'th pool \<Rightarrow> 'th pool \<Rightarrow> bool"
  for adv :: "'th adv" and res :: "'th res" where
  move: "i < length gs \<Longrightarrow> gs ! i = Live t \<Longrightarrow> res t = None \<Longrightarrow> adv t w = (t', w') \<Longrightarrow>
    go_step adv res (gs, errs, w) (gs[i := Live t'], errs, w')"
| exit: "i < length gs \<Longrightarrow> gs ! i = Live t \<Longrightarrow> res t = Some r \<Longrightarrow>
    go_step adv res (gs, errs, w) (gs[i := Exited r], errs @ err_list r, w)"

inductive_cases go_stepE: "go_step adv res (gs, errs, w) p"

lemma live_ids_iff: "i \<in> set (live_ids gs) \<longleftrightarrow> i < length gs \<and> is_Live (gs ! i)"
  by (auto simp: live_ids_def)

lemma live_ids_Nil: "live_ids gs = [] \<longleftrightarrow> (\<forall>g \<in> set gs. \<not> is_Live g)"
  by (auto simp: live_ids_def filter_empty_conv all_set_conv_all_nth)

lemma is_Live_obtain: "is_Live g \<Longrightarrow> \<exists>t. g = Live t"
  by (cases g) auto

lemma go_next_step:
  assumes "i \<in> set (live_ids gs)"
  shows "go_step adv res (gs, errs, w) (go_next adv res i (gs, errs, w))"
proof -
  from assms obtain t where i: "i < length gs" "gs ! i = Live t"
    by (auto simp: live_ids_iff dest: is_Live_obtain)
  show ?thesis
  proof (cases "res t")
    case None
    with i show ?thesis
      by (auto simp: go_next_def split: prod.splits intro: go_step.move)
  next
    case (Some r)
    with i show ?thesis by (auto simp: go_next_def intro: go_step.exit)
  qed
qed

text \<open>A wait that ends, ends in a pool reached by steps of the relation with no live goroutine.\<close>

lemma par_loop_sound:
  assumes run: "par_loop adv res sch p = Some p'"
  shows "(go_step adv res)\<^sup>*\<^sup>* p p' \<and> live_ids (fst p') = []"
proof (rule par_loop.raw_induct [where P = "\<lambda>adv' res' sch' p p'. adv' = adv \<longrightarrow> res' = res \<longrightarrow>
      (go_step adv res)\<^sup>*\<^sup>* p p' \<and> live_ids (fst p') = []", OF _ run, THEN mp, THEN mp])
  fix f :: "'a adv \<Rightarrow> 'a res \<Rightarrow> (nat \<Rightarrow> nat \<Rightarrow> nat) \<Rightarrow> 'a pool \<Rightarrow> 'a pool option"
  fix adv' res' sch' p p'
  assume IH: "\<And>adv' res' sch' p p'. f adv' res' sch' p = Some p' \<Longrightarrow> adv' = adv \<longrightarrow> res' = res \<longrightarrow>
      (go_step adv res)\<^sup>*\<^sup>* p p' \<and> live_ids (fst p') = []"
    and eq: "(case p of (gs, errs, w) \<Rightarrow> (let live = live_ids gs in
       if live = [] then Some p
       else f adv' res' sch' (go_next adv' res' (live ! (sch' (tick w) (length live) mod length live)) p))) = Some p'"
  show "adv' = adv \<longrightarrow> res' = res \<longrightarrow> (go_step adv res)\<^sup>*\<^sup>* p p' \<and> live_ids (fst p') = []"
  proof (intro impI)
    assume same: "adv' = adv" "res' = res"
    obtain gs errs w where p: "p = (gs, errs, w)" by (cases p) auto
    show "(go_step adv res)\<^sup>*\<^sup>* p p' \<and> live_ids (fst p') = []"
    proof (cases "live_ids gs = []")
      case True
      with eq p show ?thesis by auto
    next
      case False
      define i where "i = live_ids gs ! (sch' (tick w) (length (live_ids gs)) mod length (live_ids gs))"
      from False have "i \<in> set (live_ids gs)" by (simp add: i_def)
      then have step: "go_step adv res p (go_next adv res i p)"
        unfolding p by (rule go_next_step)
      from eq False have "f adv res sch' (go_next adv res i p) = Some p'"
        by (simp add: p same i_def Let_def)
      with IH same have "(go_step adv res)\<^sup>*\<^sup>* (go_next adv res i p) p' \<and> live_ids (fst p') = []"
        by blast
      with step show ?thesis by (auto intro: converse_rtranclp_into_rtranclp)
    qed
  qed
qed simp_all

lemma go_steps_inv:
  assumes "(go_step adv res)\<^sup>*\<^sup>* p p'" and "I p"
    and "\<And>p p'. go_step adv res p p' \<Longrightarrow> I p \<Longrightarrow> I p'"
  shows "I p'"
  using assms(1,2) by (induction rule: rtranclp_induct) (auto intro: assms(3))

text \<open>The slice of errors holds exactly the errors of the goroutines that have exited.\<close>

definition errs_of :: "'th goroutine list \<Rightarrow> error set" where
  "errs_of gs = {e. Exited (Some e) \<in> set gs}"

definition pool_errs_ok :: "nat \<Rightarrow> 'th pool \<Rightarrow> bool" where
  "pool_errs_ok n p \<longleftrightarrow> set (fst (snd p)) = errs_of (fst p) \<and> length (fst p) = n"

lemma set_list_update_Live:
  "i < length gs \<Longrightarrow> gs ! i = Live t \<Longrightarrow> Exited r \<in> set (gs[i := Live t']) \<longleftrightarrow> Exited r \<in> set gs"
  by (auto simp: in_set_conv_nth nth_list_update split: if_splits)
    (metis goroutine.distinct(1))+

lemma set_list_update_Exited:
  "i < length gs \<Longrightarrow> gs ! i = Live t \<Longrightarrow>
     Exited r' \<in> set (gs[i := Exited r]) \<longleftrightarrow> r' = r \<or> Exited r' \<in> set gs"
  by (auto simp: in_set_conv_nth nth_list_update split: if_splits)
    (metis goroutine.distinct(1))+

lemma go_step_errs: "go_step adv res p p' \<Longrightarrow> pool_errs_ok n p \<Longrightarrow> pool_errs_ok n p'"
  by (induction rule: go_step.induct)
    (auto simp: pool_errs_ok_def errs_of_def set_list_update_Live set_list_update_Exited
      err_list_def split: option.splits)

lemma par_loop_errs:
  assumes "par_loop adv res sch (map Live ts, [], w) = Some (gs', errs', w')"
  shows "set errs' = errs_of gs' \<and> length gs' = length ts \<and> (\<forall>g \<in> set gs'. \<exists>r. g = Exited r)"
proof -
  from assms have run: "(go_step adv res)\<^sup>*\<^sup>* (map Live ts, [], w) (gs', errs', w')"
    and fin: "live_ids gs' = []"
    by (auto dest: par_loop_sound)
  have "pool_errs_ok (length ts) (map Live ts, [], w)"
    by (auto simp: pool_errs_ok_def errs_of_def)
  with run have "pool_errs_ok (length ts) (gs', errs', w')"
    by (rule go_steps_inv) (rule go_step_errs)
  moreover from fin have "\<forall>g \<in> set gs'. \<exists>r. g = Exited r"
    by (auto simp: live_ids_Nil) (metis goroutine.exhaust is_Live.simps(1))
  ultimately show ?thesis by (auto simp: pool_errs_ok_def)
qed

section \<open>Machines that return\<close>

text \<open>
  The contract of a machine whose calls return: every action takes time, and once the outside has
  settled (its answers from tick \<open>N\<close> on let a pending wait end) every action lowers \<open>rank\<close>.
  Under it a call returns and a wait group drains, whatever the scheduler does.
\<close>

locale settling_machine =
  fixes adv :: "'th adv"
    and res :: "'th res"
    and rank :: "'th \<Rightarrow> nat"
    and settled :: "nat \<Rightarrow> bool"
  assumes tick_adv: "res t = None \<Longrightarrow> tick w < tick (snd (adv t w))"
    and rank_adv: "res t = None \<Longrightarrow> settled N \<Longrightarrow> N \<le> tick w \<Longrightarrow> rank (fst (adv t w)) < rank t"
begin

lemma call_returns:
  assumes "settled N"
  shows "\<exists>r w'. run_machine adv res t w = Some (r, w')"
proof -
  have "\<exists>r w'. run_machine adv res (fst tw) (snd tw) = Some (r, w')" for tw
  proof (induction tw rule: wf_induct_rule
      [OF wf_measures [of "[\<lambda>(t, w). N - tick w, \<lambda>(t, w). rank t]"]])
    case (1 tw)
    obtain t w where tw: "tw = (t, w)" by (cases tw)
    show ?case
    proof (cases "res t")
      case None
      have "(adv t w, tw) \<in> measures [\<lambda>(t, w). N - tick w, \<lambda>(t, w). rank t]"
        using tick_adv [OF None, of w] rank_adv [OF None assms, of w]
        by (auto simp: tw case_prod_beta)
      with 1 have "\<exists>r w'. run_machine adv res (fst (adv t w)) (snd (adv t w)) = Some (r, w')"
        by simp
      with None show ?thesis by (simp add: tw run_machine_step)
    next
      case (Some r)
      then show ?thesis by (simp add: tw run_machine_result)
    qed
  qed
  from this [of "(t, w)"] show ?thesis by simp
qed

definition go_rank :: "'th goroutine \<Rightarrow> nat" where
  "go_rank g = (case g of Live t \<Rightarrow> Suc (rank t) | Exited _ \<Rightarrow> 0)"

definition pool_rank :: "'th pool \<Rightarrow> nat" where
  "pool_rank p = sum_list (map go_rank (fst p))"

lemma pool_rank_update:
  assumes "i < length gs" and "go_rank g < go_rank (gs ! i)"
  shows "pool_rank (gs[i := g], errs, w) < pool_rank (gs, errs', w')"
proof -
  have "go_rank (gs ! i) \<le> sum_list (map go_rank gs)"
    using assms(1) by (intro member_le_sum_list) simp_all
  with assms show ?thesis
    by (simp add: pool_rank_def map_update sum_list_update)
qed

lemma go_step_decreases:
  assumes "go_step adv res p p'" and "settled N"
  shows "(p', p) \<in> measures [\<lambda>(gs, errs, w). N - tick w, pool_rank]"
  using assms(1)
proof cases
  case (move i gs t w t' w' errs)
  then have "tick w < tick w'" using tick_adv [of t w] by simp
  moreover have "pool_rank (gs[i := Live t'], errs, w') < pool_rank (gs, errs, w)" if "N \<le> tick w"
    using move rank_adv [of t N w] assms(2) that
    by (intro pool_rank_update) (simp_all add: go_rank_def)
  ultimately show ?thesis using move by auto
next
  case (exit i gs t r errs w)
  then have "pool_rank (gs[i := Exited r], errs @ err_list r, w) < pool_rank (gs, errs, w)"
    by (intro pool_rank_update) (simp_all add: go_rank_def)
  with exit show ?thesis by auto
qed

lemma wait_returns:
  assumes "settled N"
  shows "\<exists>p'. par_loop adv res sch p = Some p'"
proof (induction p rule: wf_induct_rule
    [OF wf_measures [of "[\<lambda>(gs, errs, w). N - tick w, pool_rank]"]])
  case (1 p)
  obtain gs errs w where p: "p = (gs, errs, w)" by (cases p) auto
  show ?case
  proof (cases "live_ids gs = []")
    case True
    then show ?thesis by (simp add: p par_loop.simps)
  next
    case False
    define i where "i = live_ids gs ! (sch (tick w) (length (live_ids gs)) mod length (live_ids gs))"
    from False have "i \<in> set (live_ids gs)" by (simp add: i_def)
    then have "go_step adv res p (go_next adv res i p)"
      unfolding p by (rule go_next_step)
    then have "\<exists>p'. par_loop adv res sch (go_next adv res i p) = Some p'"
      using 1 go_step_decreases assms by blast
    with False show ?thesis
      by (subst par_loop.simps) (simp add: p i_def Let_def)
  qed
qed

end

section \<open>Machines that produce something once\<close>

text \<open>
  The contract of a machine that adds at most one item to an output: a thread is \<open>pend\<close>ing
  until it does, and a thread that \<open>must\<close> have done it includes every one that returned without
  an error. Under it, a batch of goroutines outputs each item at most once, and exactly once when
  no error was collected, in whatever order the scheduler makes them.
\<close>

locale emitting_machine =
  fixes adv :: "'th adv"
    and res :: "'th res"
    and emits :: "world \<Rightarrow> 'b list"
    and item :: "'th \<Rightarrow> 'b"
    and pend :: "'th \<Rightarrow> bool"
    and must :: "'th \<Rightarrow> bool"
  assumes item_adv: "res t = None \<Longrightarrow> item (fst (adv t w)) = item t"
    and emit_adv: "res t = None \<Longrightarrow>
      emits (snd (adv t w)) = emits w \<and> (pend (fst (adv t w)) \<longrightarrow> pend t) \<and>
        (must (fst (adv t w)) \<longrightarrow> must t) \<or>
      emits (snd (adv t w)) = emits w @ [item t] \<and> pend t \<and> \<not> pend (fst (adv t w))"
    and must_res: "res t = Some None \<Longrightarrow> must t"
begin

text \<open>What is known of goroutine \<open>i\<close> when \<open>C\<close> are those that have contributed.\<close>

definition go_emit :: "'th list \<Rightarrow> nat set \<Rightarrow> nat \<Rightarrow> 'th goroutine \<Rightarrow> bool" where
  "go_emit ts C i g \<longleftrightarrow> (case g of
     Live t \<Rightarrow> item t = item (ts ! i) \<and> (pend t \<longrightarrow> i \<notin> C) \<and> (must t \<longrightarrow> i \<in> C)
   | Exited r \<Rightarrow> r = None \<longrightarrow> i \<in> C)"

definition emit_inv :: "'th list \<Rightarrow> world \<Rightarrow> 'th pool \<Rightarrow> bool" where
  "emit_inv ts w0 p \<longleftrightarrow> (case p of (gs, errs, w) \<Rightarrow> length gs = length ts \<and>
     (\<exists>C new. C \<subseteq> {..<length ts} \<and> emits w = emits w0 @ new \<and>
        mset new = image_mset (\<lambda>i. item (ts ! i)) (mset_set C) \<and>
        (\<forall>i<length ts. go_emit ts C i (gs ! i))))"

lemma go_emit_other: "i \<noteq> j \<Longrightarrow> go_emit ts (insert i C) j g = go_emit ts C j g"
  by (cases g) (auto simp: go_emit_def)

lemma emit_invI:
  "length gs = length ts \<Longrightarrow> C \<subseteq> {..<length ts} \<Longrightarrow> emits w = emits w0 @ new \<Longrightarrow>
     mset new = image_mset (\<lambda>i. item (ts ! i)) (mset_set C) \<Longrightarrow>
     \<forall>i<length ts. go_emit ts C i (gs ! i) \<Longrightarrow> emit_inv ts w0 (gs, errs, w)"
  unfolding emit_inv_def by blast

lemma emit_inv_step:
  assumes "go_step adv res p p'" and "emit_inv ts w0 p"
  shows "emit_inv ts w0 p'"
  using assms(1)
proof cases
  case (move i gs t w t' w' errs)
  from assms(2) move(1) obtain C new where len: "length gs = length ts" and C: "C \<subseteq> {..<length ts}"
    and new: "emits w = emits w0 @ new" "mset new = image_mset (\<lambda>i. item (ts ! i)) (mset_set C)"
    and gs: "\<forall>i<length ts. go_emit ts C i (gs ! i)"
    by (auto simp: emit_inv_def)
  have i: "i < length ts" "go_emit ts C i (Live t)" using move len gs by auto
  have t': "t' = fst (adv t w)" "w' = snd (adv t w)" using move(6) by simp_all
  have item: "item t' = item t" "item t = item (ts ! i)"
    using item_adv [OF move(5), of w] i(2) by (simp_all add: t' go_emit_def)
  from emit_adv [OF move(5), of w] show ?thesis
  proof
    assume same: "emits (snd (adv t w)) = emits w \<and> (pend (fst (adv t w)) \<longrightarrow> pend t) \<and>
        (must (fst (adv t w)) \<longrightarrow> must t)"
    with i(2) item have "go_emit ts C i (Live t')" by (auto simp: go_emit_def t')
    with gs have "\<forall>j<length ts. go_emit ts C j (gs[i := Live t'] ! j)"
      by (metis len nth_list_update_eq nth_list_update_neq)
    with same C new len show ?thesis unfolding move(2) emit_inv_def t' by auto
  next
    assume emit: "emits (snd (adv t w)) = emits w @ [item t] \<and> pend t \<and> \<not> pend (fst (adv t w))"
    with i(2) have "i \<notin> C" by (simp add: go_emit_def)
    moreover have "finite C" using C finite_subset by blast
    ultimately have "mset (new @ [item t]) = image_mset (\<lambda>i. item (ts ! i)) (mset_set (insert i C))"
      by (simp add: new item)
    moreover have "go_emit ts (insert i C) i (Live t')"
      using emit item by (simp add: go_emit_def t')
    then have "\<forall>j<length ts. go_emit ts (insert i C) j (gs[i := Live t'] ! j)"
      using gs go_emit_other [of i _ ts C] len by (metis nth_list_update_eq nth_list_update_neq)
    moreover have "insert i C \<subseteq> {..<length ts}" using C i by simp
    moreover have "emits w' = emits w0 @ (new @ [item t])" using emit new by (simp add: t')
    ultimately show ?thesis unfolding move(2) using len
      by (intro emit_invI [where C = "insert i C" and new = "new @ [item t]"]) simp_all
  qed
next
  case (exit i gs t r errs w)
  from assms(2) exit(1) obtain C new where len: "length gs = length ts" and C: "C \<subseteq> {..<length ts}"
    and new: "emits w = emits w0 @ new" "mset new = image_mset (\<lambda>i. item (ts ! i)) (mset_set C)"
    and gs: "\<forall>i<length ts. go_emit ts C i (gs ! i)"
    by (auto simp: emit_inv_def)
  have "go_emit ts C i (Live t)" using exit len gs by auto
  then have "go_emit ts C i (Exited r)" using exit(5) must_res [of t] by (auto simp: go_emit_def)
  with gs have "\<forall>j<length ts. go_emit ts C j (gs[i := Exited r] ! j)"
    by (metis len nth_list_update_eq nth_list_update_neq)
  with C new len show ?thesis unfolding exit(2) emit_inv_def by auto
qed

lemma mset_map_nth: "mset (map f xs) = image_mset (\<lambda>i. f (xs ! i)) (mset_set {..<length xs})"
proof -
  have "mset (map f xs) = mset (map (\<lambda>i. f (xs ! i)) [0..<length xs])"
    by (rule arg_cong [of _ _ mset], rule nth_equalityI) simp_all
  also have "\<dots> = image_mset (\<lambda>i. f (xs ! i)) (mset_set {..<length xs})"
    by (simp only: mset_map mset_set_upto_eq_mset_upto)
  finally show ?thesis .
qed

lemma batch_emits:
  assumes run: "par_loop adv res sch (map Live ts, [], w) = Some (gs', errs', w')"
    and pend: "\<forall>t\<in>set ts. pend t \<and> \<not> must t"
  shows "\<exists>new. emits w' = emits w @ new \<and> mset new \<subseteq># mset (map item ts) \<and>
    (errs' = [] \<longrightarrow> mset new = mset (map item ts))"
proof -
  have "emit_inv ts w (map Live ts, [], w)"
    using pend by (auto simp: emit_inv_def go_emit_def intro!: exI [of _ "{}"])
  with par_loop_sound [OF run] have "emit_inv ts w (gs', errs', w')"
    by (blast intro: go_steps_inv emit_inv_step)
  then obtain C new where len: "length gs' = length ts" and C: "C \<subseteq> {..<length ts}"
    and new: "emits w' = emits w @ new" "mset new = image_mset (\<lambda>i. item (ts ! i)) (mset_set C)"
    and gs: "\<forall>i<length ts. go_emit ts C i (gs' ! i)"
    by (auto simp: emit_inv_def)
  have "mset new \<subseteq># mset (map item ts)"
    unfolding new mset_map_nth
    by (intro image_mset_subseteq_mono subset_imp_msubset_mset_set C) simp
  moreover have "C = {..<length ts}" if "errs' = []"
  proof -
    have "i \<in> C" if i: "i < length ts" for i
    proof -
      have "gs' ! i \<in> set gs'" using i len by simp
      then obtain r where r: "gs' ! i = Exited r" using par_loop_errs [OF run] by blast
      then have "r = None"
        using par_loop_errs [OF run] \<open>errs' = []\<close> \<open>gs' ! i \<in> set gs'\<close> by (cases r) (auto simp: errs_of_def)
      with r gs i show "i \<in> C" by (auto simp: go_emit_def)
    qed
    with C show ?thesis by auto
  qed
  then have "errs' = [] \<longrightarrow> mset new = mset (map item ts)" unfolding new mset_map_nth by simp
  ultimately show ?thesis using new(1) by blast
qed

end

end
