(* ===== verification/Steps.thy ===== *)
theory Steps
  imports PgRuns Threads
begin

text \<open>
  The lifecycle of one job step (\<open>runStep\<close>, \<open>executeAndPoll\<close> and \<open>poll\<close> of
  \<open>internal/orchestrator/orchestrator.go\<close>), twice: in direct style, as the code is written, and
  as a step machine whose actions are the calls on the stores and the executor, so that several
  steps can be interleaved. \<open>run_machine_eq_runStep\<close> shows that the two agree.
\<close>

section \<open>Calls on the executor\<close>

definition exec_Submit :: "env \<Rightarrow> ExecutionSpec \<Rightarrow> world \<Rightarrow> (error + ExecutionHandle) \<times> world" where
  "exec_Submit E spec w =
    (case ex_submit E (tick w) spec of
       Inl e \<Rightarrow> (Inl e, tock w)
     | Inr h \<Rightarrow> (Inr h, (tock w)\<lparr>log := log w @ [Submitted spec h]\<rparr>))"

definition exec_Status :: "env \<Rightarrow> ExecutionHandle \<Rightarrow> world \<Rightarrow> (error + ExecutionStatus) \<times> world" where
  "exec_Status E h w = (ex_status E (tick w) h, tock w)"

definition exec_Cancel :: "env \<Rightarrow> ExecutionHandle \<Rightarrow> world \<Rightarrow> error option \<times> world" where
  "exec_Cancel E h w = (ex_cancel E (tick w) h, (tock w)\<lparr>log := log w @ [CancelCall h]\<rparr>)"

section \<open>Direct style\<close>

text \<open>The zero \<open>time.Time\<close>: the first of January of the year 1, in microseconds.\<close>

definition zero_time :: time where "zero_time = - 62135596800000000"

text \<open>
  One round of \<open>select\<close>: the context's case is taken when it is done, unless the ticker is ready
  too and wins. A round whose status call fails, or whose phase is not terminal, waits again;
  the loop may run for ever, so the result is an option.
\<close>

partial_function (option) poll ::
    "env \<Rightarrow> ExecutionID \<Rightarrow> ExecutionHandle \<Rightarrow> world \<Rightarrow> (error option \<times> world) option" where
  "poll E execID h w =
    (if ctx_done E (tick w) \<and> \<not> pick_ticker E (tick w)
     then (case exec_Cancel E h (tock w) of (_, w1) \<Rightarrow> Some (Some (ctx_error E), w1))
     else (case exec_Status E h (tock w) of
       (Inl e, w1) \<Rightarrow> poll E execID h w1
     | (Inr status, w1) \<Rightarrow>
        (case ExecutionStore_UpdateStatus E Ctx execID (Status_Phase status) w1 of (_, w2) \<Rightarrow>
          if \<not> ExecutionStatus_IsTerminal status then poll E execID h w2
          else if Status_Phase status \<noteq> ExecutionPhaseSucceeded
          then Some (Some (Errorf ''execution %s: phase=%s''
                 [AStr (Handle_ID h), AStr (Status_Phase status)]), w2)
          else Some (None, w2))))"

declare poll.simps [code]

definition new_execution :: "JobStepID \<Rightarrow> ExecutionHandle \<Rightarrow> Execution" where
  "new_execution stepID h = \<lparr>Execution_ID = ExecutionID 0, Execution_JobStepID = stepID,
     Execution_ExecutorType = ''kubernetes'', Execution_ExternalID = Handle_ID h,
     Execution_Status = ExecutionPhasePending, Execution_SubmittedAt = zero_time,
     Execution_CompletedAt = None\<rparr>"

definition executeAndPoll ::
    "env \<Rightarrow> JobStepID \<Rightarrow> ExecutionSpec \<Rightarrow> world \<Rightarrow> (error option \<times> world) option" where
  "executeAndPoll E stepID spec w =
    (case exec_Submit E spec w of
       (Inl e, w1) \<Rightarrow> Some (Some (Wrapf ''submit step: %w'' [] e), w1)
     | (Inr h, w1) \<Rightarrow>
        (case ExecutionStore_Create E Ctx (new_execution stepID h) w1 of
           (Some e, _, w2) \<Rightarrow> Some (Some (Wrapf ''record execution: %w'' [] e), w2)
         | (None, exec, w2) \<Rightarrow> poll E (Execution_ID exec) h w2))"

definition new_step :: "JobID \<Rightarrow> string \<Rightarrow> int \<Rightarrow> string option \<Rightarrow> JobStep" where
  "new_step jobID name order parallelGroup = \<lparr>JobStep_ID = JobStepID 0, JobStep_JobID = jobID,
     JobStep_Name = name, JobStep_ExecutionOrder = Some order,
     JobStep_ParallelGroup = parallelGroup, JobStep_Status = '''', JobStep_CreatedAt = zero_time,
     JobStep_StartedAt = None, JobStep_FinishedAt = None\<rparr>"

definition final_state :: "error option \<Rightarrow> StageState" where
  "final_state err = (if err \<noteq> None then StageStateFailed else StageStateSucceeded)"

definition runStep :: "env \<Rightarrow> JobID \<Rightarrow> string \<Rightarrow> int \<Rightarrow> string option \<Rightarrow> ExecutionSpec \<Rightarrow> world \<Rightarrow>
    (error option \<times> world) option" where
  "runStep E jobID name order parallelGroup spec w =
    (case JobStepStore_Create E Ctx (new_step jobID name order parallelGroup) w of
       (Some e, _, w1) \<Rightarrow> Some (Some (Wrapf ''create step %q: %w'' [AStr name] e), w1)
     | (None, step, w1) \<Rightarrow>
        (case JobStepStore_UpdateStatus E Ctx (JobStep_ID step) StageStateRunning w1 of
           (Some e, w2) \<Rightarrow> Some (Some (Wrapf ''start step %q: %w'' [AStr name] e), w2)
         | (None, w2) \<Rightarrow>
            (case executeAndPoll E (JobStep_ID step) spec w2 of
               None \<Rightarrow> None
             | Some (stepErr, w3) \<Rightarrow>
                (case JobStepStore_UpdateStatus E WithoutCancel (JobStep_ID step)
                        (final_state stepErr) w3 of
                   (_, w4) \<Rightarrow> Some (stepErr, w4)))))"

section \<open>Step machine\<close>

datatype pc =
    AtCreate
  | AtStart JobStepID
  | AtSubmit JobStepID
  | AtRecord JobStepID ExecutionHandle
  | AtSelect JobStepID ExecutionID ExecutionHandle
  | AtCancel JobStepID ExecutionHandle
  | AtStatus JobStepID ExecutionID ExecutionHandle
  | AtUpdate JobStepID ExecutionID ExecutionHandle ExecutionStatus
  | AtFinal JobStepID "error option"
  | Returned "error option"

record step_thread =
  th_job :: JobID
  th_name :: string
  th_order :: int
  th_group :: "string option"
  th_spec :: ExecutionSpec
  th_pc :: pc

definition spawn :: "JobID \<Rightarrow> string \<Rightarrow> int \<Rightarrow> string option \<Rightarrow> ExecutionSpec \<Rightarrow> step_thread" where
  "spawn jobID name order grp spec = \<lparr>th_job = jobID, th_name = name, th_order = order,
     th_group = grp, th_spec = spec, th_pc = AtCreate\<rparr>"

definition step_res :: "step_thread res" where
  "step_res t = (case th_pc t of Returned r \<Rightarrow> Some r | _ \<Rightarrow> None)"

definition pc_adv :: "env \<Rightarrow> step_thread \<Rightarrow> world \<Rightarrow> pc \<times> world" where
  "pc_adv E t w = (case th_pc t of
     AtCreate \<Rightarrow>
       (case JobStepStore_Create E Ctx (new_step (th_job t) (th_name t) (th_order t) (th_group t)) w of
          (Some e, _, w1) \<Rightarrow>
            (Returned (Some (Wrapf ''create step %q: %w'' [AStr (th_name t)] e)), w1)
        | (None, step, w1) \<Rightarrow> (AtStart (JobStep_ID step), w1))
   | AtStart sid \<Rightarrow>
       (case JobStepStore_UpdateStatus E Ctx sid StageStateRunning w of
          (Some e, w1) \<Rightarrow>
            (Returned (Some (Wrapf ''start step %q: %w'' [AStr (th_name t)] e)), w1)
        | (None, w1) \<Rightarrow> (AtSubmit sid, w1))
   | AtSubmit sid \<Rightarrow>
       (case exec_Submit E (th_spec t) w of
          (Inl e, w1) \<Rightarrow> (AtFinal sid (Some (Wrapf ''submit step: %w'' [] e)), w1)
        | (Inr h, w1) \<Rightarrow> (AtRecord sid h, w1))
   | AtRecord sid h \<Rightarrow>
       (case ExecutionStore_Create E Ctx (new_execution sid h) w of
          (Some e, _, w1) \<Rightarrow> (AtFinal sid (Some (Wrapf ''record execution: %w'' [] e)), w1)
        | (None, exec, w1) \<Rightarrow> (AtSelect sid (Execution_ID exec) h, w1))
   | AtSelect sid eid h \<Rightarrow>
       (if ctx_done E (tick w) \<and> \<not> pick_ticker E (tick w) then (AtCancel sid h, tock w)
        else (AtStatus sid eid h, tock w))
   | AtCancel sid h \<Rightarrow>
       (case exec_Cancel E h w of (_, w1) \<Rightarrow> (AtFinal sid (Some (ctx_error E)), w1))
   | AtStatus sid eid h \<Rightarrow>
       (case exec_Status E h w of
          (Inl e, w1) \<Rightarrow> (AtSelect sid eid h, w1)
        | (Inr st, w1) \<Rightarrow> (AtUpdate sid eid h st, w1))
   | AtUpdate sid eid h st \<Rightarrow>
       (case ExecutionStore_UpdateStatus E Ctx eid (Status_Phase st) w of (_, w1) \<Rightarrow>
          (if \<not> ExecutionStatus_IsTerminal st then AtSelect sid eid h
           else if Status_Phase st \<noteq> ExecutionPhaseSucceeded
           then AtFinal sid (Some (Errorf ''execution %s: phase=%s''
                  [AStr (Handle_ID h), AStr (Status_Phase st)]))
           else AtFinal sid None, w1))
   | AtFinal sid r \<Rightarrow>
       (case JobStepStore_UpdateStatus E WithoutCancel sid (final_state r) w of
          (_, w1) \<Rightarrow> (Returned r, w1))
   | Returned r \<Rightarrow> (Returned r, w))"

definition step_adv :: "env \<Rightarrow> step_thread adv" where
  "step_adv E t w = (case pc_adv E t w of (p, w1) \<Rightarrow> (t\<lparr>th_pc := p\<rparr>, w1))"

section \<open>The machine is the function\<close>

text \<open>What is left of the call at each point of the machine, in direct style.\<close>

definition finish :: "env \<Rightarrow> JobStepID \<Rightarrow> (error option \<times> world) option \<Rightarrow>
    (error option \<times> world) option" where
  "finish E sid m = (case m of
     None \<Rightarrow> None
   | Some (r, w) \<Rightarrow>
       (case JobStepStore_UpdateStatus E WithoutCancel sid (final_state r) w of
          (_, w1) \<Rightarrow> Some (r, w1)))"

definition recorded :: "env \<Rightarrow> JobStepID \<Rightarrow> ExecutionHandle \<Rightarrow> world \<Rightarrow>
    (error option \<times> world) option" where
  "recorded E sid h w =
    (case ExecutionStore_Create E Ctx (new_execution sid h) w of
       (Some e, _, w2) \<Rightarrow> Some (Some (Wrapf ''record execution: %w'' [] e), w2)
     | (None, exec, w2) \<Rightarrow> poll E (Execution_ID exec) h w2)"

definition polled :: "env \<Rightarrow> ExecutionID \<Rightarrow> ExecutionHandle \<Rightarrow> ExecutionStatus \<Rightarrow> world \<Rightarrow>
    (error option \<times> world) option" where
  "polled E eid h st w =
    (case ExecutionStore_UpdateStatus E Ctx eid (Status_Phase st) w of (_, w2) \<Rightarrow>
       if \<not> ExecutionStatus_IsTerminal st then poll E eid h w2
       else if Status_Phase st \<noteq> ExecutionPhaseSucceeded
       then Some (Some (Errorf ''execution %s: phase=%s''
              [AStr (Handle_ID h), AStr (Status_Phase st)]), w2)
       else Some (None, w2))"

definition resume :: "env \<Rightarrow> step_thread \<Rightarrow> world \<Rightarrow> (error option \<times> world) option" where
  "resume E t w = (case th_pc t of
     AtCreate \<Rightarrow> runStep E (th_job t) (th_name t) (th_order t) (th_group t) (th_spec t) w
   | AtStart sid \<Rightarrow>
       (case JobStepStore_UpdateStatus E Ctx sid StageStateRunning w of
          (Some e, w1) \<Rightarrow> Some (Some (Wrapf ''start step %q: %w'' [AStr (th_name t)] e), w1)
        | (None, w1) \<Rightarrow> finish E sid (executeAndPoll E sid (th_spec t) w1))
   | AtSubmit sid \<Rightarrow> finish E sid (executeAndPoll E sid (th_spec t) w)
   | AtRecord sid h \<Rightarrow> finish E sid (recorded E sid h w)
   | AtSelect sid eid h \<Rightarrow> finish E sid (poll E eid h w)
   | AtCancel sid h \<Rightarrow> finish E sid (Some (Some (ctx_error E), snd (exec_Cancel E h w)))
   | AtStatus sid eid h \<Rightarrow> finish E sid
       (case exec_Status E h w of
          (Inl e, w1) \<Rightarrow> poll E eid h w1
        | (Inr st, w1) \<Rightarrow> polled E eid h st w1)
   | AtUpdate sid eid h st \<Rightarrow> finish E sid (polled E eid h st w)
   | AtFinal sid r \<Rightarrow> finish E sid (Some (r, w))
   | Returned r \<Rightarrow> Some (r, w))"

lemma poll_eq:
  "poll E eid h w =
     (if ctx_done E (tick w) \<and> \<not> pick_ticker E (tick w)
      then Some (Some (ctx_error E), snd (exec_Cancel E h (tock w)))
      else (case exec_Status E h (tock w) of
        (Inl e, w1) \<Rightarrow> poll E eid h w1
      | (Inr st, w1) \<Rightarrow> polled E eid h st w1))"
  unfolding polled_def by (subst poll.simps) (simp add: case_prod_beta)

lemma resume_adv:
  "resume E t w = resume E (fst (step_adv E t w)) (snd (step_adv E t w))"
proof (cases "th_pc t")
  case (AtSelect sid eid h)
  then show ?thesis
    by (simp add: resume_def step_adv_def pc_adv_def poll_eq [of E eid h w] case_prod_beta)
next
  case (AtUpdate sid eid h st)
  then show ?thesis
    by (simp add: resume_def step_adv_def pc_adv_def polled_def finish_def case_prod_beta)
qed (auto simp: resume_def step_adv_def pc_adv_def runStep_def executeAndPoll_def recorded_def
    finish_def case_prod_beta split: prod.splits option.splits sum.splits)

lemma resume_result: "step_res t = Some r \<Longrightarrow> resume E t w = Some (r, w)"
  by (auto simp: step_res_def resume_def split: pc.splits)

text \<open>Whatever the machine returns, the function returns.\<close>

lemma run_machine_resume:
  assumes "run_machine (step_adv E) step_res t w = Some (r, w')"
  shows "resume E t w = Some (r, w')"
proof -
  have "\<exists>t'. resume E t' w' = resume E t w \<and> step_res t' = Some r"
    using assms
    by (rule run_machine_inv [where I = "\<lambda>t' w'. resume E t' w' = resume E t w"])
      (simp_all add: resume_adv [symmetric])
  then show ?thesis by (auto simp: resume_result)
qed

text \<open>
  Conversely, whatever \<open>poll\<close> returns, the machine reaches: a completed wait of the function
  is a finite run of the machine from its select point to its last statement.
\<close>

lemma machine_next:
  "step_res t = None \<Longrightarrow> pc_adv E t w = (p, w1) \<Longrightarrow>
     run_machine (step_adv E) step_res t w = run_machine (step_adv E) step_res (t\<lparr>th_pc := p\<rparr>) w1"
  by (simp add: run_machine_step step_adv_def)

lemma machine_at:
  assumes "pc_adv E (t\<lparr>th_pc := p\<rparr>) w = (p1, w1)" and "step_res (t\<lparr>th_pc := p\<rparr>) = None"
  shows "run_machine (step_adv E) step_res (t\<lparr>th_pc := p\<rparr>) w =
    run_machine (step_adv E) step_res (t\<lparr>th_pc := p1\<rparr>) w1"
  using machine_next [OF assms(2,1)] by simp

lemma poll_run_machine:
  assumes "poll E eid h w = Some x"
  shows "\<forall>t sid. run_machine (step_adv E) step_res (t\<lparr>th_pc := AtSelect sid eid h\<rparr>) w =
    run_machine (step_adv E) step_res (t\<lparr>th_pc := AtFinal sid (fst x)\<rparr>) (snd x)"
    (is "?P E eid h w x")
proof (rule poll.raw_induct [where P = ?P, OF _ assms], intro allI)
  fix f E eid h w x sid and t :: step_thread
  let ?R = "run_machine (step_adv E) step_res"
  assume IH: "\<And>E eid h w x. f E eid h w = Some x \<Longrightarrow> ?P E eid h w x"
    and eq: "(if ctx_done E (tick w) \<and> \<not> pick_ticker E (tick w)
     then (case exec_Cancel E h (tock w) of (_, w1) \<Rightarrow> Some (Some (ctx_error E), w1))
     else (case exec_Status E h (tock w) of
       (Inl e, w1) \<Rightarrow> f E eid h w1
     | (Inr status, w1) \<Rightarrow>
        (case ExecutionStore_UpdateStatus E Ctx eid (Status_Phase status) w1 of (_, w2) \<Rightarrow>
          if \<not> ExecutionStatus_IsTerminal status then f E eid h w2
          else if Status_Phase status \<noteq> ExecutionPhaseSucceeded
          then Some (Some (Errorf ''execution %s: phase=%s''
                 [AStr (Handle_ID h), AStr (Status_Phase status)]), w2)
          else Some (None, w2)))) = Some x"
  note at = machine_at [where E = E and t = t]
  show "?R (t\<lparr>th_pc := AtSelect sid eid h\<rparr>) w = ?R (t\<lparr>th_pc := AtFinal sid (fst x)\<rparr>) (snd x)"
  proof (cases "ctx_done E (tick w) \<and> \<not> pick_ticker E (tick w)")
    case True
    have "?R (t\<lparr>th_pc := AtSelect sid eid h\<rparr>) w = ?R (t\<lparr>th_pc := AtCancel sid h\<rparr>) (tock w)"
      by (rule at) (simp_all add: step_res_def pc_adv_def True)
    also have "\<dots> = ?R (t\<lparr>th_pc := AtFinal sid (Some (ctx_error E))\<rparr>) (snd (exec_Cancel E h (tock w)))"
      by (rule at) (simp_all add: step_res_def pc_adv_def case_prod_beta)
    finally show ?thesis using eq True by (auto simp: case_prod_beta)
  next
    case False
    obtain st w1 where st: "exec_Status E h (tock w) = (st, w1)" by fastforce
    have sel: "?R (t\<lparr>th_pc := AtSelect sid eid h\<rparr>) w = ?R (t\<lparr>th_pc := AtStatus sid eid h\<rparr>) (tock w)"
      by (rule at) (use False in \<open>auto simp: step_res_def pc_adv_def\<close>)
    show ?thesis
    proof (cases st)
      case (Inl e)
      have "?R (t\<lparr>th_pc := AtStatus sid eid h\<rparr>) (tock w) = ?R (t\<lparr>th_pc := AtSelect sid eid h\<rparr>) w1"
        by (rule at) (simp_all add: step_res_def pc_adv_def st Inl)
      moreover from eq False st Inl have "f E eid h w1 = Some x" by auto
      ultimately show ?thesis using sel IH by simp
    next
      case (Inr s)
      obtain u w2 where u: "ExecutionStore_UpdateStatus E Ctx eid (Status_Phase s) w1 = (u, w2)"
        by fastforce
      have "?R (t\<lparr>th_pc := AtStatus sid eid h\<rparr>) (tock w) = ?R (t\<lparr>th_pc := AtUpdate sid eid h s\<rparr>) w1"
        by (rule at) (simp_all add: step_res_def pc_adv_def st Inr)
      also have "\<dots> = ?R (t\<lparr>th_pc := fst (pc_adv E (t\<lparr>th_pc := AtUpdate sid eid h s\<rparr>) w1)\<rparr>) w2"
        by (rule at) (simp_all add: step_res_def pc_adv_def u)
      finally show ?thesis using eq False st Inr u sel IH
        by (auto simp: pc_adv_def split: if_splits)
    qed
  qed
qed

text \<open>A call of the step function, run as a machine, is the call of \<open>runStep\<close>.\<close>

lemma machine_final:
  "run_machine (step_adv E) step_res (t\<lparr>th_pc := AtFinal sid r\<rparr>) w = finish E sid (Some (r, w))"
proof -
  have "run_machine (step_adv E) step_res (t\<lparr>th_pc := AtFinal sid r\<rparr>) w =
      run_machine (step_adv E) step_res (t\<lparr>th_pc := Returned r\<rparr>)
        (snd (JobStepStore_UpdateStatus E WithoutCancel sid (final_state r) w))"
    by (rule machine_at) (simp_all add: step_res_def pc_adv_def case_prod_beta)
  then show ?thesis
    by (simp add: finish_def run_machine_result step_res_def case_prod_beta)
qed

lemma finish_Some: "finish E sid m = Some x \<Longrightarrow> \<exists>r w. m = Some (r, w)"
  by (auto simp: finish_def split: option.splits)

lemma machine_select:
  assumes "finish E sid (poll E eid h w) = Some x"
  shows "run_machine (step_adv E) step_res (t\<lparr>th_pc := AtSelect sid eid h\<rparr>) w = Some x"
proof -
  from assms obtain r w1 where "poll E eid h w = Some (r, w1)"
    using finish_Some by blast
  with assms show ?thesis
    by (simp add: poll_run_machine machine_final)
qed

text \<open>
  How many actions a thread can still perform when the context is done and \<open>select\<close> sees it.
  Outside the select point every action lowers it.
\<close>

definition cancel_rank :: "step_thread \<Rightarrow> nat" where
  "cancel_rank t = (case th_pc t of
     AtCreate \<Rightarrow> 8 | AtStart _ \<Rightarrow> 7 | AtSubmit _ \<Rightarrow> 6 | AtRecord _ _ \<Rightarrow> 5
   | AtStatus _ _ _ \<Rightarrow> 5 | AtUpdate _ _ _ _ \<Rightarrow> 4 | AtSelect _ _ _ \<Rightarrow> 3 | AtCancel _ _ \<Rightarrow> 2
   | AtFinal _ _ \<Rightarrow> 1 | Returned _ \<Rightarrow> 0)"

lemmas step_adv_cases =
  step_adv_def pc_adv_def step_res_def exec_Submit_def exec_Status_def exec_Cancel_def

lemma cancel_rank_adv:
  assumes "step_res t = None" and "\<And>sid eid h. th_pc t \<noteq> AtSelect sid eid h"
  shows "cancel_rank (fst (step_adv E t w)) < cancel_rank t"
  using assms
  by (cases "th_pc t")
    (auto simp: cancel_rank_def step_adv_cases split: prod.splits option.splits sum.splits)

lemma run_machine_of_resume:
  "resume E t w = Some x \<Longrightarrow> run_machine (step_adv E) step_res t w = Some x"
proof (induction "cancel_rank t" arbitrary: t w rule: less_induct)
  case less
  show ?case
  proof (cases "th_pc t")
    case (AtSelect sid eid h)
    with less.prems have "finish E sid (poll E eid h w) = Some x"
      by (simp add: resume_def)
    then have "run_machine (step_adv E) step_res (t\<lparr>th_pc := AtSelect sid eid h\<rparr>) w = Some x"
      by (rule machine_select)
    moreover have "t\<lparr>th_pc := AtSelect sid eid h\<rparr> = t" using AtSelect by simp
    ultimately show ?thesis by simp
  next
    case (Returned r)
    with less.prems show ?thesis by (simp add: resume_def step_res_def run_machine_result)
  qed (use less cancel_rank_adv [of t E w] resume_adv [of E t w] in
      \<open>simp_all add: step_res_def run_machine_step\<close>)
qed

lemma resume_eq_run_machine: "run_machine (step_adv E) step_res t w = resume E t w"
proof (cases "run_machine (step_adv E) step_res t w")
  case None
  then show ?thesis using run_machine_of_resume by (metis not_None_eq)
next
  case (Some x)
  then show ?thesis using run_machine_resume [of E t w "fst x" "snd x"] by simp
qed

text \<open>
  \<open>runStep\<close> as written and its step machine return the same error in the same world, and one of
  them blocks for ever exactly when the other does.
\<close>

lemma run_machine_eq_runStep:
  "run_machine (step_adv E) step_res (spawn jobID name order grp spec) w =
     runStep E jobID name order grp spec w"
  by (simp add: resume_eq_run_machine resume_def spawn_def)

end
