(* ===== verification/StepSafety.thy ===== *)
theory StepSafety
  imports Steps
begin

text \<open>
  Safety and progress of job steps, for one step and for any interleaving of several: the status
  changes they make are those of the state machine, each thread alone moves the row it created,
  no other table is touched, and no row is left \<open>running\<close> behind a step that has returned.
\<close>

section \<open>Log events that respect the state machines\<close>

fun event_ok :: "event \<Rightarrow> bool" where
  "event_ok (RunStatus _ s t) \<longleftrightarrow> PipelineRunState_ValidateTransition s t = None"
| "event_ok (JobStatus _ s t) \<longleftrightarrow> StageState_ValidateTransition s t = None"
| "event_ok (StepStatus _ s t) \<longleftrightarrow> StageState_ValidateTransition s t = None"
| "event_ok _ \<longleftrightarrow> True"

definition log_ok :: "world \<Rightarrow> bool" where
  "log_ok w \<longleftrightarrow> list_all event_ok (log w)"

section \<open>Ownership of step rows\<close>

text \<open>The row a thread has created and not yet given up, with the status the row must have.\<close>

fun pc_owns :: "pc \<Rightarrow> (JobStepID \<times> string) option" where
  "pc_owns AtCreate = None"
| "pc_owns (AtStart sid) = Some (sid, statePending)"
| "pc_owns (AtSubmit sid) = Some (sid, stateRunning)"
| "pc_owns (AtRecord sid _) = Some (sid, stateRunning)"
| "pc_owns (AtSelect sid _ _) = Some (sid, stateRunning)"
| "pc_owns (AtCancel sid _) = Some (sid, stateRunning)"
| "pc_owns (AtStatus sid _ _) = Some (sid, stateRunning)"
| "pc_owns (AtUpdate sid _ _ _) = Some (sid, stateRunning)"
| "pc_owns (AtFinal sid _) = Some (sid, stateRunning)"
| "pc_owns (Returned _) = None"

fun owned :: "step_thread goroutine \<Rightarrow> (JobStepID \<times> string) option" where
  "owned (Live t) = pc_owns (th_pc t)"
| "owned (Exited _) = None"

text \<open>
  What holds between the step rows and the list \<open>os\<close> of what each thread owns:
  \<open>own_rows\<close>, every owned row is in the table with its status and is not one of the rows
  \<open>K\<close> made by others; \<open>own_once\<close>, no row is owned twice; \<open>run_owned\<close>, a running row
  is owned or is one of \<open>R\<close>.
\<close>

definition own_rows :: "JobStepID set \<Rightarrow> JobStep list \<Rightarrow> (JobStepID \<times> string) option list \<Rightarrow> bool" where
  "own_rows K rows os \<longleftrightarrow> (\<forall>sid s. Some (sid, s) \<in> set os \<longrightarrow> sid \<notin> K \<and>
     (\<exists>r. get_row JobStep_ID sid rows = Some r \<and> JobStep_Status r = s))"

definition own_once :: "(JobStepID \<times> string) option list \<Rightarrow> bool" where
  "own_once os \<longleftrightarrow> (\<forall>i j sid s s'. i < length os \<longrightarrow> j < length os \<longrightarrow>
     os ! i = Some (sid, s) \<longrightarrow> os ! j = Some (sid, s') \<longrightarrow> i = j)"

definition run_owned :: "JobStepID set \<Rightarrow> JobStep list \<Rightarrow> (JobStepID \<times> string) option list \<Rightarrow> bool" where
  "run_owned R rows os \<longleftrightarrow> (\<forall>r\<in>set rows. JobStep_Status r = stateRunning \<longrightarrow>
     JobStep_ID r \<in> R \<or> Some (JobStep_ID r, stateRunning) \<in> set os)"

lemma own_rows_update:
  assumes "own_rows K rows os"
    and "\<And>sid s. o' = Some (sid, s) \<Longrightarrow> sid \<notin> K \<and>
      (\<exists>r. get_row JobStep_ID sid rows' = Some r \<and> JobStep_Status r = s)"
    and "\<And>j sid s. j < length os \<Longrightarrow> j \<noteq> i \<Longrightarrow> os ! j = Some (sid, s) \<Longrightarrow>
      get_row JobStep_ID sid rows' = get_row JobStep_ID sid rows"
  shows "own_rows K rows' (os[i := o'])"
  unfolding own_rows_def
proof (intro allI impI)
  fix sid s assume "Some (sid, s) \<in> set (os[i := o'])"
  then obtain j where j: "j < length os" "os[i := o'] ! j = Some (sid, s)"
    by (auto simp: in_set_conv_nth)
  show "sid \<notin> K \<and> (\<exists>r. get_row JobStep_ID sid rows' = Some r \<and> JobStep_Status r = s)"
  proof (cases "j = i")
    case True
    with j assms(2) show ?thesis by simp
  next
    case False
    with j have "Some (sid, s) \<in> set os" by (auto simp: in_set_conv_nth)
    with assms(1) False j assms(3) [of j] show ?thesis by (auto simp: own_rows_def)
  qed
qed

lemma own_once_update:
  assumes "own_once os" and "i < length os"
    and "\<And>sid s j s'. o' = Some (sid, s) \<Longrightarrow> j < length os \<Longrightarrow> j \<noteq> i \<Longrightarrow> os ! j \<noteq> Some (sid, s')"
  shows "own_once (os[i := o'])"
  using assms unfolding own_once_def
  by (auto simp: nth_list_update)

lemma own_once_other:
  "own_once os \<Longrightarrow> i < length os \<Longrightarrow> os ! i = Some (sid, s) \<Longrightarrow> j < length os \<Longrightarrow> j \<noteq> i \<Longrightarrow>
     os ! j \<noteq> Some (sid, s')"
  unfolding own_once_def by blast

lemma set_update_other: "i < length os \<Longrightarrow> x \<in> set os \<Longrightarrow> x \<noteq> os ! i \<Longrightarrow> x \<in> set (os[i := y])"
  by (auto simp: in_set_conv_nth nth_list_update)

lemma run_owned_update:
  assumes own: "run_owned R rows os" and i: "i < length os"
    and new: "\<And>r. r \<in> set rows' \<Longrightarrow> JobStep_Status r = stateRunning \<Longrightarrow> r \<notin> set rows \<Longrightarrow>
      JobStep_ID r \<in> R \<or> o' = Some (JobStep_ID r, stateRunning)"
    and old: "\<And>sid. os ! i = Some (sid, stateRunning) \<Longrightarrow> o' \<noteq> os ! i \<Longrightarrow>
      sid \<in> R \<or> (\<forall>r\<in>set rows'. JobStep_ID r = sid \<longrightarrow> JobStep_Status r \<noteq> stateRunning)"
  shows "run_owned R rows' (os[i := o'])"
  unfolding run_owned_def
proof (intro ballI impI)
  fix r assume r: "r \<in> set rows'" "JobStep_Status r = stateRunning"
  show "JobStep_ID r \<in> R \<or> Some (JobStep_ID r, stateRunning) \<in> set (os[i := o'])"
  proof (cases "r \<in> set rows")
    case True
    with own r have "JobStep_ID r \<in> R \<or> Some (JobStep_ID r, stateRunning) \<in> set os"
      by (auto simp: run_owned_def)
    then show ?thesis
      using old [of "JobStep_ID r"] r i
      by (cases "os ! i = Some (JobStep_ID r, stateRunning)")
        (auto intro: set_update_other set_update_memI simp: list_update_same_conv)
  next
    case False
    with new r i show ?thesis by (auto intro: set_update_memI)
  qed
qed

section \<open>The invariant of a pool of steps\<close>

text \<open>What the steps of a job leave alone: every table but the steps and the executions.\<close>

definition same_but_steps :: "world \<Rightarrow> world \<Rightarrow> bool" where
  "same_but_steps w0 w \<longleftrightarrow>
     projects w = projects w0 \<and> repositories w = repositories w0 \<and> pipelines w = pipelines w0 \<and>
     pipeline_runs w = pipeline_runs w0 \<and> jobs w = jobs w0 \<and> artifacts w = artifacts w0 \<and>
     tick w0 \<le> tick w"

definition pool_inv :: "JobStepID set \<Rightarrow> JobStepID set \<Rightarrow> world \<Rightarrow> step_thread pool \<Rightarrow> bool" where
  "pool_inv K R w0 p \<longleftrightarrow> (case p of (gs, errs, w) \<Rightarrow>
     distinct (map JobStep_ID (job_steps w)) \<and> log_ok w \<and> same_but_steps w0 w \<and>
     (\<forall>k\<in>K. get_row JobStep_ID k (job_steps w) = get_row JobStep_ID k (job_steps w0)) \<and>
     K \<subseteq> JobStep_ID ` set (job_steps w) \<and>
     own_rows K (job_steps w) (map owned gs) \<and> own_once (map owned gs) \<and>
     run_owned R (job_steps w) (map owned gs))"

lemma pool_inv_quiet:
  assumes inv: "pool_inv K R w0 (gs, errs, w)" and i: "i < length gs" "gs ! i = Live t"
    and "job_steps w' = job_steps w" "same_but_steps w w'" "log_ok w'"
    and own: "pc_owns p = pc_owns (th_pc t)"
  shows "pool_inv K R w0 (gs[i := Live (t\<lparr>th_pc := p\<rparr>)], errs, w')"
proof -
  have "map owned (gs[i := Live (t\<lparr>th_pc := p\<rparr>)]) = map owned gs"
    using i own by (simp add: map_update list_update_same_conv)
  with assms show ?thesis by (auto simp: pool_inv_def same_but_steps_def)
qed

lemma pool_inv_release:
  assumes inv: "pool_inv K R w0 (gs, errs, w)" and i: "i < length gs" "gs ! i = Live t"
    and w': "job_steps w' = job_steps w" "same_but_steps w w'" "log_ok w'"
    and own: "pc_owns p = None" "\<And>sid. pc_owns (th_pc t) = Some (sid, stateRunning) \<Longrightarrow> sid \<in> R"
  shows "pool_inv K R w0 (gs[i := Live (t\<lparr>th_pc := p\<rparr>)], errs, w')"
proof -
  let ?os = "map owned gs"
  have "own_rows K (job_steps w) (?os[i := None])"
    using inv by (intro own_rows_update) (auto simp: pool_inv_def)
  moreover have "own_once (?os[i := None])"
    using inv i by (intro own_once_update) (auto simp: pool_inv_def)
  moreover have "run_owned R (job_steps w) (?os[i := None])"
    by (rule run_owned_update) (use inv i own(2) in \<open>auto simp: pool_inv_def\<close>)
  ultimately show ?thesis
    using inv w' own(1) by (auto simp: pool_inv_def same_but_steps_def map_update)
qed

lemma pool_inv_new:
  assumes inv: "pool_inv K R w0 (gs, errs, w)" and i: "i < length gs" "gs ! i = Live t"
    and w': "job_steps w' = job_steps w @ [r]" "same_but_steps w w'" "log_ok w'"
    and r: "JobStep_ID r \<notin> JobStep_ID ` set (job_steps w)" "JobStep_Status r = statePending"
    and own: "pc_owns (th_pc t) = None" "pc_owns p = Some (JobStep_ID r, statePending)"
  shows "pool_inv K R w0 (gs[i := Live (t\<lparr>th_pc := p\<rparr>)], errs, w')"
proof -
  let ?os = "map owned gs" and ?o = "Some (JobStep_ID r, statePending)"
  have rows: "own_rows K (job_steps w) ?os"
    using inv by (simp add: pool_inv_def)
  have none: "get_row JobStep_ID (JobStep_ID r) (job_steps w) = None"
    using r(1) by simp
  have new: "get_row JobStep_ID (JobStep_ID r) (job_steps w') = Some r"
    unfolding w'(1) get_row_append none by simp
  have keep: "get_row JobStep_ID k (job_steps w) = Some x \<Longrightarrow>
      get_row JobStep_ID k (job_steps w') = Some x" for k x
    by (simp add: w')
  have owned_old: "j < length ?os \<Longrightarrow> ?os ! j = Some (sid, s) \<Longrightarrow>
      \<exists>x. get_row JobStep_ID sid (job_steps w) = Some x" for j sid s
    using rows unfolding own_rows_def by (metis nth_mem)
  have "own_rows K (job_steps w') (?os[i := ?o])"
    by (rule own_rows_update [OF rows])
      (use inv r new keep owned_old in \<open>fastforce simp: pool_inv_def\<close>)+
  moreover have "own_once (?os[i := ?o])"
  proof (rule own_once_update)
    show "own_once ?os" "i < length ?os" using inv i by (simp_all add: pool_inv_def)
    fix sid s j s' assume "?o = Some (sid, s)" "j < length ?os"
    with owned_old [of j sid s'] r(1) show "?os ! j \<noteq> Some (sid, s')"
      by (auto dest!: get_row_Some_key)
  qed
  moreover have "run_owned R (job_steps w') (?os[i := ?o])"
    using inv i w' r own by (intro run_owned_update) (auto simp: pool_inv_def state_defs)
  moreover have "K \<subseteq> JobStep_ID ` set (job_steps w')"
    using inv w' by (auto simp: pool_inv_def)
  moreover have "\<forall>k\<in>K. get_row JobStep_ID k (job_steps w') = get_row JobStep_ID k (job_steps w0)"
  proof
    fix k assume "k \<in> K"
    then have k: "k \<in> JobStep_ID ` set (job_steps w)"
      and eq: "get_row JobStep_ID k (job_steps w) = get_row JobStep_ID k (job_steps w0)"
      using inv by (auto simp: pool_inv_def simp del: get_row_None)
    from k have "get_row JobStep_ID k (job_steps w) \<noteq> None" by simp
    with eq show "get_row JobStep_ID k (job_steps w') = get_row JobStep_ID k (job_steps w0)"
      using keep by (metis not_None_eq)
  qed
  ultimately show ?thesis
    using inv w' own r by (auto simp: pool_inv_def same_but_steps_def map_update)
qed

lemma pool_inv_set:
  assumes inv: "pool_inv K R w0 (gs, errs, w)" and i: "i < length gs" "gs ! i = Live t"
    and w': "job_steps w' = set_row JobStep_ID sid f (job_steps w)" "same_but_steps w w'" "log_ok w'"
    and f: "\<And>r. JobStep_ID (f r) = JobStep_ID r" "\<And>r. JobStep_Status (f r) = s'"
    and own: "pc_owns (th_pc t) = Some (sid, s)"
      "pc_owns p = Some (sid, s') \<or> pc_owns p = None \<and> s' \<noteq> stateRunning"
  shows "pool_inv K R w0 (gs[i := Live (t\<lparr>th_pc := p\<rparr>)], errs, w')"
proof -
  let ?os = "map owned gs"
  have rows: "own_rows K (job_steps w) ?os" and once: "own_once ?os"
    using inv by (simp_all add: pool_inv_def)
  have osi: "?os ! i = Some (sid, s)" using i own by simp
  then have sid: "sid \<notin> K" "\<exists>r. get_row JobStep_ID sid (job_steps w) = Some r"
    using rows i unfolding own_rows_def by (metis length_map nth_mem)+
  have get: "get_row JobStep_ID k (job_steps w') =
      (if k = sid then map_option f (get_row JobStep_ID sid (job_steps w))
       else get_row JobStep_ID k (job_steps w))" for k
    unfolding w'(1) using f(1) by (rule get_row_set_row)
  have other: "j < length ?os \<Longrightarrow> j \<noteq> i \<Longrightarrow> ?os ! j = Some (k, x) \<Longrightarrow> k \<noteq> sid" for j k x
    using own_once_other [OF once _ osi, of j] i by auto
  have "own_rows K (job_steps w') (?os[i := pc_owns p])"
    by (rule own_rows_update [OF rows]) (use own sid f other in \<open>auto simp: get\<close>)
  moreover have "own_once (?os[i := pc_owns p])"
  proof (rule own_once_update [OF once])
    show "i < length ?os" using i by simp
    fix k x j x' assume "pc_owns p = Some (k, x)" "j < length ?os" "j \<noteq> i"
    with other [of j k x'] own(2) show "?os ! j \<noteq> Some (k, x')" by auto
  qed
  moreover have "run_owned R (job_steps w') (?os[i := pc_owns p])"
  proof (rule run_owned_update)
    show "run_owned R (job_steps w) ?os" "i < length ?os" using inv i by (simp_all add: pool_inv_def)
  next
    fix r assume r: "r \<in> set (job_steps w')" "JobStep_Status r = stateRunning" "r \<notin> set (job_steps w)"
    then obtain r0 where "r = f r0" "JobStep_ID r0 = sid"
      unfolding w' by (auto dest!: set_row_memD)
    with r f own(2) show "JobStep_ID r \<in> R \<or> pc_owns p = Some (JobStep_ID r, stateRunning)"
      by auto
  next
    fix k assume k: "?os ! i = Some (k, stateRunning)" "pc_owns p \<noteq> ?os ! i"
    with osi own(2) have "k = sid" "s' \<noteq> stateRunning" by auto
    moreover have "JobStep_Status r = s'" if "r \<in> set (job_steps w')" "JobStep_ID r = sid" for r
      using that f unfolding w' by (auto dest!: set_row_memD)
    ultimately show "k \<in> R \<or>
        (\<forall>r\<in>set (job_steps w'). JobStep_ID r = k \<longrightarrow> JobStep_Status r \<noteq> stateRunning)"
      by auto
  qed
  moreover have "K \<subseteq> JobStep_ID ` set (job_steps w')"
    using inv f w' by (simp add: pool_inv_def)
  moreover have "\<forall>k\<in>K. get_row JobStep_ID k (job_steps w') = get_row JobStep_ID k (job_steps w0)"
    using inv sid(1) by (auto simp: pool_inv_def get)
  moreover have "distinct (map JobStep_ID (job_steps w'))"
    using inv f w' by (simp add: pool_inv_def)
  ultimately show ?thesis
    using inv w' by (auto simp: pool_inv_def same_but_steps_def map_update)
qed

section \<open>Every action keeps the invariant\<close>

lemma log_ok_append: "log_ok w \<Longrightarrow> list_all event_ok evs \<Longrightarrow> log w' = log w @ evs \<Longrightarrow> log_ok w'"
  by (simp add: log_ok_def)

lemma same_log_ok: "log_ok w \<Longrightarrow> log w' = log w \<Longrightarrow> log_ok w'"
  by (simp add: log_ok_def)

text \<open>
  Either no statement ever fails in the infrastructure, or no claim is made about the rows left
  running: a fault may lose the last UPDATE of a step.
\<close>

definition db_reliable :: "env \<Rightarrow> bool" where
  "db_reliable E \<longleftrightarrow> (\<forall>n. db_fault E n = None)"

lemma db_reliable_up [simp]: "db_reliable E \<Longrightarrow> db_up E WithoutCancel n"
  by (simp add: db_reliable_def db_up_def)

lemma pool_inv_owned:
  assumes "pool_inv K R w0 (gs, errs, w)" and "i < length gs" "gs ! i = Live t"
    and "pc_owns (th_pc t) = Some (sid, s)"
  shows "sid \<in> JobStep_ID ` set (job_steps w)"
    and "\<And>r. r \<in> set (job_steps w) \<Longrightarrow> JobStep_ID r = sid \<Longrightarrow> JobStep_Status r = s"
proof -
  from assms have "Some (sid, s) \<in> set (map owned gs)"
    by (metis length_map nth_map nth_mem owned.simps(1))
  moreover from assms(1) have "own_rows K (job_steps w) (map owned gs)"
    by (simp add: pool_inv_def)
  ultimately obtain x where x: "get_row JobStep_ID sid (job_steps w) = Some x"
    "JobStep_Status x = s"
    unfolding own_rows_def by blast
  then show "sid \<in> JobStep_ID ` set (job_steps w)"
    by (auto dest: get_row_Some)
  fix r assume "r \<in> set (job_steps w)" "JobStep_ID r = sid"
  with assms(1) x have "r = x"
    by (auto simp: pool_inv_def dest!: get_row_unique)
  with x show "JobStep_Status r = s" by simp
qed

text \<open>The statement that moves an owned row is logged as a permitted transition.\<close>

lemma pool_inv_events:
  assumes "pool_inv K R w0 (gs, errs, w)" and "i < length gs" "gs ! i = Live t"
    and "pc_owns (th_pc t) = Some (sid, s)" and "StageState_ValidateTransition s s' = None"
  shows "list_all event_ok (map (\<lambda>x. StepStatus sid (JobStep_Status x) s')
    (filter (\<lambda>x. JobStep_ID x = sid) (job_steps w)))"
  using pool_inv_owned(2) [OF assms(1-4)] assms(5) by (auto simp: list_all_iff)

lemma list_all_ExecStatus [simp]: "list_all event_ok (map (\<lambda>x. ExecStatus k (f x) s) xs)"
  by (simp add: list_all_iff)

lemma final_state_ok:
  "StageState_ValidateTransition stateRunning (final_state r) = None"
  "final_state r \<noteq> stateRunning"
  by (auto simp: final_state_def stage_valid_cases state_defs)

lemma step_adv_inv:
  assumes inv: "pool_inv K R w0 (gs, errs, w)" and i: "i < length gs" "gs ! i = Live t"
    and live: "step_res t = None" and R: "R = UNIV \<or> db_reliable E"
  shows "pool_inv K R w0 (gs[i := Live (fst (step_adv E t w))], errs, snd (step_adv E t w))"
proof -
  obtain p w' where p: "pc_adv E t w = (p, w')" by fastforce
  have ok: "list_all event_ok (log w)" using inv by (simp add: pool_inv_def log_ok_def)
  note quiet = pool_inv_quiet [OF inv i] and release = pool_inv_release [OF inv i]
    and new = pool_inv_new [OF inv i] and set = pool_inv_set [OF inv i]
  have "pool_inv K R w0 (gs[i := Live (t\<lparr>th_pc := p\<rparr>)], errs, w')"
  proof (cases "th_pc t")
    case AtCreate
    show ?thesis
    proof (cases rule: JobStepStore_Create_cases
        [of E Ctx "new_step (th_job t) (th_name t) (th_order t) (th_group t)" w])
      case (failed e s' n)
      with p AtCreate ok show ?thesis
        by (intro release) (auto simp: pc_adv_def same_but_steps_def log_ok_def)
    next
      case (created s' i' tm n)
      with p AtCreate ok show ?thesis
        by (intro new [where r = s'])
          (auto simp: pc_adv_def same_but_steps_def log_ok_def new_step_def state_defs)
    qed
  next
    case (AtStart sid)
    then have own: "pc_owns (th_pc t) = Some (sid, statePending)" by simp
    note row = pool_inv_owned(1) [OF inv i own]
    have valid: "StageState_ValidateTransition statePending StageStateRunning = None"
      by (simp add: stage_valid_cases state_defs)
    note events = pool_inv_events [OF inv i own valid]
    show ?thesis
    proof (cases rule: JobStepStore_UpdateStatus_cases [of E Ctx sid StageStateRunning w])
      case (unsent e)
      with p AtStart ok show ?thesis
        by (intro release) (auto simp: pc_adv_def same_but_steps_def log_ok_def state_defs)
    next
      case (sent f)
      have "ensureRowsAffected (hits JobStep_ID sid (job_steps w)) ''job step'' (rawJobStepID sid)
          = None"
        using row by simp
      with sent have "JobStepStore_UpdateStatus E Ctx sid StageStateRunning w = (None, w')"
        and "p = AtSubmit sid"
        using p AtStart by (auto simp: pc_adv_def)
      with sent AtStart ok events show ?thesis
        by (intro set [where sid = sid and f = f and s' = stateRunning])
          (auto simp: same_but_steps_def log_ok_def state_defs)
    qed
  next
    case (AtFinal sid r)
    then have own: "pc_owns (th_pc t) = Some (sid, stateRunning)" by simp
    note events = pool_inv_events [OF inv i own final_state_ok(1) [of r]]
    have pw: "p = Returned r"
      "w' = snd (JobStepStore_UpdateStatus E WithoutCancel sid (final_state r) w)"
      using p AtFinal by (auto simp: pc_adv_def split: prod.splits)
    show ?thesis
    proof (cases rule: JobStepStore_UpdateStatus_cases [of E WithoutCancel sid "final_state r" w])
      case (unsent e)
      with R have "R = UNIV" by auto
      with unsent pw ok show ?thesis
        by (intro release) (auto simp: same_but_steps_def log_ok_def)
    next
      case (sent f)
      with pw AtFinal ok events show ?thesis
        by (intro set [where sid = sid and f = f and s' = "final_state r"])
          (auto simp: same_but_steps_def log_ok_def final_state_ok)
    qed
  next
    case (AtRecord sid h)
    show ?thesis
      by (rule quiet; cases rule: ExecutionStore_Create_cases [of E Ctx "new_execution sid h" w])
        (use p AtRecord ok in \<open>auto simp: pc_adv_def same_but_steps_def log_ok_def\<close>)
  next
    case (AtUpdate sid eid h st)
    show ?thesis
      by (rule quiet; cases rule: ExecutionStore_UpdateStatus_cases [of E Ctx eid "Status_Phase st" w])
        (use p AtUpdate ok in \<open>auto simp: pc_adv_def same_but_steps_def log_ok_def split: if_splits\<close>)
  qed (use p live ok in \<open>auto simp: pc_adv_def exec_Submit_def exec_Status_def exec_Cancel_def
      step_res_def same_but_steps_def log_ok_def split: sum.splits if_splits intro!: quiet\<close>)
  then show ?thesis using p by (simp add: step_adv_def)
qed

lemma go_step_inv:
  assumes "go_step (step_adv E) step_res p p'" and "pool_inv K R w0 p"
    and "R = UNIV \<or> db_reliable E"
  shows "pool_inv K R w0 p'"
  using assms(1)
proof cases
  case (move i gs t w t' w' errs)
  with assms(2,3) step_adv_inv [of K R w0 gs errs w i t E] show ?thesis by simp
next
  case (exit i gs t r errs w)
  then have "owned (gs ! i) = None" by (auto simp: step_res_def split: pc.splits)
  then have "map owned (gs[i := Exited r]) = map owned gs"
    using exit by (simp add: map_update list_update_same_conv)
  with exit assms(2) show ?thesis by (simp add: pool_inv_def)
qed

section \<open>From the start of a call to its end\<close>

text \<open>
  The summary of any number of steps that have all returned: identifiers are still unique, the
  log is made of permitted transitions, no other table and no older row has changed, and, when
  the database is reliable, no row is left running that was not running before.
\<close>

definition running_steps :: "world \<Rightarrow> JobStepID set" where
  "running_steps w = {JobStep_ID r |r. r \<in> set (job_steps w) \<and> JobStep_Status r = stateRunning}"

definition steps_ran :: "env \<Rightarrow> world \<Rightarrow> world \<Rightarrow> bool" where
  "steps_ran E w w' \<longleftrightarrow>
     distinct (map JobStep_ID (job_steps w')) \<and> log_ok w' \<and> same_but_steps w w' \<and>
     JobStep_ID ` set (job_steps w) \<subseteq> JobStep_ID ` set (job_steps w') \<and>
     (\<forall>k\<in>JobStep_ID ` set (job_steps w).
        get_row JobStep_ID k (job_steps w') = get_row JobStep_ID k (job_steps w)) \<and>
     (db_reliable E \<longrightarrow> running_steps w' \<subseteq> running_steps w)"

definition steps_ready :: "world \<Rightarrow> bool" where
  "steps_ready w \<longleftrightarrow> distinct (map JobStep_ID (job_steps w)) \<and> log_ok w"

lemma pool_inv_init:
  assumes "steps_ready w" and "\<forall>g\<in>set gs. owned g = None" and "running_steps w \<subseteq> R"
  shows "pool_inv (JobStep_ID ` set (job_steps w)) R w (gs, errs, w)"
proof -
  have none: "i < length gs \<Longrightarrow> owned (gs ! i) = None" for i
    using assms(2) by simp
  then have "own_rows (JobStep_ID ` set (job_steps w)) (job_steps w) (map owned gs)"
    and "own_once (map owned gs)"
    using assms(2) by (fastforce simp: own_rows_def own_once_def)+
  moreover have "run_owned R (job_steps w) (map owned gs)"
    using assms(3) by (auto simp: run_owned_def running_steps_def)
  ultimately show ?thesis
    using assms(1) by (simp add: pool_inv_def steps_ready_def same_but_steps_def)
qed

lemma pool_inv_done:
  assumes inv: "\<And>R. running_steps w \<subseteq> R \<Longrightarrow> R = UNIV \<or> db_reliable E \<Longrightarrow>
      pool_inv (JobStep_ID ` set (job_steps w)) R w (gs, errs, w')"
    and fin: "\<forall>g\<in>set gs. owned g = None"
  shows "steps_ran E w w'"
proof -
  have "db_reliable E \<longrightarrow> running_steps w' \<subseteq> running_steps w"
  proof
    assume "db_reliable E"
    then have "pool_inv (JobStep_ID ` set (job_steps w)) (running_steps w) w (gs, errs, w')"
      using inv by blast
    then show "running_steps w' \<subseteq> running_steps w"
      using fin by (fastforce simp: pool_inv_def run_owned_def running_steps_def)
  qed
  with inv [of UNIV] show ?thesis by (simp add: pool_inv_def steps_ran_def)
qed

lemma spawn_owned [simp]: "pc_owns (th_pc (spawn j n ord grp spec)) = None"
  by (simp add: spawn_def)

lemma step_res_owned: "step_res t = Some r \<Longrightarrow> owned (Live t) = None"
  by (auto simp: step_res_def split: pc.splits)

lemma runStep_ran:
  assumes "runStep E jobID name order grp spec w = Some (r, w')" and "steps_ready w"
  shows "steps_ran E w w'"
proof -
  from assms(1) have run:
    "run_machine (step_adv E) step_res (spawn jobID name order grp spec) w = Some (r, w')"
    by (simp add: resume_eq_run_machine resume_def spawn_def)
  let ?I = "\<lambda>t w'. \<forall>R. running_steps w \<subseteq> R \<longrightarrow> R = UNIV \<or> db_reliable E \<longrightarrow>
      pool_inv (JobStep_ID ` set (job_steps w)) R w ([Live t], [], w')"
  have "\<exists>t'. ?I t' w' \<and> step_res t' = Some r"
    using run
  proof (rule run_machine_inv [where I = ?I])
    fix t w1 assume I: "?I t w1" and live: "step_res t = None"
    show "?I (fst (step_adv E t w1)) (snd (step_adv E t w1))"
    proof (intro allI impI)
      fix R assume R: "running_steps w \<subseteq> R" "R = UNIV \<or> db_reliable E"
      with I have "pool_inv (JobStep_ID ` set (job_steps w)) R w ([Live t], [], w1)" by blast
      from step_adv_inv [OF this, of 0 t E] live R(2)
      show "pool_inv (JobStep_ID ` set (job_steps w)) R w
          ([Live (fst (step_adv E t w1))], [], snd (step_adv E t w1))" by simp
    qed
  next
    show "?I (spawn jobID name order grp spec) w"
      by (intro allI impI pool_inv_init [OF assms(2)]) simp_all
  qed
  then obtain t' where t': "?I t' w'" "step_res t' = Some r" by blast
  show ?thesis
  proof (rule pool_inv_done [where gs = "[Live t']"])
    show "\<forall>g\<in>set [Live t']. owned g = None"
      using step_res_owned [OF t'(2)] by simp
  qed (use t'(1) in blast)
qed

lemma par_loop_ran:
  assumes "par_loop (step_adv E) step_res sch (map Live ts, errs, w) = Some (gs', errs', w')"
    and "steps_ready w" and "\<forall>t\<in>set ts. owned (Live t) = None"
  shows "steps_ran E w w'"
proof (rule pool_inv_done)
  from assms(1) have run: "(go_step (step_adv E) step_res)\<^sup>*\<^sup>* (map Live ts, errs, w) (gs', errs', w')"
    and fin: "live_ids gs' = []"
    by (auto dest: par_loop_sound)
  show "pool_inv (JobStep_ID ` set (job_steps w)) R w (gs', errs', w')"
    if "running_steps w \<subseteq> R" "R = UNIV \<or> db_reliable E" for R
    using run
  proof (rule go_steps_inv)
    show "pool_inv (JobStep_ID ` set (job_steps w)) R w (map Live ts, errs, w)"
      using assms(2,3) that(1) by (intro pool_inv_init) auto
  qed (use that(2) go_step_inv in blast)
  from fin show "\<forall>g\<in>set gs'. owned g = None"
    by (auto simp: live_ids_Nil) (metis is_Live.elims(3) owned.simps(2))
qed

lemma steps_ran_ready: "steps_ran E w w' \<Longrightarrow> steps_ready w'"
  by (simp add: steps_ran_def steps_ready_def)

lemma steps_ran_refl: "steps_ready w \<Longrightarrow> steps_ran E w w"
  by (simp add: steps_ran_def steps_ready_def same_but_steps_def)

lemma steps_ran_trans:
  assumes "steps_ran E w1 w2" and "steps_ran E w2 w3"
  shows "steps_ran E w1 w3"
proof -
  have keep: "get_row JobStep_ID k (job_steps w3) = get_row JobStep_ID k (job_steps w1)"
    if "k \<in> JobStep_ID ` set (job_steps w1)" for k
    using assms that unfolding steps_ran_def by (metis subsetD)
  have ids: "JobStep_ID ` set (job_steps w1) \<subseteq> JobStep_ID ` set (job_steps w3)"
    using assms unfolding steps_ran_def by (meson order_trans)
  have same: "same_but_steps w1 w3"
    using assms by (simp add: steps_ran_def same_but_steps_def)
  have run: "db_reliable E \<longrightarrow> running_steps w3 \<subseteq> running_steps w1"
    using assms unfolding steps_ran_def by (meson order_trans)
  have "distinct (map JobStep_ID (job_steps w3))" "log_ok w3"
    using assms(2) by (simp_all add: steps_ran_def)
  with same ids run show ?thesis
    unfolding steps_ran_def by (intro conjI ballI keep)
qed

end
