(* ===== verification/StepProgress.thy ===== *)
theory StepProgress
  imports StepSafety
begin

text \<open>
  When a step returns, and with what: \<open>poll\<close> has no bound of its own, so a step ends only when
  the context is done or the executor reports a terminal phase. Both ways of settling are
  instances of \<open>settling_machine\<close>; the outcome of a step is then read off its log and rows.
\<close>

section \<open>Time passes\<close>

lemma step_adv_tick:
  assumes "step_res t = None"
  shows "tick w < tick (snd (step_adv E t w))"
proof -
  obtain p w' where p: "pc_adv E t w = (p, w')" by fastforce
  have "tick w < tick w'"
  proof (cases "th_pc t")
    case AtCreate
    with p show ?thesis
      by (cases rule: JobStepStore_Create_cases
          [of E Ctx "new_step (th_job t) (th_name t) (th_order t) (th_group t)" w])
        (auto simp: pc_adv_def)
  next
    case (AtStart sid)
    with p show ?thesis
      by (cases rule: JobStepStore_UpdateStatus_cases [of E Ctx sid StageStateRunning w])
        (auto simp: pc_adv_def split: option.splits)
  next
    case (AtRecord sid h)
    with p show ?thesis
      by (cases rule: ExecutionStore_Create_cases [of E Ctx "new_execution sid h" w])
        (auto simp: pc_adv_def)
  next
    case (AtUpdate sid eid h st)
    with p show ?thesis
      by (cases rule: ExecutionStore_UpdateStatus_cases [of E Ctx eid "Status_Phase st" w])
        (auto simp: pc_adv_def)
  next
    case (AtFinal sid r)
    with p show ?thesis
      by (cases rule: JobStepStore_UpdateStatus_cases [of E WithoutCancel sid "final_state r" w])
        (auto simp: pc_adv_def)
  qed (use assms p in \<open>auto simp: pc_adv_def exec_Submit_def exec_Status_def exec_Cancel_def
      step_res_def split: sum.splits if_splits\<close>)
  with p show ?thesis by (simp add: step_adv_def)
qed

section \<open>Two ways of settling\<close>

definition cancel_settled :: "env \<Rightarrow> nat \<Rightarrow> bool" where
  "cancel_settled E N \<longleftrightarrow> (\<forall>n\<ge>N. ctx_done E n \<and> \<not> pick_ticker E n)"

definition verdict_settled :: "env \<Rightarrow> nat \<Rightarrow> bool" where
  "verdict_settled E N \<longleftrightarrow>
     (\<forall>n\<ge>N. \<forall>h. \<exists>st. ex_status E n h = Inr st \<and> ExecutionStatus_IsTerminal st)"

text \<open>
  With a final verdict at every status call, the wait is left through the update of the
  execution; a phase read before the executor settled may still send it round once.
\<close>

definition verdict_rank :: "step_thread \<Rightarrow> nat" where
  "verdict_rank t = (case th_pc t of
     AtCreate \<Rightarrow> 10 | AtStart _ \<Rightarrow> 9 | AtSubmit _ \<Rightarrow> 8 | AtRecord _ _ \<Rightarrow> 7
   | AtUpdate _ _ _ st \<Rightarrow> (if ExecutionStatus_IsTerminal st then 3 else 6)
   | AtSelect _ _ _ \<Rightarrow> 5 | AtStatus _ _ _ \<Rightarrow> 4 | AtCancel _ _ \<Rightarrow> 2
   | AtFinal _ _ \<Rightarrow> 1 | Returned _ \<Rightarrow> 0)"

interpretation cancelled: settling_machine "step_adv E" step_res cancel_rank "cancel_settled E"
  for E
proof unfold_locales
  fix t w N
  show "step_res t = None \<Longrightarrow> tick w < tick (snd (step_adv E t w))"
    by (rule step_adv_tick)
  assume live: "step_res t = None" and N: "cancel_settled E N" "N \<le> tick w"
  show "cancel_rank (fst (step_adv E t w)) < cancel_rank t"
  proof (cases "th_pc t")
    case (AtSelect sid eid h)
    with N show ?thesis
      by (simp add: cancel_rank_def step_adv_def pc_adv_def cancel_settled_def)
  qed (use live cancel_rank_adv [of t E w] in simp_all)
qed

interpretation decided: settling_machine "step_adv E" step_res verdict_rank "verdict_settled E"
  for E
proof unfold_locales
  fix t w N
  show "step_res t = None \<Longrightarrow> tick w < tick (snd (step_adv E t w))"
    by (rule step_adv_tick)
  assume live: "step_res t = None" and N: "verdict_settled E N" "N \<le> tick w"
  show "verdict_rank (fst (step_adv E t w)) < verdict_rank t"
  proof (cases "th_pc t")
    case (AtStatus sid eid h)
    obtain st where "ex_status E (tick w) h = Inr st" "ExecutionStatus_IsTerminal st"
      using N by (auto simp: verdict_settled_def)
    with AtStatus show ?thesis
      by (simp add: verdict_rank_def step_adv_def pc_adv_def exec_Status_def)
  qed (use live in \<open>auto simp: verdict_rank_def step_adv_cases
      split: prod.splits option.splits sum.splits\<close>)
qed

definition settled :: "env \<Rightarrow> bool" where
  "settled E \<longleftrightarrow> (\<exists>N. cancel_settled E N) \<or> (\<exists>N. verdict_settled E N)"

lemma settled_call:
  "settled E \<Longrightarrow> \<exists>r w'. run_machine (step_adv E) step_res t w = Some (r, w')"
  unfolding settled_def using cancelled.call_returns decided.call_returns by blast

lemma settled_wait:
  "settled E \<Longrightarrow> \<exists>p'. par_loop (step_adv E) step_res sch p = Some p'"
  unfolding settled_def using cancelled.wait_returns decided.wait_returns by blast

lemma settled_runStep:
  "settled E \<Longrightarrow> \<exists>r w'. runStep E jobID name order grp spec w = Some (r, w')"
  using settled_call [of E "spawn jobID name order grp spec" w]
  by (simp add: resume_eq_run_machine resume_def spawn_def)

section \<open>What poll returns\<close>

definition phase_error :: "ExecutionHandle \<Rightarrow> ExecutionStatus \<Rightarrow> error option" where
  "phase_error h st =
    (if Status_Phase st = ExecutionPhaseSucceeded then None
     else Some (Errorf ''execution %s: phase=%s'' [AStr (Handle_ID h), AStr (Status_Phase st)]))"

definition exec_events :: "ExecutionID \<Rightarrow> event list \<Rightarrow> bool" where
  "exec_events eid evs \<longleftrightarrow> (\<forall>ev\<in>set evs. \<exists>s t. ev = ExecStatus eid s t)"

lemma exec_events_simps [simp]:
  "exec_events eid []" "exec_events eid (xs @ ys) \<longleftrightarrow> exec_events eid xs \<and> exec_events eid ys"
  "exec_events eid (map (\<lambda>e. ExecStatus eid (f e) s) es)"
  by (auto simp: exec_events_def)

text \<open>
  The ways out of \<open>poll\<close>: the context's error, right after a cancellation of the execution, or
  the verdict of a terminal phase that the executor reported, with nothing cancelled.
\<close>

definition gave_up :: "env \<Rightarrow> ExecutionID \<Rightarrow> ExecutionHandle \<Rightarrow> world \<Rightarrow> error option \<Rightarrow> world \<Rightarrow> bool" where
  "gave_up E eid h w r w' \<longleftrightarrow> r = Some (ctx_error E) \<and> (\<exists>n\<ge>tick w. ctx_done E n) \<and>
     (\<exists>evs. exec_events eid evs \<and> log w' = log w @ evs @ [CancelCall h])"

definition got_verdict :: "env \<Rightarrow> ExecutionID \<Rightarrow> ExecutionHandle \<Rightarrow> world \<Rightarrow> error option \<Rightarrow> world \<Rightarrow> bool" where
  "got_verdict E eid h w r w' \<longleftrightarrow>
     (\<exists>n st. tick w \<le> n \<and> ex_status E n h = Inr st \<and> ExecutionStatus_IsTerminal st \<and>
        r = phase_error h st) \<and>
     (\<exists>evs. exec_events eid evs \<and> log w' = log w @ evs)"

lemma outcome_later:
  assumes "tick w \<le> tick w1" and "log w1 = log w @ evs" and "exec_events eid evs"
  shows "gave_up E eid h w1 r w' \<Longrightarrow> gave_up E eid h w r w'"
    and "got_verdict E eid h w1 r w' \<Longrightarrow> got_verdict E eid h w r w'"
  using assms unfolding gave_up_def got_verdict_def
  by (metis append.assoc exec_events_simps(2) order_trans)+

lemma ExecutionStore_UpdateStatus_log:
  obtains u w1 evs where "ExecutionStore_UpdateStatus E c k s w = (u, w1)"
    "tick w1 = tick w + 2" "log w1 = log w @ evs" "exec_events k evs"
    "job_steps w1 = job_steps w"
proof (cases rule: ExecutionStore_UpdateStatus_cases [of E c k s w])
  case (unsent e)
  then show ?thesis using that [of _ _ "[]"] by simp
next
  case (sent f)
  then show ?thesis
    using that [of _ _ "map (\<lambda>e. ExecStatus k (Execution_Status e) s)
      (filter (\<lambda>e. Execution_ID e = k) (executions w))"] by simp
qed

lemma poll_outcome_step:
  assumes eq: "(if ctx_done E (tick w) \<and> \<not> pick_ticker E (tick w)
     then (case exec_Cancel E h (tock w) of (_, w1) \<Rightarrow> Some (Some (ctx_error E), w1))
     else (case exec_Status E h (tock w) of
       (Inl e, w1) \<Rightarrow> f w1
     | (Inr status, w1) \<Rightarrow>
        (case ExecutionStore_UpdateStatus E Ctx eid (Status_Phase status) w1 of (_, w2) \<Rightarrow>
          if \<not> ExecutionStatus_IsTerminal status then f w2
          else if Status_Phase status \<noteq> ExecutionPhaseSucceeded
          then Some (Some (Errorf ''execution %s: phase=%s''
                 [AStr (Handle_ID h), AStr (Status_Phase status)]), w2)
          else Some (None, w2)))) = Some (r, w')"
    and IH: "\<And>w1. f w1 = Some (r, w') \<Longrightarrow> gave_up E eid h w1 r w' \<or> got_verdict E eid h w1 r w'"
  shows "gave_up E eid h w r w' \<or> got_verdict E eid h w r w'"
proof (cases "ctx_done E (tick w) \<and> \<not> pick_ticker E (tick w)")
  case True
  with eq have "gave_up E eid h w r w'"
    by (auto simp: gave_up_def exec_Cancel_def intro!: exI [of _ "[]"])
  then show ?thesis ..
next
  case False
  show ?thesis
  proof (cases "ex_status E (Suc (tick w)) h")
    case (Inl e)
    with eq False have "f (tock (tock w)) = Some (r, w')" by (simp add: exec_Status_def)
    from IH [OF this] show ?thesis using outcome_later [of w "tock (tock w)" "[]" eid] by fastforce
  next
    case (Inr st)
    obtain u w2 evs where u: "ExecutionStore_UpdateStatus E Ctx eid (Status_Phase st)
        (tock (tock w)) = (u, w2)" and w2: "tick w2 = tick w + 4" "log w2 = log w @ evs" "exec_events eid evs"
      by (rule ExecutionStore_UpdateStatus_log [of E Ctx eid "Status_Phase st" "tock (tock w)"]) auto
    show ?thesis
    proof (cases "ExecutionStatus_IsTerminal st")
      case True
      with eq False Inr u have "r = phase_error h st" "w' = w2"
        by (auto simp: exec_Status_def phase_error_def split: if_splits)
      with True Inr w2 have "got_verdict E eid h w r w'"
        by (auto simp: got_verdict_def intro!: exI [of _ "Suc (tick w)"])
      then show ?thesis ..
    next
      case ongoing: False
      with eq False Inr u have "f w2 = Some (r, w')" by (auto simp: exec_Status_def)
      from IH [OF this] show ?thesis using outcome_later [of w w2 evs eid] w2 by fastforce
    qed
  qed
qed

lemma poll_outcome:
  assumes "poll E eid h w = Some (r, w')"
  shows "gave_up E eid h w r w' \<or> got_verdict E eid h w r w'"
proof -
  let ?P = "\<lambda>E eid h w x. gave_up E eid h w (fst x) (snd x) \<or> got_verdict E eid h w (fst x) (snd x)"
  have "?P E eid h w (r, w')"
  proof (rule poll.raw_induct [where P = ?P, OF _ assms])
    fix f E eid h w x
    assume IH: "\<And>E eid h w x. f E eid h w = Some x \<Longrightarrow> ?P E eid h w x"
      and eq: "(if ctx_done E (tick w) \<and> \<not> pick_ticker E (tick w)
     then (case exec_Cancel E h (tock w) of (_, w1) \<Rightarrow> Some (Some (ctx_error E), w1))
     else (case exec_Status E h (tock w) of
       (Inl e, w1) \<Rightarrow> f E eid h w1
     | (Inr status, w1) \<Rightarrow>
        (case ExecutionStore_UpdateStatus E Ctx eid (Status_Phase status) w1 of (_, w2) \<Rightarrow>
          if \<not> ExecutionStatus_IsTerminal status then f E eid h w2
          else if Status_Phase status \<noteq> ExecutionPhaseSucceeded
          then Some (Some (Errorf ''execution %s: phase=%s''
                 [AStr (Handle_ID h), AStr (Status_Phase status)]), w2)
          else Some (None, w2)))) = Some x"
    obtain r w' where x: "x = (r, w')" by (cases x)
    from poll_outcome_step [OF eq [unfolded x]] IH [of E eid h _ "(r, w')"]
    show "?P E eid h w x" by (simp add: x)
  qed
  then show ?thesis by simp
qed

section \<open>The trace of a step\<close>

text \<open>
  The events one call of \<open>runStep\<close> adds to the log, by the place where the call ends. The last
  update is lost when its statement fails, which \<open>final_events\<close> allows.
\<close>

definition final_events :: "JobStepID \<Rightarrow> error option \<Rightarrow> event list \<Rightarrow> bool" where
  "final_events sid r evs \<longleftrightarrow> evs = [] \<or> evs = [StepStatus sid stateRunning (final_state r)]"

inductive step_trace :: "env \<Rightarrow> ExecutionSpec \<Rightarrow> error option \<Rightarrow> event list \<Rightarrow> bool"
  for E :: env and spec :: ExecutionSpec where
  not_started: "step_trace E spec (Some e) []"
| not_submitted: "final_events sid (Some e) fin \<Longrightarrow>
    step_trace E spec (Some e) (StepStatus sid statePending stateRunning # fin)"
| not_recorded: "final_events sid (Some e) fin \<Longrightarrow>
    step_trace E spec (Some e) (StepStatus sid statePending stateRunning # Submitted spec h # fin)"
| gave_up: "ctx_done E n \<Longrightarrow> exec_events eid evs \<Longrightarrow> final_events sid (Some (ctx_error E)) fin \<Longrightarrow>
    step_trace E spec (Some (ctx_error E))
      (StepStatus sid statePending stateRunning # Submitted spec h # evs @ CancelCall h # fin)"
| verdict: "ex_submit E m spec = Inr h \<Longrightarrow> m < n \<Longrightarrow> ex_status E n h = Inr st \<Longrightarrow>
    ExecutionStatus_IsTerminal st \<Longrightarrow> exec_events eid evs \<Longrightarrow>
    final_events sid (phase_error h st) fin \<Longrightarrow>
    step_trace E spec (phase_error h st)
      (StepStatus sid statePending stateRunning # Submitted spec h # evs @ fin)"

inductive_cases step_trace_NoneE: "step_trace E spec None evs"

lemma poll_steps_same:
  assumes "poll E eid h w = Some (r, w')"
  shows "job_steps w' = job_steps w"
proof -
  let ?P = "\<lambda>E eid h w x. job_steps (snd x) = job_steps w"
  have "?P E eid h w (r, w')"
  proof (rule poll.raw_induct [where P = ?P, OF _ assms])
    fix f E eid h w x
    assume IH: "\<And>E eid h w x. f E eid h w = Some x \<Longrightarrow> ?P E eid h w x"
      and eq: "(if ctx_done E (tick w) \<and> \<not> pick_ticker E (tick w)
     then (case exec_Cancel E h (tock w) of (_, w1) \<Rightarrow> Some (Some (ctx_error E), w1))
     else (case exec_Status E h (tock w) of
       (Inl e, w1) \<Rightarrow> f E eid h w1
     | (Inr status, w1) \<Rightarrow>
        (case ExecutionStore_UpdateStatus E Ctx eid (Status_Phase status) w1 of (_, w2) \<Rightarrow>
          if \<not> ExecutionStatus_IsTerminal status then f E eid h w2
          else if Status_Phase status \<noteq> ExecutionPhaseSucceeded
          then Some (Some (Errorf ''execution %s: phase=%s''
                 [AStr (Handle_ID h), AStr (Status_Phase status)]), w2)
          else Some (None, w2)))) = Some x"
    obtain st where st: "exec_Status E h (tock w) = (st, tock (tock w))"
      by (simp add: exec_Status_def)
    obtain u w2 evs where u: "ExecutionStore_UpdateStatus E Ctx eid (Status_Phase (projr st))
        (tock (tock w)) = (u, w2)" "job_steps w2 = job_steps w"
      by (rule ExecutionStore_UpdateStatus_log [of E Ctx eid "Status_Phase (projr st)" "tock (tock w)"])
        auto
    from eq st u show "job_steps (snd x) = job_steps w"
      by (cases st) (auto simp: exec_Cancel_def split: if_splits dest!: IH)
  qed
  then show ?thesis by simp
qed

text \<open>The part of the trace that \<open>executeAndPoll\<close> contributes.\<close>

definition exec_trace :: "env \<Rightarrow> ExecutionSpec \<Rightarrow> error option \<Rightarrow> event list \<Rightarrow> bool" where
  "exec_trace E spec r evs \<longleftrightarrow>
     (\<forall>sid fin. final_events sid r fin \<longrightarrow>
        step_trace E spec r (StepStatus sid statePending stateRunning # evs @ fin))"

lemma executeAndPoll_trace:
  assumes "executeAndPoll E sid spec w = Some (r, w')"
  shows "job_steps w' = job_steps w \<and> (\<exists>evs. log w' = log w @ evs \<and> exec_trace E spec r evs)"
proof (cases "ex_submit E (tick w) spec")
  case (Inl e)
  with assms show ?thesis
    by (auto simp: executeAndPoll_def exec_Submit_def exec_trace_def intro: step_trace.not_submitted)
next
  case (Inr h)
  let ?w = "(tock w)\<lparr>log := log w @ [Submitted spec h]\<rparr>"
  show ?thesis
  proof (cases rule: ExecutionStore_Create_cases [of E Ctx "new_execution sid h" ?w])
    case (failed e e0 n)
    with assms Inr show ?thesis
      by (auto simp: executeAndPoll_def exec_Submit_def exec_trace_def intro: step_trace.not_recorded)
  next
    case (created e0 i t n)
    let ?w1 = "?w\<lparr>tick := n, executions := executions ?w @ [e0]\<rparr>" and ?id = "Execution_ID e0"
    have p: "poll E ?id h ?w1 = Some (r, w')"
      using assms Inr created(1) by (simp add: executeAndPoll_def exec_Submit_def)
    have n: "tick w < n" using created(2) by simp
    have "\<exists>evs. log w' = log w @ evs \<and> exec_trace E spec r evs"
      using poll_outcome [OF p]
    proof
      assume "gave_up E ?id h ?w1 r w'"
      then obtain m evs where "r = Some (ctx_error E)" "ctx_done E m" "exec_events ?id evs"
        "log w' = log w @ Submitted spec h # evs @ [CancelCall h]"
        by (auto simp: gave_up_def)
      then show ?thesis
        by (intro exI [of _ "Submitted spec h # evs @ [CancelCall h]"])
          (auto simp: exec_trace_def intro: step_trace.gave_up)
    next
      assume "got_verdict E ?id h ?w1 r w'"
      then obtain m st evs where v: "n \<le> m" "ex_status E m h = Inr st" "ExecutionStatus_IsTerminal st"
        "r = phase_error h st" "exec_events ?id evs" "log w' = log w @ Submitted spec h # evs"
        by (auto simp: got_verdict_def)
      have "exec_trace E spec r (Submitted spec h # evs)"
        using v n step_trace.verdict [OF Inr _ v(2,3,5)] by (simp add: exec_trace_def)
      with v show ?thesis by blast
    qed
    with poll_steps_same [OF p] show ?thesis by simp
  qed
qed

lemma filter_fresh: "k \<notin> key ` set rows \<Longrightarrow> filter (\<lambda>r. key r = k) rows = []"
  by (auto simp: filter_empty_conv)

lemma filter_set_row:
  "(\<And>r. key (f r) = key r) \<Longrightarrow>
     filter (\<lambda>r. key r = k) (set_row key k f rows) = map f (filter (\<lambda>r. key r = k) rows)"
  by (induction rows) auto

text \<open>The update that starts a freshly created step, and the one that finishes it.\<close>

lemma start_step_log:
  assumes "JobStepStore_UpdateStatus E Ctx sid StageStateRunning w = (u, w')"
    and "filter (\<lambda>r. JobStep_ID r = sid) (job_steps w) = [x]" and "JobStep_Status x = statePending"
  shows "(\<exists>e. u = Some e) \<and> log w' = log w \<or>
    u = None \<and> log w' = log w @ [StepStatus sid statePending stateRunning] \<and>
      (\<exists>y. filter (\<lambda>r. JobStep_ID r = sid) (job_steps w') = [y] \<and> JobStep_Status y = stateRunning)"
proof (cases rule: JobStepStore_UpdateStatus_cases [of E Ctx sid StageStateRunning w])
  case (unsent e)
  with assms have "u = Some e" "w' = w\<lparr>tick := tick w + 2\<rparr>" by simp_all
  then show ?thesis by simp
next
  case (sent f)
  have "hits JobStep_ID sid (job_steps w) = 1" by (simp add: hits_def assms(2))
  with sent assms show ?thesis
    by (auto simp: filter_set_row ensureRowsAffected_def StageStateRunning_def)
qed

lemma finish_step_log:
  assumes "JobStepStore_UpdateStatus E c sid (final_state r) w = (u, w')"
    and "filter (\<lambda>r. JobStep_ID r = sid) (job_steps w) = [x]" and "JobStep_Status x = stateRunning"
  shows "\<exists>fin. final_events sid r fin \<and> log w' = log w @ fin"
proof (cases rule: JobStepStore_UpdateStatus_cases [of E c sid "final_state r" w])
  case (unsent e)
  with assms show ?thesis by (auto simp: final_events_def)
next
  case (sent f)
  with assms show ?thesis by (auto simp: final_events_def)
qed

lemma runStep_traced:
  assumes "runStep E jobID name order grp spec w = Some (r, w')"
  shows "\<exists>evs. log w' = log w @ evs \<and> step_trace E spec r evs"
proof (cases rule: JobStepStore_Create_cases [of E Ctx "new_step jobID name order grp" w])
  case (failed e s' n)
  with assms show ?thesis by (auto simp: runStep_def intro: step_trace.not_started)
next
  case (created s' i t n)
  let ?w1 = "w\<lparr>tick := n, job_steps := job_steps w @ [s']\<rparr>"
  obtain u w2 where u: "JobStepStore_UpdateStatus E Ctx i StageStateRunning ?w1 = (u, w2)" by fastforce
  have s': "JobStep_ID s' = i" "JobStep_Status s' = statePending"
    using created(3) by (auto simp: new_step_def statePending_def)
  have row: "filter (\<lambda>r. JobStep_ID r = i) (job_steps ?w1) = [s']"
    using created(4) s' by (simp add: filter_fresh)
  show ?thesis
  proof (cases u)
    case (Some e)
    with assms created(1) u s' have "r = Some (Wrapf ''start step %q: %w'' [AStr name] e)" "w' = w2"
      by (auto simp: runStep_def)
    with start_step_log [OF u row s'(2)] Some show ?thesis by (auto intro: step_trace.not_started)
  next
    case None
    with start_step_log [OF u row s'(2)] obtain y where
      w2: "log w2 = log w @ [StepStatus i statePending stateRunning]"
      "filter (\<lambda>r. JobStep_ID r = i) (job_steps w2) = [y]" "JobStep_Status y = stateRunning"
      by auto
    obtain r3 w3 where x: "executeAndPoll E i spec w2 = Some (r3, w3)"
      using assms created(1) u s' None by (auto simp: runStep_def split: option.splits)
    obtain u4 where u4: "JobStepStore_UpdateStatus E WithoutCancel i (final_state r) w3 = (u4, w')"
      and r: "r3 = r"
      using assms created(1) u s' None x by (auto simp: runStep_def split: prod.splits)
    from executeAndPoll_trace [OF x] r obtain evs where
      w3: "job_steps w3 = job_steps w2" "log w3 = log w2 @ evs" "exec_trace E spec r evs" by auto
    from finish_step_log [OF u4] w2 w3 obtain fin where
      "final_events i r fin" "log w' = log w3 @ fin" by auto
    with w2 w3 show ?thesis by (auto simp: exec_trace_def)
  qed
qed

text \<open>
  C12: whatever the outside does, a call of \<open>runStep\<close> that returns has followed one of the five
  traces: nothing logged and an error; started but not submitted; submitted but not recorded;
  cancelled at the executor exactly when it returns the context's error out of the wait; or
  ended by the verdict of a terminal phase reported by the executor after the submission, with
  no error exactly for the phase \<open>succeeded\<close>. The step is moved pending to running first and
  from running to succeeded or failed last.
\<close>

theorem runStep_trace:
  assumes "runStep E jobID name order grp spec w = Some (r, w')"
  shows "\<exists>evs. log w' = log w @ evs \<and> step_trace E spec r evs"
  using assms by (rule runStep_traced)

end
