(* ===== verification/Samples.thy ===== *)
theory Samples
  imports World
begin

text \<open>
  A concrete environment and world: identifiers are odd numbers, every call succeeds, nothing is cancelled, and the executor
  reports success at the first poll. The tables hold one project, repository and pipeline with a
  pending run. The properties of the development are exercised on them.
\<close>

definition sample_status :: ExecutionStatus where
  "sample_status = \<lparr>Status_Phase = ExecutionPhaseSucceeded, Status_StartedAt = None,
     Status_FinishedAt = None, Status_ExitCode = None, Status_Message = ''''\<rparr>"

definition calm_env :: env where
  "calm_env = \<lparr>uuid_new = (\<lambda>n. 2 * of_nat n + 1), time_now = int, db_fault = (\<lambda>_. None),
     ctx_done_from = None, ctx_error = CtxCanceled, pick_ticker = (\<lambda>_. True),
     ex_submit = (\<lambda>_ _. Inr (ExecutionHandle ''job-1'')), ex_status = (\<lambda>_ _. Inr sample_status),
     ex_cancel = (\<lambda>_ _. None), sched = (\<lambda>n k. n + k), uuid_str = (\<lambda>u. ''id-'' @ replicate (unat u) CHR ''1'')\<rparr>"

definition sample_run :: PipelineRun where
  "sample_run = \<lparr>PipelineRun_ID = PipelineRunID 4, PipelineRun_PipelineID = PipelineID 3,
     PipelineRun_GitRef = ''refs/heads/main'', PipelineRun_GitSHA = ''abc'',
     PipelineRun_Status = ''pending'', PipelineRun_CreatedAt = 0, PipelineRun_StartedAt = None,
     PipelineRun_FinishedAt = None\<rparr>"

definition sample_job :: Job where
  "sample_job = \<lparr>Job_ID = JobID 5, Job_PipelineRunID = PipelineRunID 4, Job_JobType = ''build'',
     Job_Name = ''build'', Job_Status = ''running'', Job_CreatedAt = 0, Job_StartedAt = Some 0,
     Job_FinishedAt = None\<rparr>"

definition sample_world :: world where
  "sample_world = \<lparr>tick = 10,
     projects = [\<lparr>Project_ID = ProjectID 1, Project_Name = ''demo'', Project_Description = None,
       Project_CreatedAt = 0, Project_UpdatedAt = 0\<rparr>],
     repositories = [\<lparr>Repository_ID = RepositoryID 2, Repository_ProjectID = ProjectID 1,
       Repository_VCSProvider = ''git'', Repository_CloneURL = ''https://example.com/r.git'',
       Repository_DefaultBranch = ''main'', Repository_CreatedAt = 0, Repository_UpdatedAt = 0\<rparr>],
     pipelines = [\<lparr>Pipeline_ID = PipelineID 3, Pipeline_RepositoryID = RepositoryID 2,
       Pipeline_Name = ''ci'', Pipeline_TriggerType = ''push'', Pipeline_CreatedAt = 0,
       Pipeline_UpdatedAt = 0\<rparr>],
     pipeline_runs = [sample_run], jobs = [sample_job], job_steps = [], artifacts = [],
     executions = [], log = []\<rparr>"

definition sample_spec :: ExecutionSpec where
  "sample_spec = \<lparr>Spec_Image = ''builder'', Spec_Command = [''sh'', ''-c'', ''make''], Spec_Env = [],
     Spec_Artifacts = [], Spec_Timeout = 0\<rparr>"

lemma calm_env_sel [simp]:
  "uuid_new calm_env n = 2 * of_nat n + 1" "time_now calm_env n = int n" "db_fault calm_env n = None"
  "ctx_done_from calm_env = None" "ex_submit calm_env n spec = Inr (ExecutionHandle ''job-1'')"
  "ex_status calm_env n h = Inr sample_status" "ctx_error calm_env = CtxCanceled"
  by (simp_all add: calm_env_def)

lemma sample_world_sel [simp]:
  "tick sample_world = 10" "pipeline_runs sample_world = [sample_run]"
  "jobs sample_world = [sample_job]" "job_steps sample_world = []" "artifacts sample_world = []"
  "executions sample_world = []" "log sample_world = []"
  by (simp_all add: sample_world_def)

lemma calm_ctx [simp]: "ctx_done calm_env n = False" "db_up calm_env c n"
  by (simp_all add: ctx_done_def db_up_def ctx_Err_def)

lemma sample_status_terminal [simp]:
  "ExecutionStatus_IsTerminal sample_status" "Status_Phase sample_status = ExecutionPhaseSucceeded"
  by (simp_all add: sample_status_def IsTerminal_cases)

end
