(* ===== verification/StepFns.thy ===== *)
theory StepFns
  imports StepProgress Samples
begin

text \<open>
  \<open>StepFn\<close>, the function type through which the buildinator, the testinator and the deployinator
  run a step. The locale \<open>step_function\<close> states what they rely on; the orchestrator's
  \<open>runStep\<close> provides it.
\<close>

type_synonym StepFn = "JobID \<Rightarrow> string \<Rightarrow> int \<Rightarrow> string option \<Rightarrow> ExecutionSpec \<Rightarrow> world \<Rightarrow>
  (error option \<times> world) option"

section \<open>What a step leaves behind\<close>

text \<open>
  The columns of a step row that a call fixes, and the specifications the executor accepted
  according to a piece of the log.
\<close>

type_synonym step_ident = "JobID \<times> string \<times> int option \<times> string option"

definition step_ident :: "JobStep \<Rightarrow> step_ident" where
  "step_ident s = (JobStep_JobID s, JobStep_Name s, JobStep_ExecutionOrder s, JobStep_ParallelGroup s)"

fun submissions :: "event list \<Rightarrow> ExecutionSpec list" where
  "submissions [] = []"
| "submissions (Submitted spec _ # evs) = spec # submissions evs"
| "submissions (_ # evs) = submissions evs"

lemma submissions_append [simp]: "submissions (xs @ ys) = submissions xs @ submissions ys"
  by (induction xs rule: submissions.induct) simp_all

lemma submissions_exec_events [simp]: "exec_events eid evs \<Longrightarrow> submissions evs = []"
  by (induction evs rule: submissions.induct) (auto simp: exec_events_def)

lemma submissions_final_events [simp]: "final_events sid r evs \<Longrightarrow> submissions evs = []"
  by (auto simp: final_events_def)

lemma phase_error_None: "phase_error h st = None \<longleftrightarrow> Status_Phase st = ExecutionPhaseSucceeded"
  by (simp add: phase_error_def)

lemma step_trace_submissions:
  "step_trace E spec r evs \<Longrightarrow> submissions evs \<in> {[], [spec]} \<and> (r = None \<longrightarrow> submissions evs = [spec])"
  by (induction rule: step_trace.induct) auto

text \<open>At most one item, and that item when there was no error.\<close>

definition at_most_one :: "error option \<Rightarrow> 'a \<Rightarrow> 'a list \<Rightarrow> bool" where
  "at_most_one r x xs \<longleftrightarrow> xs = [] \<and> r \<noteq> None \<or> xs = [x]"

section \<open>The contract of a step function\<close>

locale step_function =
  fixes E :: env and step :: StepFn
  assumes step_ran: "step jobID name order grp spec w = Some (r, w') \<Longrightarrow> steps_ready w \<Longrightarrow>
      steps_ran E w w'"
    and step_rows: "step jobID name order grp spec w = Some (r, w') \<Longrightarrow>
      \<exists>new. map step_ident (job_steps w') = map step_ident (job_steps w) @ new \<and>
            at_most_one r (jobID, name, Some order, grp) new"
    and step_submits: "step jobID name order grp spec w = Some (r, w') \<Longrightarrow>
      \<exists>evs. log w' = log w @ evs \<and> at_most_one r spec (submissions evs)"
    and step_returns: "settled E \<Longrightarrow> \<exists>r w'. step jobID name order grp spec w = Some (r, w')"

lemma step_ident_set_step [simp]: "step_ident (set_step s st fi x) = step_ident x"
  by (simp add: step_ident_def set_step_def)

lemma map_set_row: "(\<And>r. g (f r) = g r) \<Longrightarrow> map g (set_row key k f rows) = map g rows"
  by (induction rows) auto

lemma UpdateStatus_idents:
  "map step_ident (job_steps (snd (JobStepStore_UpdateStatus E c k s w))) =
   map step_ident (job_steps w)"
  by (cases rule: JobStepStore_UpdateStatus_cases [of E c k s w]) (simp_all add: map_set_row)

lemma runStep_rows:
  assumes "runStep E jobID name order grp spec w = Some (r, w')"
  shows "\<exists>new. map step_ident (job_steps w') = map step_ident (job_steps w) @ new \<and>
    at_most_one r (jobID, name, Some order, grp) new"
proof (cases rule: JobStepStore_Create_cases [of E Ctx "new_step jobID name order grp" w])
  case (failed e s' n)
  with assms show ?thesis by (auto simp: runStep_def at_most_one_def)
next
  case (created s' i t n)
  let ?w1 = "w\<lparr>tick := n, job_steps := job_steps w @ [s']\<rparr>"
  have ident: "step_ident s' = (jobID, name, Some order, grp)" and id: "JobStep_ID s' = i"
    by (simp_all add: created(3) new_step_def step_ident_def)
  obtain u w2 where u: "JobStepStore_UpdateStatus E Ctx i StageStateRunning ?w1 = (u, w2)" by fastforce
  have "map step_ident (job_steps w2) = map step_ident (job_steps w) @ [step_ident s']"
    using UpdateStatus_idents [of E Ctx i StageStateRunning ?w1] by (simp add: u)
  moreover have "map step_ident (job_steps w') = map step_ident (job_steps w2)"
  proof (cases u)
    case (Some e)
    with assms created(1) u id show ?thesis by (auto simp: runStep_def)
  next
    case None
    then obtain r3 w3 where x: "executeAndPoll E i spec w2 = Some (r3, w3)"
      using assms created(1) u id by (auto simp: runStep_def split: option.splits)
    then have "w' = snd (JobStepStore_UpdateStatus E WithoutCancel i (final_state r3) w3)"
      using assms created(1) u id None by (auto simp: runStep_def split: prod.splits)
    with executeAndPoll_trace [OF x] show ?thesis by (simp add: UpdateStatus_idents)
  qed
  ultimately show ?thesis by (simp add: ident at_most_one_def)
qed

interpretation orchestrator_step: step_function E "runStep E" for E
proof unfold_locales
  fix jobID name order grp spec w r w'
  assume run: "runStep E jobID name order grp spec w = Some (r, w')"
  show "steps_ready w \<Longrightarrow> steps_ran E w w'"
    using run by (rule runStep_ran)
  show "\<exists>new. map step_ident (job_steps w') = map step_ident (job_steps w) @ new \<and>
      at_most_one r (jobID, name, Some order, grp) new"
    using run by (rule runStep_rows)
  from runStep_traced [OF run] obtain evs where "log w' = log w @ evs" "step_trace E spec r evs"
    by blast
  then show "\<exists>evs. log w' = log w @ evs \<and> at_most_one r spec (submissions evs)"
    using step_trace_submissions [of E spec r evs] by (auto simp: at_most_one_def)
qed (rule settled_runStep)

section \<open>Sequencing fallible calls\<close>

text \<open>
  The pattern \<open>if err := f(); err != nil { return err }\<close>, for a call that may never return.
\<close>

definition and_then :: "(error option \<times> world) option \<Rightarrow> (world \<Rightarrow> (error option \<times> world) option) \<Rightarrow>
    (error option \<times> world) option" where
  "and_then m k = (case m of
     None \<Rightarrow> None
   | Some (Some e, w1) \<Rightarrow> Some (Some e, w1)
   | Some (None, w1) \<Rightarrow> k w1)"

lemma and_then_SomeE:
  assumes "and_then m k = Some (r, w')"
  obtains (stop) e where "m = Some (Some e, w')" "r = Some e"
  | (go) w1 where "m = Some (None, w1)" "k w1 = Some (r, w')"
  using assms by (auto simp: and_then_def split: option.splits)

lemma and_then_returns:
  "\<exists>r w1. m = Some (r, w1) \<Longrightarrow> (\<And>w1. \<exists>r w'. k w1 = Some (r, w')) \<Longrightarrow>
     \<exists>r w'. and_then m k = Some (r, w')"
  by (auto simp: and_then_def split: option.splits)

section \<open>Work that may also register artifacts\<close>

text \<open>
  The summary \<open>steps_ran\<close>, with rows added at the end of the artifacts table.
\<close>

definition work_ran :: "env \<Rightarrow> world \<Rightarrow> world \<Rightarrow> bool" where
  "work_ran E w w' \<longleftrightarrow>
     steps_ran E w (w'\<lparr>artifacts := artifacts w\<rparr>) \<and> (\<exists>as. artifacts w' = artifacts w @ as)"

lemma steps_ready_artifacts [simp]: "steps_ready (w\<lparr>artifacts := x\<rparr>) = steps_ready w"
  by (simp add: steps_ready_def log_ok_def)

lemma steps_ran_artifacts [simp]:
  "steps_ran E (w\<lparr>artifacts := x\<rparr>) (w'\<lparr>artifacts := x\<rparr>) \<longleftrightarrow>
     steps_ran E w (w'\<lparr>artifacts := artifacts w\<rparr>)"
  by (simp add: steps_ran_def same_but_steps_def running_steps_def log_ok_def)

lemma steps_ran_work:
  assumes "steps_ran E w w'"
  shows "work_ran E w w'"
proof -
  have same: "artifacts w' = artifacts w"
    using assms by (simp add: steps_ran_def same_but_steps_def)
  then have eq: "w'\<lparr>artifacts := artifacts w\<rparr> = w'" by simp
  show ?thesis unfolding work_ran_def eq using assms same by simp
qed

lemma work_ran_ready: "work_ran E w w' \<Longrightarrow> steps_ready w'"
  using steps_ran_ready [of E w "w'\<lparr>artifacts := artifacts w\<rparr>"] by (simp add: work_ran_def)

lemma work_ran_refl: "steps_ready w \<Longrightarrow> work_ran E w w"
  by (simp add: steps_ran_work steps_ran_refl)

lemma work_ran_trans:
  assumes "work_ran E w1 w2" and "work_ran E w2 w3"
  shows "work_ran E w1 w3"
proof -
  have "steps_ran E (w2\<lparr>artifacts := artifacts w1\<rparr>) (w3\<lparr>artifacts := artifacts w1\<rparr>)"
    using assms(2) by (simp add: work_ran_def)
  with assms show ?thesis unfolding work_ran_def by (metis append.assoc steps_ran_trans)
qed

lemma artifact_created_ran:
  assumes "steps_ready w" and "tick w \<le> n"
  shows "work_ran E w (w\<lparr>tick := n, artifacts := artifacts w @ as\<rparr>)"
  using assms by (auto simp: work_ran_def steps_ran_def steps_ready_def same_but_steps_def
      running_steps_def log_ok_def)

lemma tick_ran: "steps_ready w \<Longrightarrow> tick w \<le> n \<Longrightarrow> work_ran E w (w\<lparr>tick := n\<rparr>)"
  using artifact_created_ran [of w n E "[]"] by simp

section \<open>The step machine adds one row and submits once\<close>

definition thread_ident :: "step_thread \<Rightarrow> step_ident" where
  "thread_ident t = (th_job t, th_name t, Some (th_order t), th_group t)"

definition row_made :: "step_thread \<Rightarrow> bool" where
  "row_made t \<longleftrightarrow> (case th_pc t of AtCreate \<Rightarrow> False | Returned (Some _) \<Rightarrow> False | _ \<Rightarrow> True)"

definition to_submit :: "step_thread \<Rightarrow> bool" where
  "to_submit t \<longleftrightarrow> (case th_pc t of
     AtCreate \<Rightarrow> True | AtStart _ \<Rightarrow> True | AtSubmit _ \<Rightarrow> True | _ \<Rightarrow> False)"

definition was_submitted :: "step_thread \<Rightarrow> bool" where
  "was_submitted t \<longleftrightarrow> (case th_pc t of
     AtCreate \<Rightarrow> False | AtStart _ \<Rightarrow> False | AtSubmit _ \<Rightarrow> False
   | AtFinal _ r \<Rightarrow> r = None | Returned r \<Rightarrow> r = None | _ \<Rightarrow> True)"

lemma UpdateStatus_submissions:
  "submissions (log (snd (JobStepStore_UpdateStatus E c k s w))) = submissions (log w)"
  "submissions (log (snd (ExecutionStore_UpdateStatus E c x s w))) = submissions (log w)"
proof -
  have none: "submissions (map (\<lambda>y. StepStatus k (f y) s) ys) = []" for f ys
    by (induction ys) simp_all
  have none2: "submissions (map (\<lambda>y. ExecStatus x (g y) s) zs) = []" for g zs
    by (induction zs) simp_all
  show "submissions (log (snd (JobStepStore_UpdateStatus E c k s w))) = submissions (log w)"
    by (cases rule: JobStepStore_UpdateStatus_cases [of E c k s w]) (simp_all add: none)
  show "submissions (log (snd (ExecutionStore_UpdateStatus E c x s w))) = submissions (log w)"
    by (cases rule: ExecutionStore_UpdateStatus_cases [of E c x s w]) (simp_all add: none2)
qed

lemma ExecutionStore_steps:
  "job_steps (snd (ExecutionStore_UpdateStatus E c x s w)) = job_steps w"
  "job_steps (snd (snd (ExecutionStore_Create E c e w))) = job_steps w"
  "log (snd (snd (ExecutionStore_Create E c e w))) = log w"
  by (cases rule: ExecutionStore_UpdateStatus_cases [of E c x s w]; simp)
    (cases rule: ExecutionStore_Create_cases [of E c e w]; simp)+

lemma JobStepStore_Create_log:
  "log (snd (snd (JobStepStore_Create E c x w))) = log w"
  by (cases rule: JobStepStore_Create_cases [of E c x w]) simp_all

lemma step_adv_args:
  "step_res t = None \<Longrightarrow> thread_ident (fst (step_adv E t w)) = thread_ident t"
  "step_res t = None \<Longrightarrow> th_spec (fst (step_adv E t w)) = th_spec t"
  by (simp_all add: step_adv_def thread_ident_def split: prod.split)

interpretation step_row: emitting_machine "step_adv E" step_res
    "\<lambda>w. map step_ident (job_steps w)" thread_ident "\<lambda>t. th_pc t = AtCreate" row_made for E
proof unfold_locales
  fix t w
  show "step_res t = None \<Longrightarrow> thread_ident (fst (step_adv E t w)) = thread_ident t"
    by (rule step_adv_args)
  show "step_res t = Some None \<Longrightarrow> row_made t"
    by (auto simp: step_res_def row_made_def split: pc.splits)
  assume live: "step_res t = None"
  let ?t = "fst (step_adv E t w)" and ?w = "snd (step_adv E t w)"
  show "map step_ident (job_steps ?w) = map step_ident (job_steps w) \<and>
      (th_pc ?t = AtCreate \<longrightarrow> th_pc t = AtCreate) \<and> (row_made ?t \<longrightarrow> row_made t) \<or>
    map step_ident (job_steps ?w) = map step_ident (job_steps w) @ [thread_ident t] \<and>
      th_pc t = AtCreate \<and> th_pc ?t \<noteq> AtCreate"
  proof (cases "th_pc t")
    case AtCreate
    show ?thesis
      by (cases rule: JobStepStore_Create_cases
          [of E Ctx "new_step (th_job t) (th_name t) (th_order t) (th_group t)" w])
        (simp_all add: step_adv_def pc_adv_def AtCreate row_made_def thread_ident_def step_ident_def
          new_step_def)
  next
    case (AtStart sid)
    then show ?thesis
      using UpdateStatus_idents [of E Ctx sid StageStateRunning w]
      by (auto simp: step_adv_def pc_adv_def row_made_def split: prod.splits option.splits)
  next
    case (AtFinal sid r)
    then show ?thesis
      using UpdateStatus_idents [of E WithoutCancel sid "final_state r" w]
      by (auto simp: step_adv_def pc_adv_def row_made_def split: prod.splits option.splits)
  next
    case (AtRecord sid h)
    then show ?thesis
      using ExecutionStore_steps(2) [of E Ctx "new_execution sid h" w]
      by (auto simp: step_adv_def pc_adv_def row_made_def split: prod.splits option.splits)
  next
    case (AtUpdate sid eid h st)
    then show ?thesis
      using ExecutionStore_steps(1) [of E Ctx eid "Status_Phase st" w]
      by (auto simp: step_adv_def pc_adv_def row_made_def split: prod.splits option.splits)
  qed (use live in \<open>auto simp: step_adv_cases row_made_def split: sum.splits\<close>)
qed

interpretation step_submission: emitting_machine "step_adv E" step_res
    "\<lambda>w. submissions (log w)" th_spec to_submit was_submitted for E
proof unfold_locales
  fix t w
  show "step_res t = None \<Longrightarrow> th_spec (fst (step_adv E t w)) = th_spec t"
    by (rule step_adv_args)
  show "step_res t = Some None \<Longrightarrow> was_submitted t"
    by (auto simp: step_res_def was_submitted_def split: pc.splits)
  assume live: "step_res t = None"
  let ?t = "fst (step_adv E t w)" and ?w = "snd (step_adv E t w)"
  show "submissions (log ?w) = submissions (log w) \<and> (to_submit ?t \<longrightarrow> to_submit t) \<and>
      (was_submitted ?t \<longrightarrow> was_submitted t) \<or>
    submissions (log ?w) = submissions (log w) @ [th_spec t] \<and> to_submit t \<and> \<not> to_submit ?t"
  proof (cases "th_pc t")
    case AtCreate
    then show ?thesis
      using JobStepStore_Create_log [of E Ctx "new_step (th_job t) (th_name t) (th_order t) (th_group t)" w]
      by (auto simp: step_adv_def pc_adv_def to_submit_def was_submitted_def
          split: prod.splits option.splits)
  next
    case (AtStart sid)
    then show ?thesis
      using UpdateStatus_submissions(1) [of E Ctx sid StageStateRunning w]
      by (auto simp: step_adv_def pc_adv_def to_submit_def was_submitted_def
          split: prod.splits option.splits)
  next
    case (AtFinal sid r)
    then show ?thesis
      using UpdateStatus_submissions(1) [of E WithoutCancel sid "final_state r" w]
      by (auto simp: step_adv_def pc_adv_def to_submit_def was_submitted_def
          split: prod.splits option.splits)
  next
    case (AtRecord sid h)
    then show ?thesis
      using ExecutionStore_steps(3) [of E Ctx "new_execution sid h" w]
      by (auto simp: step_adv_def pc_adv_def to_submit_def was_submitted_def
          split: prod.splits option.splits)
  next
    case (AtUpdate sid eid h st)
    then show ?thesis
      using UpdateStatus_submissions(2) [of E Ctx eid "Status_Phase st" w]
      by (auto simp: step_adv_def pc_adv_def to_submit_def was_submitted_def
          split: prod.splits option.splits)
  qed (use live in \<open>auto simp: step_adv_cases to_submit_def was_submitted_def split: sum.splits\<close>)
qed

section \<open>The contract on the sample environment\<close>

lemma calm_settled: "settled calm_env"
  by (auto simp: settled_def verdict_settled_def)

lemma sample_ready: "steps_ready sample_world"
  by (simp add: steps_ready_def log_ok_def)

theorem runStep_trace_witness:
  "\<exists>r w' evs. runStep calm_env (JobID 5) ''compile'' 0 None sample_spec sample_world = Some (r, w') \<and>
     log w' = [] @ evs \<and> step_trace calm_env sample_spec r evs"
proof -
  obtain r w' where run: "runStep calm_env (JobID 5) ''compile'' 0 None sample_spec sample_world = Some (r, w')"
    using settled_runStep [OF calm_settled] by blast
  from runStep_trace [OF run] run show ?thesis by simp
qed

end
