(* ===== verification/Paths.thy ===== *)
theory Paths
  imports Prelude
begin

text \<open>
  \<open>path/filepath\<close> on Unix, as far as the artifact code uses it: \<open>filepath.Join\<close> and the
  \<open>filepath.Clean\<close> it ends with. A path is read as a root flag and a list of components; the
  lemmas show that joining a plain name appends one component, so that different names give
  different paths.
\<close>

section \<open>Clean and Join\<close>

fun split_on :: "char \<Rightarrow> string \<Rightarrow> string list" where
  "split_on c [] = [[]]"
| "split_on c (x # xs) =
    (if x = c then [] # split_on c xs
     else (case split_on c xs of [] \<Rightarrow> [[x]] | y # ys \<Rightarrow> (x # y) # ys))"

fun join_with :: "char \<Rightarrow> string list \<Rightarrow> string" where
  "join_with c [] = []"
| "join_with c [x] = x"
| "join_with c (x # y # ys) = x @ c # join_with c (y # ys)"

abbreviation slash :: char where "slash \<equiv> CHR ''/''"

text \<open>
  One component of the lexical processing; \<open>out\<close> holds the components kept so far, the last one
  first.
\<close>

definition clean_step :: "bool \<Rightarrow> string \<Rightarrow> string list \<Rightarrow> string list" where
  "clean_step rooted part out =
    (if part = '''' \<or> part = ''.'' then out
     else if part = ''..'' then
       (case out of
          [] \<Rightarrow> if rooted then [] else [''..'']
        | c # cs \<Rightarrow> if c = ''..'' then ''..'' # out else cs)
     else part # out)"

definition path_root :: "string \<Rightarrow> bool" where
  "path_root p \<longleftrightarrow> (case p of [] \<Rightarrow> False | c # _ \<Rightarrow> c = slash)"

definition path_comps :: "string \<Rightarrow> string list" where
  "path_comps p = rev (fold (clean_step (path_root p)) (split_on slash p) [])"

definition render :: "bool \<Rightarrow> string list \<Rightarrow> string" where
  "render rooted cs =
    (if rooted then slash # join_with slash cs
     else if cs = [] then ''.'' else join_with slash cs)"

definition filepath_Clean :: "string \<Rightarrow> string" where
  "filepath_Clean p = render (path_root p) (path_comps p)"

definition filepath_Join :: "string list \<Rightarrow> string" where
  "filepath_Join es =
    (case dropWhile (\<lambda>e. e = '''') es of
       [] \<Rightarrow> '''' | es' \<Rightarrow> filepath_Clean (join_with slash es'))"

section \<open>Components\<close>

definition plain :: "string \<Rightarrow> bool" where
  "plain c \<longleftrightarrow> c \<noteq> '''' \<and> c \<noteq> ''.'' \<and> c \<noteq> ''..'' \<and> slash \<notin> set c"

lemma plain_step [simp]: "plain c \<Longrightarrow> clean_step r c out = c # out"
  by (simp add: clean_step_def plain_def)

lemma split_on_not_Nil [simp]: "split_on c xs \<noteq> []"
  by (cases xs) (auto split: list.splits)

lemma split_on_single: "c \<notin> set x \<Longrightarrow> split_on c x = [x]"
  by (induction x) auto

lemma split_on_append: "split_on c (xs @ c # ys) = split_on c xs @ split_on c ys"
  by (induction xs) (auto split: list.splits)

lemma split_on_no_sep: "x \<in> set (split_on c xs) \<Longrightarrow> c \<notin> set x"
  by (induction xs arbitrary: x) (auto split: list.splits if_splits)

lemma split_on_join:
  "cs \<noteq> [] \<Longrightarrow> \<forall>x\<in>set cs. c \<notin> set x \<Longrightarrow> split_on c (join_with c cs) = cs"
  by (induction c cs rule: join_with.induct) (auto simp: split_on_single split_on_append)

lemma path_comps_snoc:
  assumes "plain a"
  shows "path_comps (p @ slash # a) = (if p = [] then [a] else path_comps p @ [a])"
proof -
  have "split_on slash (p @ slash # a) = split_on slash p @ [a]"
    using assms by (simp add: split_on_append split_on_single plain_def)
  moreover have "path_root (p @ slash # a) = path_root p" if "p \<noteq> []"
    using that by (cases p) (simp_all add: path_root_def)
  ultimately show ?thesis
    using assms by (simp add: path_comps_def) (simp add: clean_step_def)
qed

lemma Join_plain:
  assumes "plain a"
  shows "filepath_Join [p, a] = render (path_root p) (path_comps p @ [a])"
proof (cases "p = []")
  case True
  with assms show ?thesis
    by (cases a)
      (auto simp: filepath_Join_def filepath_Clean_def path_root_def path_comps_def plain_def
        split_on_single clean_step_def)
next
  case False
  then have "path_root (p @ slash # a) = path_root p"
    by (cases p) (simp_all add: path_root_def)
  with False assms show ?thesis
    by (simp add: filepath_Join_def filepath_Clean_def path_comps_snoc)
qed

section \<open>Clean paths determine their components\<close>

text \<open>The lists of components that \<open>Clean\<close> leaves: leading \<open>..\<close> only below no root.\<close>

definition normal :: "bool \<Rightarrow> string list \<Rightarrow> bool" where
  "normal r cs \<longleftrightarrow>
     (\<exists>k ps. cs = replicate k ''..'' @ ps \<and> list_all plain ps \<and> (r \<longrightarrow> k = 0))"

lemma normal_snoc: "normal r cs \<Longrightarrow> plain a \<Longrightarrow> normal r (cs @ [a])"
  unfolding normal_def by (fastforce simp: list_all_iff)

lemma normal_clean_step:
  assumes "normal r (rev out)" and "slash \<notin> set c"
  shows "normal r (rev (clean_step r c out))"
proof -
  obtain k ps where ps: "rev out = replicate k ''..'' @ ps" "list_all plain ps" "r \<longrightarrow> k = 0"
    using assms(1) by (auto simp: normal_def)
  have out: "out = rev ps @ replicate k ''..''"
    using arg_cong [OF ps(1), of rev] by simp
  show ?thesis
  proof (cases "c = ''..''")
    case True
    show ?thesis
    proof (cases ps rule: rev_cases)
      case Nil
      then have "rev (clean_step r c out) = (if r then [] else replicate (Suc k) ''..'')"
        using True out ps(3) by (cases k) (simp_all add: clean_step_def replicate_append_same)
      then show ?thesis by (auto simp: normal_def intro!: exI [of _ "Suc k"])
    next
      case (snoc qs q)
      with ps(2) have "q \<noteq> ''..''" "list_all plain qs" by (simp_all add: plain_def)
      with snoc True out have "rev (clean_step r c out) = replicate k ''..'' @ qs"
        by (simp add: clean_step_def)
      with ps(3) \<open>list_all plain qs\<close> show ?thesis unfolding normal_def by blast
    qed
  next
    case False
    then have "clean_step r c out = out \<or> plain c \<and> clean_step r c out = c # out"
      using assms(2) by (auto simp: clean_step_def plain_def)
    with assms(1) normal_snoc [of r "rev out" c] show ?thesis by auto
  qed
qed

lemma normal_fold:
  "normal r (rev out) \<Longrightarrow> \<forall>c\<in>set cs. slash \<notin> set c \<Longrightarrow> normal r (rev (fold (clean_step r) cs out))"
  by (induction cs arbitrary: out) (simp_all add: normal_clean_step)

lemma normal_path_comps: "normal (path_root p) (path_comps p)"
  unfolding path_comps_def
  by (rule normal_fold) (auto simp: normal_def dest: split_on_no_sep)

lemma fold_plain: "list_all plain ps \<Longrightarrow> fold (clean_step r) ps out = rev ps @ out"
  by (induction ps arbitrary: out) simp_all

lemma dotdot_step: "clean_step False ''..'' (replicate m ''..'') = replicate (Suc m) ''..''"
  by (cases m) (simp_all add: clean_step_def)

lemma fold_dotdot: "fold (clean_step False) (replicate k ''..'') [] = replicate k ''..''"
proof (induction k)
  case (Suc k)
  have "replicate (Suc k) ''..'' = replicate k ''..'' @ [''..'']"
    by (simp add: replicate_append_same)
  then have "fold (clean_step False) (replicate (Suc k) ''..'') [] =
      clean_step False ''..'' (fold (clean_step False) (replicate k ''..'') [])"
    by (simp only: fold_append fold.simps comp_apply id_apply)
  with Suc show ?case by (simp only: dotdot_step)
qed simp

lemma fold_normal:
  assumes "normal r cs"
  shows "rev (fold (clean_step r) cs []) = cs"
proof -
  obtain k ps where ps: "cs = replicate k ''..'' @ ps" "list_all plain ps" "r \<longrightarrow> k = 0"
    using assms by (auto simp: normal_def)
  have "fold (clean_step r) (replicate k ''..'') [] = replicate k ''..''"
  proof (cases r)
    case True
    with ps(3) show ?thesis by simp
  next
    case False
    then show ?thesis using fold_dotdot [of k] by (simp only:)
  qed
  then have "fold (clean_step r) cs [] = rev ps @ replicate k ''..''"
    unfolding ps(1) fold_append comp_apply by (simp only: fold_plain [OF ps(2)])
  then have "rev (fold (clean_step r) cs []) = replicate k ''..'' @ ps"
    by (simp only: rev_append rev_rev_ident rev_replicate)
  then show ?thesis by (rule trans [OF _ ps(1) [symmetric]])
qed

lemma normal_no_slash:
  assumes "normal r cs"
  shows "\<forall>c\<in>set cs. slash \<notin> set c \<and> c \<noteq> []"
proof
  fix c assume "c \<in> set cs"
  moreover obtain k ps where "cs = replicate k ''..'' @ ps" "list_all plain ps"
    using assms unfolding normal_def by blast
  ultimately have "c = ''..'' \<or> plain c" by (auto simp: list_all_iff)
  then show "slash \<notin> set c \<and> c \<noteq> []" by (auto simp: plain_def)
qed

lemma render_comps:
  assumes "normal r cs"
  shows "path_root (render r cs) = r \<and> path_comps (render r cs) = cs"
proof (cases "cs = []")
  case True
  then show ?thesis
    by (cases r) (simp_all add: render_def path_root_def path_comps_def clean_step_def)
next
  case False
  have ok: "\<forall>c\<in>set cs. slash \<notin> set c" "hd cs \<noteq> []"
    using normal_no_slash [OF assms] False by simp_all
  have sp: "split_on slash (join_with slash cs) = cs"
    using False ok by (simp add: split_on_join)
  show ?thesis
  proof (cases r)
    case True
    then show ?thesis
      using False sp fold_normal [OF assms]
      by (simp add: render_def path_root_def path_comps_def) (simp add: clean_step_def)
  next
    case False
    obtain d ds where cs: "cs = d # ds" "d \<noteq> []" "slash \<notin> set d"
      using \<open>cs \<noteq> []\<close> ok by (cases cs) auto
    then have "path_root (join_with slash cs) = False"
      by (cases ds; cases d) (auto simp: path_root_def)
    with False \<open>cs \<noteq> []\<close> sp fold_normal [OF assms] show ?thesis
      by (simp add: render_def path_comps_def)
  qed
qed

lemma Join_root_comps:
  assumes "plain a"
  shows "path_root (filepath_Join [p, a]) = path_root p"
    and "path_comps (filepath_Join [p, a]) = path_comps p @ [a]"
  using render_comps [OF normal_snoc [OF normal_path_comps assms]] assms
  by (simp_all add: Join_plain)

lemma Join_eq_iff:
  assumes a: "plain a" and b: "plain b"
  shows "filepath_Join [p, a] = filepath_Join [q, b] \<longleftrightarrow>
    path_root p = path_root q \<and> path_comps p = path_comps q \<and> a = b"
proof
  assume eq: "filepath_Join [p, a] = filepath_Join [q, b]"
  show "path_root p = path_root q \<and> path_comps p = path_comps q \<and> a = b"
    using arg_cong [OF eq, of path_root] arg_cong [OF eq, of path_comps]
    by (simp add: Join_root_comps a b)
next
  assume "path_root p = path_root q \<and> path_comps p = path_comps q \<and> a = b"
  then show "filepath_Join [p, a] = filepath_Join [q, b]" by (simp add: Join_plain b)
qed

lemma Join_dir_eq_iff:
  assumes "plain a" and "plain b" and "plain x" and "plain y"
  shows "filepath_Join [filepath_Join [p, a], x] = filepath_Join [filepath_Join [p, b], y] \<longleftrightarrow>
    a = b \<and> x = y"
  using assms by (auto simp: Join_eq_iff Join_root_comps)

section \<open>Dir\<close>

text \<open>\<open>filepath.Dir\<close>: what is left of a path up to its last slash, cleaned.\<close>

definition filepath_Dir :: "string \<Rightarrow> string" where
  "filepath_Dir p = filepath_Clean (rev (dropWhile (\<lambda>c. c \<noteq> slash) (rev p)))"

lemma Dir_file: "slash \<notin> set f \<Longrightarrow> filepath_Dir (p @ slash # f) = filepath_Clean (p @ [slash])"
  by (simp add: filepath_Dir_def) (subst dropWhile_append2; auto)

lemma path_root_append: "p \<noteq> [] \<Longrightarrow> path_root (p @ q) = path_root p"
  by (cases p) (simp_all add: path_root_def)

lemma path_comps_append:
  "p \<noteq> [] \<Longrightarrow> path_comps (p @ slash # q) = rev (fold (clean_step (path_root p)) (split_on slash q) (rev (path_comps p)))"
  by (simp add: path_comps_def path_root_append split_on_append)

lemma Clean_comps:
  "path_root (filepath_Clean p) = path_root p" "path_comps (filepath_Clean p) = path_comps p"
  by (simp_all add: filepath_Clean_def render_comps [OF normal_path_comps])

lemma Clean_not_Nil [simp]: "filepath_Clean p \<noteq> []"
proof (cases "path_comps p")
  case (Cons c cs)
  then have "c \<noteq> []"
    using normal_no_slash [OF normal_path_comps, of p] by simp
  with Cons show ?thesis by (cases cs) (auto simp: filepath_Clean_def render_def)
qed (simp add: filepath_Clean_def render_def)

lemma Clean_eqI:
  "path_root p = path_root q \<Longrightarrow> path_comps p = path_comps q \<Longrightarrow> filepath_Clean p = filepath_Clean q"
  by (simp add: filepath_Clean_def)

end
