(* ===== verification/Config.thy ===== *)
theory Config
  imports Models Paths
begin

text \<open>
  \<open>internal/config/config.go\<close>: the \<open>.shipinator.yaml\<close> file as records, the \<open>validate\<close> tags of
  their fields as the strings of the source, and \<open>Load\<close>. The YAML decoder and the struct validator
  are libraries and stay parameters; what the validator documents of the tags is \<open>valid\<close>.
\<close>

section \<open>The configuration file\<close>

record BuildOutput =
  BuildOutput_Type :: string
  BuildOutput_Path :: string
  BuildOutput_Ref :: string

record BuildStep =
  BuildStep_Name :: string
  BuildStep_Run :: string
  BuildStep_Outputs :: "BuildOutput list"

record BuildConfig =
  BuildConfig_Steps :: "BuildStep list"

record TestArtifact =
  TestArtifact_Type :: string
  TestArtifact_Path :: string

record TestStep =
  TestStep_Name :: string
  TestStep_Run :: string
  TestStep_Parallel :: bool
  TestStep_Artifacts :: "TestArtifact list"

record TestConfig =
  TestConfig_Steps :: "TestStep list"

record DeployConfig =
  DeployConfig_Artifact :: string
  DeployConfig_Target :: string
  DeployConfig_Namespace :: string

record ShipinatorConfig =
  Config_Build :: "BuildConfig option"
  Config_Test :: "TestConfig option"
  Config_Deploy :: "DeployConfig option"

section \<open>Tagged structs\<close>

text \<open>
  What the validator sees of a value by reflection: a struct is the list of its fields, each with
  its name, its \<open>validate\<close> tag and its value.
\<close>

datatype val = Text string | Flag bool | Slice "val list" | Ptr "val option"
  | Struct "(string \<times> string \<times> val) list"

definition BuildOutput_tags :: "BuildOutput \<Rightarrow> val" where
  "BuildOutput_tags x = Struct
    [(''Type'', ''required,oneof=binary oci_image helm_chart'', Text (BuildOutput_Type x)),
     (''Path'', ''required_if=Type binary,required_if=Type helm_chart'', Text (BuildOutput_Path x)),
     (''Ref'', ''required_if=Type oci_image'', Text (BuildOutput_Ref x))]"

definition BuildStep_tags :: "BuildStep \<Rightarrow> val" where
  "BuildStep_tags x = Struct
    [(''Name'', ''required'', Text (BuildStep_Name x)),
     (''Run'', ''required'', Text (BuildStep_Run x)),
     (''Outputs'', ''omitempty,dive'', Slice (map BuildOutput_tags (BuildStep_Outputs x)))]"

definition BuildConfig_tags :: "BuildConfig \<Rightarrow> val" where
  "BuildConfig_tags x = Struct
    [(''Steps'', ''required,min=1,dive'', Slice (map BuildStep_tags (BuildConfig_Steps x)))]"

definition TestArtifact_tags :: "TestArtifact \<Rightarrow> val" where
  "TestArtifact_tags x = Struct
    [(''Type'', ''required,oneof=coverage test_report'', Text (TestArtifact_Type x)),
     (''Path'', ''required'', Text (TestArtifact_Path x))]"

definition TestStep_tags :: "TestStep \<Rightarrow> val" where
  "TestStep_tags x = Struct
    [(''Name'', ''required'', Text (TestStep_Name x)),
     (''Run'', ''required'', Text (TestStep_Run x)),
     (''Parallel'', '''', Flag (TestStep_Parallel x)),
     (''Artifacts'', ''omitempty,dive'', Slice (map TestArtifact_tags (TestStep_Artifacts x)))]"

definition TestConfig_tags :: "TestConfig \<Rightarrow> val" where
  "TestConfig_tags x = Struct
    [(''Steps'', ''required,min=1,dive'', Slice (map TestStep_tags (TestConfig_Steps x)))]"

definition DeployConfig_tags :: "DeployConfig \<Rightarrow> val" where
  "DeployConfig_tags x = Struct
    [(''Artifact'', ''required,oneof=binary oci_image helm_chart'', Text (DeployConfig_Artifact x)),
     (''Target'', ''required'', Text (DeployConfig_Target x)),
     (''Namespace'', ''required'', Text (DeployConfig_Namespace x))]"

definition ShipinatorConfig_tags :: "ShipinatorConfig \<Rightarrow> val" where
  "ShipinatorConfig_tags x = Struct
    [(''Build'', ''omitempty'', Ptr (map_option BuildConfig_tags (Config_Build x))),
     (''Test'', ''omitempty'', Ptr (map_option TestConfig_tags (Config_Test x))),
     (''Deploy'', ''omitempty'', Ptr (map_option DeployConfig_tags (Config_Deploy x)))]"

section \<open>Loading\<close>

text \<open>
  \<open>open_file\<close> opens a file; \<open>decode\<close> is the strict YAML decoder run on a reader, whose errors are
  those of the text and those of reading it; \<open>validate\<close> is the validator's \<open>Struct\<close>. What a reader
  is does not matter.
\<close>

definition Load :: "('f \<Rightarrow> error + ShipinatorConfig) \<Rightarrow> (ShipinatorConfig \<Rightarrow> error option) \<Rightarrow>
    'f \<Rightarrow> error + ShipinatorConfig" where
  "Load decode validate r =
    (case decode r of
       Inl e \<Rightarrow> Inl (Wrapf ''parsing config: %w'' [] e)
     | Inr cfg \<Rightarrow>
         if Config_Build cfg = None \<and> Config_Test cfg = None \<and> Config_Deploy cfg = None
         then Inl (Errorf ''config must define at least one of: build, test, deploy'' [])
         else (case validate cfg of
             Some e \<Rightarrow> Inl (Wrapf ''validating config: %w'' [] e)
           | None \<Rightarrow> Inr cfg))"

definition LoadFromFile :: "(string \<Rightarrow> error + 'f) \<Rightarrow> ('f \<Rightarrow> error + ShipinatorConfig) \<Rightarrow>
    (ShipinatorConfig \<Rightarrow> error option) \<Rightarrow> string \<Rightarrow> error + ShipinatorConfig" where
  "LoadFromFile open_file decode validate path =
    (case open_file path of
       Inl e \<Rightarrow> Inl (Wrapf ''opening config file: %w'' [] e)
     | Inr f \<Rightarrow> Load decode validate f)"

lemma Load_Inr_iff:
  "Load decode validate r = Inr cfg \<longleftrightarrow>
     decode r = Inr cfg \<and> validate cfg = None \<and>
     (Config_Build cfg \<noteq> None \<or> Config_Test cfg \<noteq> None \<or> Config_Deploy cfg \<noteq> None)"
  by (auto simp: Load_def split: sum.splits option.splits if_splits)

section \<open>What the validator documents of the tags\<close>

text \<open>
  A tag is a list of rules separated by commas; the argument of a rule follows \<open>=\<close>, and its words
  are separated by blanks. Any other rule is unknown here (and none is used).
\<close>

datatype rule = Required | Omitempty | Dive | Min nat | Oneof "string list" | Required_if string string | Unknown

definition decimal_value :: "string \<Rightarrow> nat" where
  "decimal_value ds = fold (\<lambda>c n. 10 * n + (of_char c - 48)) ds 0"

definition parse_rule :: "string \<Rightarrow> rule" where
  "parse_rule r =
    (let parts = split_on CHR ''='' r; name = hd parts; words = split_on CHR '' '' (last parts) in
     if r = ''required'' then Required
     else if r = ''omitempty'' then Omitempty
     else if r = ''dive'' then Dive
     else if name = ''min'' then Min (decimal_value (last parts))
     else if name = ''oneof'' then Oneof words
     else if name = ''required_if'' \<and> length words = 2 then Required_if (words ! 0) (words ! 1)
     else Unknown)"

definition parse_tag :: "string \<Rightarrow> rule list" where
  "parse_tag t = (if t = '''' then [] else map parse_rule (split_on CHR '','' t))"

text \<open>
  Whether a value is set. The records do not tell a nil slice from an empty one: \<open>required\<close> refuses
  a nil slice only, so nothing is concluded from it here.
\<close>

fun has_value :: "val \<Rightarrow> bool" where
  "has_value (Text s) = (s \<noteq> '''')"
| "has_value (Flag b) = b"
| "has_value (Slice vs) = True"
| "has_value (Ptr p) = (p \<noteq> None)"
| "has_value (Struct fs) = True"

text \<open>
  The rules of a field, in order: \<open>required\<close> asks for a value that is set, \<open>omitempty\<close> ends the
  check of one that is not, \<open>min\<close> bounds a length, \<open>oneof\<close> lists the texts, and \<open>required_if\<close> asks
  for a value when another field of the struct (\<open>fs\<close>) has the given text. A struct, and the struct
  behind a pointer, is always checked (\<open>d\<close> says whether it is valid), the elements of a slice only
  under \<open>dive\<close>.
\<close>

fun follows :: "(string \<times> string \<times> val) list \<Rightarrow> val \<Rightarrow> bool \<Rightarrow> rule list \<Rightarrow> bool" where
  "follows fs v d [] = (case v of Slice _ \<Rightarrow> True | _ \<Rightarrow> d)"
| "follows fs v d (Required # rs) = (has_value v \<and> follows fs v d rs)"
| "follows fs v d (Omitempty # rs) = (has_value v \<longrightarrow> follows fs v d rs)"
| "follows fs v d (Dive # rs) = (d \<and> rs = [])"
| "follows fs v d (Min n # rs) =
    ((case v of Slice vs \<Rightarrow> n \<le> length vs | Text s \<Rightarrow> n \<le> length s | _ \<Rightarrow> False) \<and> follows fs v d rs)"
| "follows fs v d (Oneof ws # rs) = ((\<exists>w\<in>set ws. v = Text w) \<and> follows fs v d rs)"
| "follows fs v d (Required_if f x # rs) =
    ((map_option snd (map_of fs f) = Some (Text x) \<longrightarrow> has_value v) \<and> follows fs v d rs)"
| "follows fs v d (Unknown # rs) = False"

fun valid :: "val \<Rightarrow> bool" where
  "valid (Text s) = True"
| "valid (Flag b) = True"
| "valid (Slice vs) = (\<forall>v\<in>set vs. valid v)"
| "valid (Ptr None) = True"
| "valid (Ptr (Some v)) = valid v"
| "valid (Struct fs) = (\<forall>f\<in>set fs. follows fs (snd (snd f)) (valid (snd (snd f))) (parse_tag (fst (snd f))))"

text \<open>The documented behaviour of the validator: no error exactly when the tags hold.\<close>

definition honours_tags :: "(ShipinatorConfig \<Rightarrow> error option) \<Rightarrow> bool" where
  "honours_tags validate \<longleftrightarrow> (\<forall>c. validate c = None \<longleftrightarrow> valid (ShipinatorConfig_tags c))"

text \<open>The tags of the source, read.\<close>

lemma parsed_tags [simp]:
  "parse_tag '''' = []" "parse_tag ''required'' = [Required]" "parse_tag ''omitempty'' = [Omitempty]"
  "parse_tag ''omitempty,dive'' = [Omitempty, Dive]"
  "parse_tag ''required,min=1,dive'' = [Required, Min 1, Dive]"
  "parse_tag ''required,oneof=binary oci_image helm_chart'' =
     [Required, Oneof [''binary'', ''oci_image'', ''helm_chart'']]"
  "parse_tag ''required,oneof=coverage test_report'' = [Required, Oneof [''coverage'', ''test_report'']]"
  "parse_tag ''required_if=Type binary,required_if=Type helm_chart'' =
     [Required_if ''Type'' ''binary'', Required_if ''Type'' ''helm_chart'']"
  "parse_tag ''required_if=Type oci_image'' = [Required_if ''Type'' ''oci_image'']"
  by code_simp+

lemma valid_BuildOutput: "valid (BuildOutput_tags x) \<longleftrightarrow>
    (BuildOutput_Type x = ''binary'' \<or> BuildOutput_Type x = ''helm_chart'') \<and> BuildOutput_Path x \<noteq> '''' \<or>
    BuildOutput_Type x = ''oci_image'' \<and> BuildOutput_Ref x \<noteq> ''''"
  by (auto simp: BuildOutput_tags_def)

lemma valid_BuildStep: "valid (BuildStep_tags x) \<longleftrightarrow> BuildStep_Name x \<noteq> '''' \<and> BuildStep_Run x \<noteq> '''' \<and>
    (\<forall>out\<in>set (BuildStep_Outputs x). valid (BuildOutput_tags out))"
  by (auto simp: BuildStep_tags_def)

lemma valid_TestArtifact: "valid (TestArtifact_tags x) \<longleftrightarrow>
    (TestArtifact_Type x = ''coverage'' \<or> TestArtifact_Type x = ''test_report'') \<and> TestArtifact_Path x \<noteq> ''''"
  by (auto simp: TestArtifact_tags_def)

lemma valid_TestStep: "valid (TestStep_tags x) \<longleftrightarrow> TestStep_Name x \<noteq> '''' \<and> TestStep_Run x \<noteq> '''' \<and>
    (\<forall>a\<in>set (TestStep_Artifacts x). valid (TestArtifact_tags a))"
  by (auto simp: TestStep_tags_def)

lemma valid_DeployConfig: "valid (DeployConfig_tags x) \<longleftrightarrow>
    DeployConfig_Artifact x \<in> {''binary'', ''oci_image'', ''helm_chart''} \<and>
    DeployConfig_Target x \<noteq> '''' \<and> DeployConfig_Namespace x \<noteq> ''''"
  by (auto simp: DeployConfig_tags_def)

lemma valid_steps:
  "valid (BuildConfig_tags b) \<longleftrightarrow>
     BuildConfig_Steps b \<noteq> [] \<and> (\<forall>s\<in>set (BuildConfig_Steps b). valid (BuildStep_tags s))"
  "valid (TestConfig_tags t) \<longleftrightarrow>
     TestConfig_Steps t \<noteq> [] \<and> (\<forall>s\<in>set (TestConfig_Steps t). valid (TestStep_tags s))"
  by (auto simp: BuildConfig_tags_def TestConfig_tags_def Suc_le_eq)

lemma valid_config: "valid (ShipinatorConfig_tags c) \<longleftrightarrow>
    (\<forall>b. Config_Build c = Some b \<longrightarrow> valid (BuildConfig_tags b)) \<and>
    (\<forall>t. Config_Test c = Some t \<longrightarrow> valid (TestConfig_tags t)) \<and>
    (\<forall>d. Config_Deploy c = Some d \<longrightarrow> valid (DeployConfig_tags d))"
  by (cases "Config_Build c"; cases "Config_Test c"; cases "Config_Deploy c")
    (simp_all add: ShipinatorConfig_tags_def)

lemmas valid_all = valid_config valid_steps valid_BuildStep valid_BuildOutput valid_TestStep
  valid_TestArtifact valid_DeployConfig

text \<open>
  C36: which configuration files are accepted, and as what. A file is accepted exactly when it opens,
  decodes to that configuration and defines a stage, and: a build or test stage has a step; every
  step has a name and a command; every output of a build step is a binary or a Helm chart with a
  path, or an image with a reference; every artifact of a test step is a coverage or a test report
  with a path; and a deploy stage has one of the three kinds of artifact, a target and a namespace.
\<close>

theorem LoadFromFile_accepts:
  assumes "honours_tags validate"
  shows "LoadFromFile open_file decode validate path = Inr cfg \<longleftrightarrow>
    (\<exists>f. open_file path = Inr f \<and> decode f = Inr cfg) \<and>
    (Config_Build cfg \<noteq> None \<or> Config_Test cfg \<noteq> None \<or> Config_Deploy cfg \<noteq> None) \<and>
    (\<forall>b. Config_Build cfg = Some b \<longrightarrow> BuildConfig_Steps b \<noteq> [] \<and>
       (\<forall>s\<in>set (BuildConfig_Steps b). BuildStep_Name s \<noteq> '''' \<and> BuildStep_Run s \<noteq> '''' \<and>
          (\<forall>out\<in>set (BuildStep_Outputs s).
             (BuildOutput_Type out = ''binary'' \<or> BuildOutput_Type out = ''helm_chart'') \<and> BuildOutput_Path out \<noteq> '''' \<or>
             BuildOutput_Type out = ''oci_image'' \<and> BuildOutput_Ref out \<noteq> ''''))) \<and>
    (\<forall>t. Config_Test cfg = Some t \<longrightarrow> TestConfig_Steps t \<noteq> [] \<and>
       (\<forall>s\<in>set (TestConfig_Steps t). TestStep_Name s \<noteq> '''' \<and> TestStep_Run s \<noteq> '''' \<and>
          (\<forall>a\<in>set (TestStep_Artifacts s).
             (TestArtifact_Type a = ''coverage'' \<or> TestArtifact_Type a = ''test_report'') \<and>
             TestArtifact_Path a \<noteq> ''''))) \<and>
    (\<forall>d. Config_Deploy cfg = Some d \<longrightarrow>
       DeployConfig_Artifact d \<in> {''binary'', ''oci_image'', ''helm_chart''} \<and>
       DeployConfig_Target d \<noteq> '''' \<and> DeployConfig_Namespace d \<noteq> '''')"
proof -
  have "LoadFromFile open_file decode validate path = Inr cfg \<longleftrightarrow>
      (\<exists>f. open_file path = Inr f \<and> decode f = Inr cfg) \<and> valid (ShipinatorConfig_tags cfg) \<and>
      (Config_Build cfg \<noteq> None \<or> Config_Test cfg \<noteq> None \<or> Config_Deploy cfg \<noteq> None)"
    using assms by (auto simp: LoadFromFile_def Load_Inr_iff honours_tags_def split: sum.splits)
  then show ?thesis unfolding valid_all by blast
qed

definition sample_config :: ShipinatorConfig where
  "sample_config = \<lparr>Config_Build = Some \<lparr>BuildConfig_Steps = [\<lparr>BuildStep_Name = ''compile'',
       BuildStep_Run = ''make'', BuildStep_Outputs = [\<lparr>BuildOutput_Type = ''binary'',
         BuildOutput_Path = ''bin/app'', BuildOutput_Ref = ''''\<rparr>]\<rparr>]\<rparr>,
     Config_Test = None,
     Config_Deploy = Some \<lparr>DeployConfig_Artifact = ''binary'', DeployConfig_Target = ''app'',
       DeployConfig_Namespace = ''prod''\<rparr>\<rparr>"

theorem LoadFromFile_accepts_witness:
  "LoadFromFile (\<lambda>_. Inr ()) (\<lambda>_. Inr sample_config)
     (\<lambda>c. if valid (ShipinatorConfig_tags c) then None else Some (External ''tag'')) ''.shipinator.yaml'' =
   Inr sample_config"
proof -
  have "honours_tags (\<lambda>c. if valid (ShipinatorConfig_tags c) then None else Some (External ''tag''))"
    by (simp add: honours_tags_def)
  then show ?thesis by (subst LoadFromFile_accepts) (simp_all add: sample_config_def)
qed

end
