(* ===== verification/Buildinator.thy ===== *)
theory Buildinator
  imports StepFns Config Paths "HOL-Library.Sublist"
begin

text \<open>
  \<open>internal/buildinator/buildinator.go\<close>: the build steps run one after the other, and after each
  one a row of the artifacts table is registered for every declared output. The theorems say
  which steps were submitted, which step rows exist and which artifacts are registered when the
  stage returns, with or without an error.
\<close>

section \<open>The code\<close>

record Buildinator =
  bld_step :: StepFn
  bld_backend :: string
  bld_basePath :: string
  bld_builderImage :: string

definition Buildinator_New :: "StepFn \<Rightarrow> string \<Rightarrow> string \<Rightarrow> string \<Rightarrow> Buildinator" where
  "Buildinator_New step backend basePath builderImage = \<lparr>bld_step = step, bld_backend = backend,
     bld_basePath = basePath, bld_builderImage = builderImage\<rparr>"

text \<open>The identifiers allocated before a step runs, one \<open>store.NewArtifactID()\<close> per output.\<close>

primrec preallocate :: "env \<Rightarrow> BuildOutput list \<Rightarrow> world \<Rightarrow> ArtifactID list \<times> world" where
  "preallocate E [] w = ([], w)"
| "preallocate E (out # outs) w =
    (case NewArtifactID E w of (i, w1) \<Rightarrow>
     case preallocate E outs w1 of (ids, w2) \<Rightarrow> (i # ids, w2))"

definition outputsToSpecs :: "BuildOutput list \<Rightarrow> ArtifactSpec list" where
  "outputsToSpecs outputs =
    map (\<lambda>out. \<lparr>ArtifactSpec_Type = BuildOutput_Type out, ArtifactSpec_Path = BuildOutput_Path out\<rparr>)
      outputs"

definition build_spec :: "Buildinator \<Rightarrow> BuildStep \<Rightarrow> ExecutionSpec" where
  "build_spec b s = \<lparr>Spec_Image = bld_builderImage b,
     Spec_Command = [''sh'', ''-c'', BuildStep_Run s], Spec_Env = [],
     Spec_Artifacts = outputsToSpecs (BuildStep_Outputs s), Spec_Timeout = 0\<rparr>"

definition new_artifact :: "env \<Rightarrow> Buildinator \<Rightarrow> JobID \<Rightarrow> ArtifactID \<Rightarrow> BuildOutput \<Rightarrow> Artifact" where
  "new_artifact E b jobID i out = \<lparr>Artifact_ID = i, Artifact_JobID = jobID,
     Artifact_ArtifactType = BuildOutput_Type out, Artifact_StorageBackend = bld_backend b,
     Artifact_StoragePath = filepath_Join [bld_basePath b, ArtifactID_String E i],
     Artifact_Checksum = None, Artifact_CreatedAt = zero_time\<rparr>"

fun register :: "env \<Rightarrow> Buildinator \<Rightarrow> JobID \<Rightarrow> string \<Rightarrow> (ArtifactID \<times> BuildOutput) list \<Rightarrow> world \<Rightarrow>
    error option \<times> world" where
  "register E b jobID stepName [] w = (None, w)"
| "register E b jobID stepName ((i, out) # outs) w =
    (case ArtifactStore_Create E Ctx (new_artifact E b jobID i out) w of
       (Some e, _, w1) \<Rightarrow>
         (Some (Wrapf ''register artifact %q for step %q: %w''
                  [AStr (BuildOutput_Type out), AStr stepName] e), w1)
     | (None, _, w1) \<Rightarrow> register E b jobID stepName outs w1)"

primrec build_steps :: "env \<Rightarrow> Buildinator \<Rightarrow> JobID \<Rightarrow> BuildStep list \<Rightarrow> nat \<Rightarrow> world \<Rightarrow>
    (error option \<times> world) option" where
  "build_steps E b jobID [] i w = Some (None, w)"
| "build_steps E b jobID (s # ss) i w =
    (case preallocate E (BuildStep_Outputs s) w of (ids, w1) \<Rightarrow>
     case bld_step b jobID (BuildStep_Name s) (int i) None (build_spec b s) w1 of
       None \<Rightarrow> None
     | Some (Some e, w2) \<Rightarrow> Some (Some e, w2)
     | Some (None, w2) \<Rightarrow>
        (case register E b jobID (BuildStep_Name s) (zip ids (BuildStep_Outputs s)) w2 of
           (Some e, w3) \<Rightarrow> Some (Some e, w3)
         | (None, w3) \<Rightarrow> build_steps E b jobID ss (Suc i) w3))"

definition Buildinator_Run :: "env \<Rightarrow> Buildinator \<Rightarrow> JobID \<Rightarrow> BuildStep list \<Rightarrow> world \<Rightarrow>
    (error option \<times> world) option" where
  "Buildinator_Run E b jobID steps w = build_steps E b jobID steps 0 w"

section \<open>Progress along a plan\<close>

text \<open>
  What was done is a prefix of what was planned, and all of it when no error is returned.
\<close>

definition progress :: "error option \<Rightarrow> 'a list \<Rightarrow> 'a list \<Rightarrow> bool" where
  "progress r did plan \<longleftrightarrow> prefix did plan \<and> (r = None \<longrightarrow> did = plan)"

lemma progress_Nil [simp]: "progress r [] plan \<longleftrightarrow> r \<noteq> None \<or> plan = []"
  by (auto simp: progress_def)

lemma progress_step: "progress None xs ps \<Longrightarrow> progress r ys qs \<Longrightarrow> progress r (xs @ ys) (ps @ qs)"
  by (auto simp: progress_def)

lemma progress_stop: "progress r xs ps \<Longrightarrow> progress (Some e) xs (ps @ qs)"
  by (auto simp: progress_def)

lemma progress_one: "at_most_one r x xs \<Longrightarrow> progress r xs [x]"
  by (auto simp: progress_def at_most_one_def)

lemma progress_one_stop: "at_most_one (Some e) x xs \<Longrightarrow> progress (Some e') xs (x # qs)"
  by (auto simp: progress_def at_most_one_def)

section \<open>Registration\<close>

lemma preallocate_eq:
  "preallocate E outs w =
     (map (\<lambda>j. ArtifactID (uuid_new E j)) [tick w ..< tick w + length outs],
      w\<lparr>tick := tick w + length outs\<rparr>)"
proof (induction outs arbitrary: w)
  case (Cons out outs)
  have "[tick w ..< tick w + Suc (length outs)] = tick w # [Suc (tick w) ..< Suc (tick w) + length outs]"
    by (subst upt_conv_Cons) simp_all
  then show ?case
    by (simp add: Cons NewArtifactID_def uuid_New_def tock_def del: upt_Suc)
qed simp

text \<open>\<open>uuid.New()\<close> returns a version 4 identifier, whose version bits are not zero.\<close>

definition fresh_uuids :: "env \<Rightarrow> bool" where
  "fresh_uuids E \<longleftrightarrow> (\<forall>n. uuid_new E n \<noteq> 0)"

text \<open>What the columns of a registered row have to be, besides its type.\<close>

definition artifact_ok :: "env \<Rightarrow> Buildinator \<Rightarrow> JobID \<Rightarrow> Artifact \<Rightarrow> bool" where
  "artifact_ok E b jobID a \<longleftrightarrow>
     Artifact_JobID a = jobID \<and> Artifact_StorageBackend a = bld_backend b \<and>
     Artifact_StoragePath a =
       filepath_Join [bld_basePath b, ArtifactID_String E (Artifact_ID a)] \<and>
     Artifact_Checksum a = None"

lemma ArtifactStore_Create_id:
  "rawArtifactID (Artifact_ID a) \<noteq> 0 \<Longrightarrow>
     Artifact_ID (fst (snd (ArtifactStore_Create E c a w))) = Artifact_ID a"
  by (simp add: ArtifactStore_Create_def ensureID_def Let_def split: prod.split sum.split)

lemma register_outcome:
  assumes "register E b jobID name outs w = (r, w')"
  shows "\<exists>n as. tick w \<le> n \<and> w' = w\<lparr>tick := n, artifacts := artifacts w @ as\<rparr> \<and>
    ((\<forall>(i, out)\<in>set outs. rawArtifactID i \<noteq> 0) \<longrightarrow> list_all (artifact_ok E b jobID) as) \<and>
    progress r (map Artifact_ArtifactType as) (map (\<lambda>x. BuildOutput_Type (snd x)) outs)"
  using assms
proof (induction outs arbitrary: w)
  case Nil
  then show ?case by (auto intro!: exI [of _ "tick w"] exI [of _ "[]"])
next
  case (Cons x outs)
  obtain i out where x: "x = (i, out)" by (cases x)
  let ?a = "new_artifact E b jobID i out"
  show ?case
  proof (cases rule: ArtifactStore_Create_cases [of E Ctx ?a w])
    case (failed e a' n)
    with Cons.prems x have "w' = w\<lparr>tick := n\<rparr>" "r \<noteq> None" by auto
    with failed(2) show ?thesis
      by (intro exI [of _ n] exI [of _ "[]"]) simp
  next
    case (created a' k t n)
    let ?w1 = "w\<lparr>tick := n, artifacts := artifacts w @ [a']\<rparr>"
    have "rawArtifactID i \<noteq> 0 \<longrightarrow> Artifact_ID a' = i"
      using ArtifactStore_Create_id [of ?a E Ctx w] created(1) by (simp add: new_artifact_def)
    then have a': "rawArtifactID i \<noteq> 0 \<longrightarrow> artifact_ok E b jobID a'"
      "Artifact_ArtifactType a' = BuildOutput_Type out"
      using created(3) by (simp_all add: artifact_ok_def new_artifact_def)
    have "register E b jobID name outs ?w1 = (r, w')"
      using Cons.prems x created(1) by simp
    then obtain m as where m: "tick ?w1 \<le> m" "w' = ?w1\<lparr>tick := m, artifacts := artifacts ?w1 @ as\<rparr>"
      "(\<forall>(i, out)\<in>set outs. rawArtifactID i \<noteq> 0) \<longrightarrow> list_all (artifact_ok E b jobID) as"
      "progress r (map Artifact_ArtifactType as) (map (\<lambda>x. BuildOutput_Type (snd x)) outs)"
      using Cons.IH by blast
    then show ?thesis
      using a' created(2) x
        progress_step [of "[BuildOutput_Type out]" "[BuildOutput_Type out]" r, OF _ m(4)]
      by (intro exI [of _ m] exI [of _ "a' # as"]) (simp add: progress_def)
  qed
qed

section \<open>What a build stage leaves behind\<close>

definition build_rows :: "JobID \<Rightarrow> nat \<Rightarrow> BuildStep list \<Rightarrow> step_ident list" where
  "build_rows jobID i steps =
    map (\<lambda>(j, s). (jobID, BuildStep_Name s, Some (int j), None)) (List.enumerate i steps)"

definition declared_types :: "BuildStep list \<Rightarrow> string list" where
  "declared_types steps = concat (map (\<lambda>s. map BuildOutput_Type (BuildStep_Outputs s)) steps)"

text \<open>
  The outcome of a piece of a stage, against what was planned: the step rows it added, the
  specifications it had accepted by the executor, and the types of the artifacts it registered.
\<close>

definition did :: "env \<Rightarrow> Buildinator \<Rightarrow> JobID \<Rightarrow> error option \<Rightarrow> step_ident list \<Rightarrow>
    ExecutionSpec list \<Rightarrow> string list \<Rightarrow> world \<Rightarrow> world \<Rightarrow> bool" where
  "did E b jobID r rows specs types w w' \<longleftrightarrow> work_ran E w w' \<and>
     (\<exists>new evs as. map step_ident (job_steps w') = map step_ident (job_steps w) @ new \<and>
        log w' = log w @ evs \<and> artifacts w' = artifacts w @ as \<and>
        progress r new rows \<and> progress r (submissions evs) specs \<and>
        (fresh_uuids E \<longrightarrow> list_all (artifact_ok E b jobID) as) \<and>
        progress r (map Artifact_ArtifactType as) types)"

lemma did_step:
  assumes "did E b j None rows specs types w w1" and "did E b j r rows' specs' types' w1 w2"
  shows "did E b j r (rows @ rows') (specs @ specs') (types @ types') w w2"
proof -
  from assms(1) obtain new evs as where 1: "work_ran E w w1"
    "map step_ident (job_steps w1) = map step_ident (job_steps w) @ new" "log w1 = log w @ evs"
    "artifacts w1 = artifacts w @ as" "progress None new rows" "progress None (submissions evs) specs"
    "fresh_uuids E \<longrightarrow> list_all (artifact_ok E b j) as" "progress None (map Artifact_ArtifactType as) types"
    unfolding did_def by blast
  from assms(2) obtain new' evs' as' where 2: "work_ran E w1 w2"
    "map step_ident (job_steps w2) = map step_ident (job_steps w1) @ new'" "log w2 = log w1 @ evs'"
    "artifacts w2 = artifacts w1 @ as'" "progress r new' rows'" "progress r (submissions evs') specs'"
    "fresh_uuids E \<longrightarrow> list_all (artifact_ok E b j) as'" "progress r (map Artifact_ArtifactType as') types'"
    unfolding did_def by blast
  show ?thesis
    unfolding did_def
  proof (intro conjI exI)
    show "work_ran E w w2" using 1(1) 2(1) by (rule work_ran_trans)
    show "map step_ident (job_steps w2) = map step_ident (job_steps w) @ (new @ new')"
      and "log w2 = log w @ (evs @ evs')" and "artifacts w2 = artifacts w @ (as @ as')"
      using 1 2 by simp_all
    show "progress r (new @ new') (rows @ rows')" using 1 2 by (simp add: progress_step)
    show "progress r (submissions (evs @ evs')) (specs @ specs')"
      using 1 2 by (simp add: progress_step)
    show "fresh_uuids E \<longrightarrow> list_all (artifact_ok E b j) (as @ as')" using 1 2 by simp
    show "progress r (map Artifact_ArtifactType (as @ as')) (types @ types')"
      using 1 2 by (simp add: progress_step)
  qed
qed

lemma did_stop:
  "did E b j r rows specs types w w' \<Longrightarrow>
     did E b j (Some e) (rows @ rows') (specs @ specs') (types @ types') w w'"
  unfolding did_def by (fast intro: progress_stop)

lemma did_nothing: "steps_ready w \<Longrightarrow> tick w \<le> n \<Longrightarrow> did E b j None [] [] [] w (w\<lparr>tick := n\<rparr>)"
  by (auto simp: did_def tick_ran intro!: exI [of _ "[]"])

lemma did_refl: "steps_ready w \<Longrightarrow> did E b j None [] [] [] w w"
  by (auto simp: did_def work_ran_refl intro!: exI [of _ "[]"])

lemma did_ready: "did E b j r rows specs types w w' \<Longrightarrow> steps_ready w'"
  by (auto simp: did_def dest: work_ran_ready)

lemma register_did:
  assumes "register E b jobID name outs w = (r, w')"
    and "fresh_uuids E \<longrightarrow> (\<forall>(i, out)\<in>set outs. rawArtifactID i \<noteq> 0)" and "steps_ready w"
  shows "did E b jobID r [] [] (map (\<lambda>x. BuildOutput_Type (snd x)) outs) w w'"
proof -
  from register_outcome [OF assms(1)] assms(2) obtain n as where n: "tick w \<le> n"
    "w' = w\<lparr>tick := n, artifacts := artifacts w @ as\<rparr>"
    "fresh_uuids E \<longrightarrow> list_all (artifact_ok E b jobID) as"
    "progress r (map Artifact_ArtifactType as) (map (\<lambda>x. BuildOutput_Type (snd x)) outs)" by blast
  then show ?thesis
    using artifact_created_ran [OF assms(3) n(1)] unfolding did_def
    by (auto intro!: exI [of _ "[]"] exI [of _ as])
qed

context step_function
begin

lemma step_did:
  assumes "step jobID name order grp spec w = Some (r, w')" and "steps_ready w"
  shows "did E b j r [(jobID, name, Some order, grp)] [spec] [] w w'"
proof -
  obtain new evs where "map step_ident (job_steps w') = map step_ident (job_steps w) @ new"
    "at_most_one r (jobID, name, Some order, grp) new"
    "log w' = log w @ evs" "at_most_one r spec (submissions evs)"
    using step_rows [OF assms(1)] step_submits [OF assms(1)] by blast
  moreover have "artifacts w' = artifacts w @ []"
    using step_ran [OF assms] by (simp add: steps_ran_def same_but_steps_def)
  moreover have "work_ran E w w'"
    using step_ran [OF assms] by (rule steps_ran_work)
  ultimately show ?thesis
    unfolding did_def by (intro conjI exI) (auto intro: progress_one)
qed

text \<open>One round of the loop: the step and, if it succeeded, the registration of its outputs.\<close>

lemma build_round:
  fixes s w
  defines "w1 \<equiv> w\<lparr>tick := tick w + length (BuildStep_Outputs s)\<rparr>"
    and "ids \<equiv> map (\<lambda>j. ArtifactID (uuid_new E j)) [tick w ..< tick w + length (BuildStep_Outputs s)]"
  assumes "steps_ready w"
    and st: "step jobID (BuildStep_Name s) (int i) None (build_spec b s) w1 = Some (r2, w2)"
  shows "did E b jobID r2 [(jobID, BuildStep_Name s, Some (int i), None)] [build_spec b s] [] w w2"
    and "r2 = None \<Longrightarrow> register E b jobID (BuildStep_Name s) (zip ids (BuildStep_Outputs s)) w2 = (r3, w3)
      \<Longrightarrow> did E b jobID r3 [(jobID, BuildStep_Name s, Some (int i), None)] [build_spec b s]
            (map BuildOutput_Type (BuildStep_Outputs s)) w w3"
proof -
  have w1: "did E b jobID None [] [] [] w w1"
    unfolding w1_def by (rule did_nothing [OF assms(3)]) simp
  from did_step [OF w1 step_did [OF st did_ready [OF w1]]]
  show run: "did E b jobID r2 [(jobID, BuildStep_Name s, Some (int i), None)] [build_spec b s] [] w w2"
    by simp
  assume "r2 = None"
    and reg: "register E b jobID (BuildStep_Name s) (zip ids (BuildStep_Outputs s)) w2 = (r3, w3)"
  have ids: "fresh_uuids E \<longrightarrow> (\<forall>(k, out)\<in>set (zip ids (BuildStep_Outputs s)). rawArtifactID k \<noteq> 0)"
    by (auto simp: ids_def fresh_uuids_def dest!: set_zip_leftD)
  have types: "map (\<lambda>x. BuildOutput_Type (snd x)) (zip ids (BuildStep_Outputs s)) =
      map BuildOutput_Type (BuildStep_Outputs s)"
    by (rule map_snd_of_zip) (simp add: ids_def)
  from did_step [OF run [unfolded \<open>r2 = None\<close>] register_did [OF reg ids did_ready [OF run]]]
  show "did E b jobID r3 [(jobID, BuildStep_Name s, Some (int i), None)] [build_spec b s]
      (map BuildOutput_Type (BuildStep_Outputs s)) w w3"
    by (simp add: types)
qed

lemma build_steps_did:
  assumes "build_steps E b jobID steps i w = Some (r, w')" and "bld_step b = step"
    and "steps_ready w"
  shows "did E b jobID r (build_rows jobID i steps) (map (build_spec b) steps) (declared_types steps) w w'"
  using assms(1,3)
proof (induction steps arbitrary: i w)
  case Nil
  then show ?case by (auto simp: build_rows_def declared_types_def did_refl)
next
  case (Cons s ss)
  have plan: "build_rows jobID i (s # ss) =
      [(jobID, BuildStep_Name s, Some (int i), None)] @ build_rows jobID (Suc i) ss"
    "map (build_spec b) (s # ss) = [build_spec b s] @ map (build_spec b) ss"
    "declared_types (s # ss) = map BuildOutput_Type (BuildStep_Outputs s) @ declared_types ss"
    by (simp_all add: build_rows_def declared_types_def)
  obtain r2 w2 where st: "step jobID (BuildStep_Name s) (int i) None (build_spec b s)
      (w\<lparr>tick := tick w + length (BuildStep_Outputs s)\<rparr>) = Some (r2, w2)"
    using Cons.prems(1) assms(2) by (auto simp: preallocate_eq split: option.splits)
  note round = build_round [OF Cons.prems(2) st]
  show ?case
  proof (cases r2)
    case (Some e)
    with Cons.prems(1) assms(2) st have "r = Some e" "w' = w2" by (auto simp: preallocate_eq)
    with did_stop [OF round(1), where types' = "declared_types (s # ss)"] show ?thesis
      by (simp add: plan)
  next
    case None
    obtain r3 w3 where reg: "register E b jobID (BuildStep_Name s)
        (zip (map (\<lambda>j. ArtifactID (uuid_new E j)) [tick w ..< tick w + length (BuildStep_Outputs s)])
          (BuildStep_Outputs s)) w2 = (r3, w3)"
      by fastforce
    note done3 = round(2) [OF None reg]
    show ?thesis
    proof (cases r3)
      case (Some e)
      with Cons.prems(1) assms(2) st reg None have "r = Some e" "w' = w3"
        by (auto simp: preallocate_eq)
      with did_stop [OF done3] show ?thesis unfolding plan by simp
    next
      case none3: None
      with Cons.prems(1) assms(2) st reg None have "build_steps E b jobID ss (Suc i) w3 = Some (r, w')"
        by (simp add: preallocate_eq)
      from did_step [OF done3 [unfolded none3] Cons.IH [OF this did_ready [OF done3]]]
      show ?thesis unfolding plan .
    qed
  qed
qed

lemma build_steps_returns:
  assumes "settled E" and "bld_step b = step"
  shows "\<exists>r w'. build_steps E b jobID steps i w = Some (r, w')"
proof (induction steps arbitrary: i w)
  case (Cons s ss)
  obtain r2 w2 where "step jobID (BuildStep_Name s) (int i) None (build_spec b s)
      (w\<lparr>tick := tick w + length (BuildStep_Outputs s)\<rparr>) = Some (r2, w2)"
    using step_returns [OF assms(1)] by blast
  with Cons assms(2) show ?case
    by (cases r2) (auto simp: preallocate_eq split: prod.split option.split)
qed simp

end

section \<open>The stage, run with the orchestrator's step function\<close>

lemma Buildinator_Run_ran:
  assumes "Buildinator_Run E b jobID steps w = Some (r, w')" and "bld_step b = runStep E"
    and "steps_ready w"
  shows "work_ran E w w'"
  using orchestrator_step.build_steps_did assms unfolding Buildinator_Run_def did_def by blast

lemma Buildinator_Run_returns:
  "settled E \<Longrightarrow> bld_step b = runStep E \<Longrightarrow> \<exists>r w'. Buildinator_Run E b jobID steps w = Some (r, w')"
  unfolding Buildinator_Run_def by (rule orchestrator_step.build_steps_returns)

text \<open>
  C13: when the build stage returns, the step rows it has added are the first steps of the
  configuration in declaration order, numbered from 0 and in no parallel group; the
  specifications the executor has accepted are those of the first steps, in order; and the
  artifact rows it has registered are of the declared types in declaration order, each with the
  job, the backend and the path of its own identifier under the base path. Without an error it
  has gone through all of them.
\<close>

theorem build_run_outcome:
  assumes "Buildinator_Run E b jobID steps w = Some (r, w')" and "bld_step b = runStep E"
    and "steps_ready w" and "fresh_uuids E"
  shows "\<exists>new evs as. map step_ident (job_steps w') = map step_ident (job_steps w) @ new \<and>
    progress r new (build_rows jobID 0 steps) \<and>
    log w' = log w @ evs \<and> progress r (submissions evs) (map (build_spec b) steps) \<and>
    artifacts w' = artifacts w @ as \<and> list_all (artifact_ok E b jobID) as \<and>
    progress r (map Artifact_ArtifactType as) (declared_types steps)"
  using orchestrator_step.build_steps_did [of E b jobID steps 0 w r w'] assms
  unfolding Buildinator_Run_def did_def by blast

lemma odd_word: "2 * x + 1 \<noteq> (0 :: 128 word)"
proof
  assume "2 * x + 1 = 0"
  then have "even (2 * x + 1)" by simp
  then show False by simp
qed

lemma calm_fresh: "fresh_uuids calm_env"
  by (simp add: fresh_uuids_def odd_word)

definition sample_build :: "env \<Rightarrow> Buildinator" where
  "sample_build E = Buildinator_New (runStep E) ''nfs'' ''/artifacts'' ''builder:1''"

theorem build_run_outcome_witness:
  "\<exists>r w' new evs as. Buildinator_Run calm_env (sample_build calm_env) (JobID 5)
      [\<lparr>BuildStep_Name = ''compile'', BuildStep_Run = ''make'', BuildStep_Outputs = []\<rparr>]
      sample_world = Some (r, w') \<and>
    map step_ident (job_steps w') = [] @ new \<and> log w' = [] @ evs \<and> artifacts w' = [] @ as \<and>
    prefix new [(JobID 5, ''compile'', Some 0, None)]"
proof -
  let ?b = "sample_build calm_env"
  let ?steps = "[\<lparr>BuildStep_Name = ''compile'', BuildStep_Run = ''make'', BuildStep_Outputs = []\<rparr>]"
  have b: "bld_step ?b = runStep calm_env" by (simp add: sample_build_def Buildinator_New_def)
  obtain r w' where run: "Buildinator_Run calm_env ?b (JobID 5) ?steps sample_world = Some (r, w')"
    using Buildinator_Run_returns [OF calm_settled b] by blast
  from build_run_outcome [OF run b sample_ready calm_fresh] obtain new evs as where
    "map step_ident (job_steps w') = map step_ident (job_steps sample_world) @ new"
    "progress r new (build_rows (JobID 5) 0 ?steps)" "log w' = log sample_world @ evs"
    "artifacts w' = artifacts sample_world @ as" by blast
  with run show ?thesis by (auto simp: progress_def build_rows_def)
qed

end
