(* ===== verification/Testinator.thy ===== *)
theory Testinator
  imports StepFns Config "HOL-Library.Sublist"
begin

text \<open>
  \<open>internal/testinator/testinator.go\<close>: test steps in declaration order, adjacent parallel ones
  as a batch of goroutines. The step function of a goroutine may be interleaved with others, so
  it is a step machine (\<open>adv\<close>, \<open>res\<close>, \<open>spawn\<close>); a sequential step is the machine run alone.
\<close>

section \<open>The code\<close>

record 'th Testinator =
  tst_adv :: "'th adv"
  tst_res :: "'th res"
  tst_spawn :: "JobID \<Rightarrow> string \<Rightarrow> int \<Rightarrow> string option \<Rightarrow> ExecutionSpec \<Rightarrow> 'th"
  tst_builderImage :: string

definition Testinator_New :: "'th adv \<Rightarrow> 'th res \<Rightarrow>
    (JobID \<Rightarrow> string \<Rightarrow> int \<Rightarrow> string option \<Rightarrow> ExecutionSpec \<Rightarrow> 'th) \<Rightarrow> string \<Rightarrow> 'th Testinator" where
  "Testinator_New adv res new builderImage = \<lparr>tst_adv = adv, tst_res = res, tst_spawn = new,
     tst_builderImage = builderImage\<rparr>"

definition specForStep :: "'th Testinator \<Rightarrow> TestStep \<Rightarrow> ExecutionSpec" where
  "specForStep t s = \<lparr>Spec_Image = tst_builderImage t,
     Spec_Command = [''sh'', ''-c'', TestStep_Run s], Spec_Env = [], Spec_Artifacts = [],
     Spec_Timeout = 0\<rparr>"

text \<open>The verb \<open>%d\<close> on a number that is not negative.\<close>

fun decimal :: "nat \<Rightarrow> string" where
  "decimal n = (if n < 10 then [char_of (48 + n)] else decimal (n div 10) @ [char_of (48 + n mod 10)])"

declare decimal.simps [simp del]

definition group_name :: "nat \<Rightarrow> string" where
  "group_name order = ''parallel-'' @ decimal order"

definition batch_threads :: "'th Testinator \<Rightarrow> JobID \<Rightarrow> TestStep list \<Rightarrow> nat \<Rightarrow> string \<Rightarrow> 'th list" where
  "batch_threads t jobID steps orderBase grp =
    map (\<lambda>(ord, s). tst_spawn t jobID (TestStep_Name s) (int ord) (Some grp) (specForStep t s))
      (List.enumerate orderBase steps)"

definition runParallel :: "env \<Rightarrow> 'th Testinator \<Rightarrow> JobID \<Rightarrow> TestStep list \<Rightarrow> nat \<Rightarrow> string \<Rightarrow> world \<Rightarrow>
    (error option \<times> world) option" where
  "runParallel E t jobID steps orderBase grp w =
    (case par_loop (tst_adv t) (tst_res t) (sched E)
            (map Live (batch_threads t jobID steps orderBase grp), [], w) of
       None \<Rightarrow> None
     | Some (_, errs, w1) \<Rightarrow> Some (case errs of [] \<Rightarrow> None | e # _ \<Rightarrow> Some e, w1))"

text \<open>
  The loop of \<open>Run\<close>: the steps from index \<open>i\<close> on and the counter \<open>order\<close>. A batch is the longest
  run of parallel steps.
\<close>

function test_steps :: "env \<Rightarrow> 'th Testinator \<Rightarrow> JobID \<Rightarrow> TestStep list \<Rightarrow> nat \<Rightarrow> world \<Rightarrow>
    (error option \<times> world) option" where
  "test_steps E t jobID [] order w = Some (None, w)"
| "test_steps E t jobID (s # ss) order w =
    (if \<not> TestStep_Parallel s then
       (case run_machine (tst_adv t) (tst_res t)
               (tst_spawn t jobID (TestStep_Name s) (int order) None (specForStep t s)) w of
          None \<Rightarrow> None
        | Some (Some e, w1) \<Rightarrow> Some (Some e, w1)
        | Some (None, w1) \<Rightarrow> test_steps E t jobID ss (order + 1) w1)
     else
       (let batch = takeWhile TestStep_Parallel (s # ss);
            rest = dropWhile TestStep_Parallel (s # ss) in
        case runParallel E t jobID batch order (group_name order) w of
          None \<Rightarrow> None
        | Some (Some e, w1) \<Rightarrow> Some (Some e, w1)
        | Some (None, w1) \<Rightarrow> test_steps E t jobID rest (order + length batch) w1))"
  by pat_completeness auto

termination
  by (relation "measure (\<lambda>(E, t, jobID, steps, order, w). length steps)")
    (auto simp: less_Suc_eq_le length_dropWhile_le)

definition Testinator_Run :: "env \<Rightarrow> 'th Testinator \<Rightarrow> JobID \<Rightarrow> TestStep list \<Rightarrow> world \<Rightarrow>
    (error option \<times> world) option" where
  "Testinator_Run E t jobID steps w = test_steps E t jobID steps 0 w"

section \<open>Group names\<close>

lemma decimal_not_Nil [simp]: "decimal n \<noteq> []" "[] \<noteq> decimal n"
  by (subst decimal.simps, simp)+

lemma digit_eq: "m < 10 \<Longrightarrow> n < 10 \<Longrightarrow> char_of (48 + m) = (char_of (48 + n) :: char) \<longleftrightarrow> m = (n :: nat)"
  using char_of_eq_iff by simp

lemma decimal_inj: "decimal m = decimal n \<Longrightarrow> m = n"
proof (induction m arbitrary: n rule: decimal.induct)
  case (1 m)
  show ?case
  proof (cases "m < 10")
    case True
    then have m: "decimal m = [char_of (48 + m)]" by (subst decimal.simps) simp
    show ?thesis
    proof (cases "n < 10")
      case n: True
      then have "decimal n = [char_of (48 + n)]" by (subst decimal.simps) simp
      with 1(2) m True n digit_eq [of m n] show ?thesis by simp
    next
      case False
      then have "decimal n = decimal (n div 10) @ [char_of (48 + n mod 10)]"
        by (subst decimal.simps) simp
      with 1(2) m show ?thesis by simp
    qed
  next
    case False
    then have m: "decimal m = decimal (m div 10) @ [char_of (48 + m mod 10)]"
      by (subst decimal.simps) simp
    show ?thesis
    proof (cases "n < 10")
      case True
      then have "decimal n = [char_of (48 + n)]" by (subst decimal.simps) simp
      with 1(2) m show ?thesis by simp
    next
      case n: False
      then have "decimal n = decimal (n div 10) @ [char_of (48 + n mod 10)]"
        by (subst decimal.simps) simp
      with 1(2) m have "decimal (m div 10) = decimal (n div 10)"
        and "char_of (48 + m mod 10) = (char_of (48 + n mod 10) :: char)" by simp_all
      with 1(1) [OF False] digit_eq [of "m mod 10" "n mod 10"] have "m div 10 = n div 10" "m mod 10 = n mod 10"
        by simp_all
      then show ?thesis by (metis div_mult_mod_eq)
    qed
  qed
qed

lemma group_name_inj: "group_name m = group_name n \<longleftrightarrow> m = n"
  by (auto simp: group_name_def dest: decimal_inj)

section \<open>The plan of a test stage\<close>

text \<open>
  The steps cut into groups: each sequential step alone, each longest run of parallel steps
  together. The rows of a group are numbered on from the group before, and those of a parallel
  group carry its name.
\<close>

function test_groups :: "TestStep list \<Rightarrow> TestStep list list" where
  "test_groups [] = []"
| "test_groups (s # ss) =
    (if \<not> TestStep_Parallel s then [s] # test_groups ss
     else takeWhile TestStep_Parallel (s # ss) # test_groups (dropWhile TestStep_Parallel (s # ss)))"
  by pat_completeness auto

termination
  by (relation "measure length") (auto simp: less_Suc_eq_le length_dropWhile_le)

definition test_row :: "JobID \<Rightarrow> nat \<Rightarrow> nat \<times> TestStep \<Rightarrow> step_ident" where
  "test_row jobID first x = (case x of (ord, s) \<Rightarrow> (jobID, TestStep_Name s, Some (int ord),
     if TestStep_Parallel s then Some (group_name first) else None))"

primrec group_rows :: "JobID \<Rightarrow> nat \<Rightarrow> TestStep list list \<Rightarrow> step_ident list list" where
  "group_rows jobID order [] = []"
| "group_rows jobID order (g # gs) =
    map (test_row jobID order) (List.enumerate order g) # group_rows jobID (order + length g) gs"

text \<open>
  What was done against a plan of groups: whole groups one after the other, in any order within a
  group, and, if an error stopped the stage, some of the next group.
\<close>

inductive groups_done :: "error option \<Rightarrow> 'a list list \<Rightarrow> 'a list \<Rightarrow> bool" where
  complete: "groups_done None [] []"
| next_group: "mset ys = mset b \<Longrightarrow> groups_done r bs zs \<Longrightarrow> groups_done r (b # bs) (ys @ zs)"
| stopped: "mset ys \<subseteq># mset b \<Longrightarrow> groups_done (Some e) (b # bs) ys"

inductive_cases groups_done_ConsE: "groups_done r (b # bs) xs"

lemma groups_done_mset:
  "groups_done r plan xs \<Longrightarrow> mset xs \<subseteq># mset (concat plan) \<and> (r = None \<longrightarrow> mset xs = mset (concat plan))"
  by (induction rule: groups_done.induct) (auto intro: subset_mset.add_mono subset_mset.order_trans)

text \<open>A plan of single steps is followed in order.\<close>

lemma groups_done_sequential:
  "groups_done r (map (\<lambda>x. [x]) xs) ys \<Longrightarrow> prefix ys xs"
proof (induction xs arbitrary: ys)
  case Nil
  then show ?case by (auto elim: groups_done.cases)
next
  case (Cons x xs)
  then have "groups_done r ([x] # map (\<lambda>x. [x]) xs) ys" by simp
  then consider us zs where "ys = us @ zs" "mset us = {#x#}" "groups_done r (map (\<lambda>x. [x]) xs) zs"
    | "mset ys \<subseteq># {#x#}"
    by (auto elim: groups_done_ConsE)
  then show ?case
  proof cases
    case 1
    then have "us = [x]" by (simp add: mset_single_iff)
    with 1 Cons.IH show ?thesis by simp
  next
    case 2
    then have "length ys \<le> 1" using size_mset_mono by fastforce
    with 2 show ?thesis by (cases ys) auto
  qed
qed

section \<open>The contract of a step function that may run in goroutines\<close>

text \<open>
  A call is given by its arguments. The contract of \<open>step_function\<close> holds for a call in the
  current goroutine; a batch of calls, however it is scheduled, keeps the same invariants, adds at
  most one row and submits at most once per call, and does so for every call when no error was
  collected.
\<close>

locale parallel_step_function =
  step_function E "\<lambda>j n ord g spec w. run_machine adv res (start j n ord g spec) w"
  for E :: env and adv :: "'th adv" and res :: "'th res"
    and start :: "JobID \<Rightarrow> string \<Rightarrow> int \<Rightarrow> string option \<Rightarrow> ExecutionSpec \<Rightarrow> 'th" +
  fixes ident_of :: "'th \<Rightarrow> step_ident" and spec_of :: "'th \<Rightarrow> ExecutionSpec"
  assumes args_start: "ident_of (start j n ord g spec) = (j, n, Some ord, g)"
      "spec_of (start j n ord g spec) = spec"
    and batch_ran: "par_loop adv res sch (map Live ts, [], w) = Some (gs', errs, w') \<Longrightarrow>
      \<forall>t\<in>set ts. \<exists>j n ord g spec. t = start j n ord g spec \<Longrightarrow> steps_ready w \<Longrightarrow>
      steps_ran E w w'"
    and batch_rows: "par_loop adv res sch (map Live ts, [], w) = Some (gs', errs, w') \<Longrightarrow>
      \<forall>t\<in>set ts. \<exists>j n ord g spec. t = start j n ord g spec \<Longrightarrow>
      \<exists>new. map step_ident (job_steps w') = map step_ident (job_steps w) @ new \<and>
        mset new \<subseteq># mset (map ident_of ts) \<and> (errs = [] \<longrightarrow> mset new = mset (map ident_of ts))"
    and batch_submits: "par_loop adv res sch (map Live ts, [], w) = Some (gs', errs, w') \<Longrightarrow>
      \<forall>t\<in>set ts. \<exists>j n ord g spec. t = start j n ord g spec \<Longrightarrow>
      \<exists>new. submissions (log w') = submissions (log w) @ new \<and>
        mset new \<subseteq># mset (map spec_of ts) \<and> (errs = [] \<longrightarrow> mset new = mset (map spec_of ts))"
    and batch_returns: "settled E \<Longrightarrow> \<exists>p'. par_loop adv res sch p = Some p'"
begin

definition runs_on :: "'th Testinator \<Rightarrow> bool" where
  "runs_on t \<longleftrightarrow> tst_adv t = adv \<and> tst_res t = res \<and> tst_spawn t = start"

definition tested :: "error option \<Rightarrow> step_ident list list \<Rightarrow> ExecutionSpec list list \<Rightarrow> world \<Rightarrow>
    world \<Rightarrow> bool" where
  "tested r rows specs w w' \<longleftrightarrow> steps_ran E w w' \<and>
     (\<exists>new. map step_ident (job_steps w') = map step_ident (job_steps w) @ new \<and>
        groups_done r rows new) \<and>
     (\<exists>sub. submissions (log w') = submissions (log w) @ sub \<and> groups_done r specs sub)"

lemma tested_refl: "steps_ready w \<Longrightarrow> tested None [] [] w w"
  by (auto simp: tested_def steps_ran_refl intro: groups_done.complete)

text \<open>What one group contributes: all of it, or some of it with an error.\<close>

definition group_ran :: "error option \<Rightarrow> step_ident list \<Rightarrow> ExecutionSpec list \<Rightarrow> world \<Rightarrow> world \<Rightarrow> bool" where
  "group_ran r rows specs w w' \<longleftrightarrow> steps_ran E w w' \<and>
     (\<exists>new. map step_ident (job_steps w') = map step_ident (job_steps w) @ new \<and>
        mset new \<subseteq># mset rows \<and> (r = None \<longrightarrow> mset new = mset rows)) \<and>
     (\<exists>sub. submissions (log w') = submissions (log w) @ sub \<and>
        mset sub \<subseteq># mset specs \<and> (r = None \<longrightarrow> mset sub = mset specs))"

lemma tested_next:
  assumes "group_ran None g h w w1" and "tested r gs hs w1 w'"
  shows "tested r (g # gs) (h # hs) w w'"
proof -
  from assms(1) obtain new sub where 1: "steps_ran E w w1"
    "map step_ident (job_steps w1) = map step_ident (job_steps w) @ new" "mset new = mset g"
    "submissions (log w1) = submissions (log w) @ sub" "mset sub = mset h"
    unfolding group_ran_def by blast
  from assms(2) obtain new' sub' where 2: "steps_ran E w1 w'"
    "map step_ident (job_steps w') = map step_ident (job_steps w1) @ new'" "groups_done r gs new'"
    "submissions (log w') = submissions (log w1) @ sub'" "groups_done r hs sub'"
    unfolding tested_def by blast
  show ?thesis
    unfolding tested_def
  proof (intro conjI exI)
    show "steps_ran E w w'" using 1(1) 2(1) by (rule steps_ran_trans)
    show "map step_ident (job_steps w') = map step_ident (job_steps w) @ (new @ new')"
      and "submissions (log w') = submissions (log w) @ (sub @ sub')" using 1 2 by simp_all
    show "groups_done r (g # gs) (new @ new')" using 1(3) 2(3) by (rule groups_done.next_group)
    show "groups_done r (h # hs) (sub @ sub')" using 1(5) 2(5) by (rule groups_done.next_group)
  qed
qed

lemma tested_stop: "group_ran (Some e) g h w w' \<Longrightarrow> tested (Some e) (g # gs) (h # hs) w w'"
  unfolding tested_def group_ran_def by (blast intro: groups_done.stopped)

lemma call_group:
  assumes "run_machine adv res (start j n ord g spec) w = Some (r, w')" and "steps_ready w"
  shows "group_ran r [(j, n, Some ord, g)] [spec] w w'"
proof -
  obtain new evs where "map step_ident (job_steps w') = map step_ident (job_steps w) @ new"
    "at_most_one r (j, n, Some ord, g) new" "log w' = log w @ evs" "at_most_one r spec (submissions evs)"
    using step_rows [OF assms(1)] step_submits [OF assms(1)] by blast
  then show ?thesis
    using step_ran [OF assms] by (auto simp: group_ran_def at_most_one_def)
qed

lemma batch_group:
  assumes "runParallel E t jobID steps order grp w = Some (r, w')" and "runs_on t" and "steps_ready w"
  shows "group_ran r (map (\<lambda>(ord, s). (jobID, TestStep_Name s, Some (int ord), Some grp))
      (List.enumerate order steps)) (map (specForStep t) steps) w w'"
proof -
  let ?ts = "batch_threads t jobID steps order grp"
  obtain gs' errs where run: "par_loop adv res (sched E) (map Live ?ts, [], w) = Some (gs', errs, w')"
    and r: "r = None \<longrightarrow> errs = []"
    using assms(1,2) by (auto simp: runParallel_def runs_on_def split: option.splits list.splits)
  have t: "tst_spawn t = start" using assms(2) by (simp add: runs_on_def)
  have start: "\<forall>th\<in>set ?ts. \<exists>j n ord g spec. th = start j n ord g spec"
    by (auto simp: batch_threads_def t) blast
  have "map ident_of ?ts = map (\<lambda>(ord, s). (jobID, TestStep_Name s, Some (int ord), Some grp))
      (List.enumerate order steps)"
    by (auto simp: batch_threads_def t args_start)
  moreover have "map spec_of ?ts = map (specForStep t) steps"
  proof -
    have "map spec_of ?ts = map (\<lambda>x. specForStep t (snd x)) (List.enumerate order steps)"
      by (auto simp: batch_threads_def t args_start)
    then show ?thesis by (simp only: map_snd_enumerate)
  qed
  ultimately show ?thesis
    using batch_ran [OF run start assms(3)] batch_rows [OF run start] batch_submits [OF run start] r
    unfolding group_ran_def by metis
qed

lemma sequential_rows:
  "\<not> TestStep_Parallel s \<Longrightarrow> map (test_row jobID first) (List.enumerate order [s]) =
     [(jobID, TestStep_Name s, Some (int order), None)]"
  by (simp add: test_row_def)

lemma parallel_rows:
  assumes "\<forall>s\<in>set steps. TestStep_Parallel s"
  shows "map (test_row jobID first) (List.enumerate order steps) =
     map (\<lambda>(ord, s). (jobID, TestStep_Name s, Some (int ord), Some (group_name first)))
       (List.enumerate order steps)"
  using assms by (auto simp: test_row_def in_set_enumerate_eq)

lemma test_steps_sequential:
  "\<not> TestStep_Parallel s \<Longrightarrow> runs_on t \<Longrightarrow> test_steps E t jobID (s # ss) order w =
     and_then (run_machine adv res (start jobID (TestStep_Name s) (int order) None (specForStep t s)) w)
       (test_steps E t jobID ss (order + 1))"
  by (simp only: test_steps.simps if_True not_False_eq_True and_then_def runs_on_def)

lemma test_steps_parallel:
  "TestStep_Parallel s \<Longrightarrow> test_steps E t jobID (s # ss) order w =
     and_then (runParallel E t jobID (takeWhile TestStep_Parallel (s # ss)) order (group_name order) w)
       (test_steps E t jobID (dropWhile TestStep_Parallel (s # ss))
         (order + length (takeWhile TestStep_Parallel (s # ss))))"
  by (simp only: test_steps.simps if_True not_True_eq_False if_False Let_def and_then_def)

declare test_steps.simps(2) [simp del] test_groups.simps(2) [simp del]

lemma test_groups_sequential: "\<not> TestStep_Parallel s \<Longrightarrow> test_groups (s # ss) = [s] # test_groups ss"
  by (simp add: test_groups.simps(2))

lemma test_groups_parallel:
  "TestStep_Parallel s \<Longrightarrow> test_groups (s # ss) =
     takeWhile TestStep_Parallel (s # ss) # test_groups (dropWhile TestStep_Parallel (s # ss))"
  by (simp add: test_groups.simps(2))

lemma dropWhile_shorter: "P x \<Longrightarrow> length (dropWhile P (x # xs)) < length (x # xs)"
  by (simp add: less_Suc_eq_le length_dropWhile_le)

text \<open>The plan of a stage, one group and the rest.\<close>

lemma tested_and_then:
  assumes "and_then m k = Some (r, w')"
    and "\<And>r1 w1. m = Some (r1, w1) \<Longrightarrow> group_ran r1 g h w w1"
    and "\<And>w1. k w1 = Some (r, w') \<Longrightarrow> steps_ready w1 \<Longrightarrow> tested r gs hs w1 w'"
  shows "tested r (g # gs) (h # hs) w w'"
  using assms(1)
proof (cases rule: and_then_SomeE)
  case (stop e)
  with assms(2) show ?thesis by (auto intro: tested_stop)
next
  case (go w1)
  with assms(2) have "group_ran None g h w w1" by simp
  moreover from this have "steps_ready w1" by (auto simp: group_ran_def dest: steps_ran_ready)
  ultimately show ?thesis using go assms(3) by (auto intro: tested_next)
qed

lemma test_steps_tested:
  assumes "test_steps E t jobID steps order w = Some (r, w')" and "runs_on t" and "steps_ready w"
  shows "tested r (group_rows jobID order (test_groups steps))
    (map (map (specForStep t)) (test_groups steps)) w w'"
  using assms(1,3)
proof (induction "length steps" arbitrary: steps order w rule: less_induct)
  case less
  show ?case
  proof (cases steps)
    case Nil
    with less.prems show ?thesis by (auto simp: tested_refl)
  next
    case (Cons s ss)
    show ?thesis
    proof (cases "TestStep_Parallel s")
      case False
      note run = less.prems(1) [unfolded Cons test_steps_sequential [OF False assms(2)]]
      from run show ?thesis
        unfolding Cons test_groups_sequential [OF False] group_rows.simps list.map
      proof (rule tested_and_then)
        show "group_ran r1 (map (test_row jobID order) (List.enumerate order [s])) [specForStep t s] w w1"
          if "run_machine adv res (start jobID (TestStep_Name s) (int order) None (specForStep t s)) w =
            Some (r1, w1)" for r1 w1
          using call_group [OF that less.prems(2)] by (simp only: sequential_rows [OF False])
        show "tested r (group_rows jobID (order + length [s]) (test_groups ss))
            (map (map (specForStep t)) (test_groups ss)) w1 w'"
          if "test_steps E t jobID ss (order + 1) w1 = Some (r, w')" "steps_ready w1" for w1
          using less.hyps [OF _ that] by (simp add: Cons)
      qed
    next
      case True
      let ?batch = "takeWhile TestStep_Parallel (s # ss)" and ?tail = "dropWhile TestStep_Parallel (s # ss)"
      have batch: "\<forall>s\<in>set ?batch. TestStep_Parallel s" by (auto dest: set_takeWhileD)
      note run = less.prems(1) [unfolded Cons test_steps_parallel [OF True]]
      from run show ?thesis
        unfolding Cons test_groups_parallel [OF True] group_rows.simps list.map
      proof (rule tested_and_then)
        show "group_ran r1 (map (test_row jobID order) (List.enumerate order ?batch))
            (map (specForStep t) ?batch) w w1"
          if "runParallel E t jobID ?batch order (group_name order) w = Some (r1, w1)" for r1 w1
          unfolding parallel_rows [OF batch] using that assms(2) less.prems(2) by (rule batch_group)
        show "tested r (group_rows jobID (order + length ?batch) (test_groups ?tail))
            (map (map (specForStep t)) (test_groups ?tail)) w1 w'"
          if "test_steps E t jobID ?tail (order + length ?batch) w1 = Some (r, w')" "steps_ready w1" for w1
          using less.hyps [OF _ that] dropWhile_shorter [of TestStep_Parallel, OF True] Cons by simp
      qed
    qed
  qed
qed

lemma test_steps_returns:
  assumes "settled E" and "runs_on t"
  shows "\<exists>r w'. test_steps E t jobID steps order w = Some (r, w')"
proof (induction "length steps" arbitrary: steps order w rule: less_induct)
  case less
  show ?case
  proof (cases steps)
    case Nil
    then show ?thesis by simp
  next
    case (Cons s ss)
    show ?thesis
    proof (cases "TestStep_Parallel s")
      case False
      show ?thesis
        unfolding Cons test_steps_sequential [OF False assms(2)]
        by (rule and_then_returns) (use step_returns [OF assms(1)] less Cons in auto)
    next
      case True
      have "\<exists>r w1. runParallel E t jobID batch order grp w = Some (r, w1)" for batch grp
        using batch_returns [OF assms(1), of "sched E"
            "(map Live (batch_threads t jobID batch order grp), [], w)"] assms(2)
        by (auto simp: runParallel_def runs_on_def)
      then show ?thesis
        unfolding Cons test_steps_parallel [OF True]
        by (rule and_then_returns) (use less Cons dropWhile_shorter [of TestStep_Parallel, OF True] in auto)
    qed
  qed
qed

end

section \<open>The stage, run with the orchestrator's step machine\<close>

interpretation orchestrator_threads: parallel_step_function E "step_adv E" step_res spawn
    thread_ident th_spec for E
proof -
  have call: "(\<lambda>j n ord g spec w. run_machine (step_adv E) step_res (spawn j n ord g spec) w) = runStep E"
    by (intro ext) (simp add: resume_eq_run_machine resume_def spawn_def)
  show "parallel_step_function E (step_adv E) step_res spawn thread_ident th_spec"
  proof (intro parallel_step_function.intro parallel_step_function_axioms.intro)
    show "step_function E (\<lambda>j n ord g spec w. run_machine (step_adv E) step_res (spawn j n ord g spec) w)"
      unfolding call by (rule orchestrator_step.step_function_axioms)
    show "thread_ident (spawn j n ord g spec) = (j, n, Some ord, g)"
      "th_spec (spawn j n ord g spec) = spec" for j n ord g spec
      by (simp_all add: spawn_def thread_ident_def)
  next
    fix sch ts w gs' errs w'
    assume run: "par_loop (step_adv E) step_res sch (map Live ts, [], w) = Some (gs', errs, w')"
      and ts: "\<forall>t\<in>set ts. \<exists>j n ord g spec. t = spawn j n ord g spec"
    show "steps_ready w \<Longrightarrow> steps_ran E w w'"
      using run by (rule par_loop_ran) (use ts in auto)
    show "\<exists>new. map step_ident (job_steps w') = map step_ident (job_steps w) @ new \<and>
        mset new \<subseteq># mset (map thread_ident ts) \<and> (errs = [] \<longrightarrow> mset new = mset (map thread_ident ts))"
      using run by (rule step_row.batch_emits) (use ts in \<open>auto simp: spawn_def row_made_def\<close>)
    show "\<exists>new. submissions (log w') = submissions (log w) @ new \<and>
        mset new \<subseteq># mset (map th_spec ts) \<and> (errs = [] \<longrightarrow> mset new = mset (map th_spec ts))"
      using run by (rule step_submission.batch_emits)
        (use ts in \<open>auto simp: spawn_def to_submit_def was_submitted_def\<close>)
  qed (rule settled_wait)
qed

text \<open>The testinator that the orchestrator builds runs its steps on that machine.\<close>

lemma runs_on_New: "orchestrator_threads.runs_on E (Testinator_New (step_adv E) step_res spawn img)"
  by (simp add: orchestrator_threads.runs_on_def Testinator_New_def)

end
