(* ===== verification/Deployinator.thy ===== *)
theory Deployinator
  imports Buildinator
begin

text \<open>
  \<open>internal/deployinator/deployinator.go\<close>: the deploy stage looks up, among the artifacts of the
  build job, the first one of the configured type and runs one step against its storage path.
\<close>

section \<open>The code\<close>

record Deployinator =
  dep_step :: StepFn
  dep_builderImage :: string

definition Deployinator_New :: "StepFn \<Rightarrow> string \<Rightarrow> Deployinator" where
  "Deployinator_New step builderImage = \<lparr>dep_step = step, dep_builderImage = builderImage\<rparr>"

definition deployCmd :: "DeployConfig \<Rightarrow> Artifact \<Rightarrow> string" where
  "deployCmd cfg art =
    (if DeployConfig_Artifact cfg = ''helm_chart''
     then ''helm upgrade --install '' @ DeployConfig_Target cfg @ '' '' @ Artifact_StoragePath art @
       '' --namespace '' @ DeployConfig_Namespace cfg
     else ''kubectl apply -f '' @ Artifact_StoragePath art @
       '' --namespace '' @ DeployConfig_Namespace cfg)"

definition deploy_spec :: "Deployinator \<Rightarrow> DeployConfig \<Rightarrow> Artifact \<Rightarrow> ExecutionSpec" where
  "deploy_spec d cfg art = \<lparr>Spec_Image = dep_builderImage d,
     Spec_Command = [''sh'', ''-c'', deployCmd cfg art], Spec_Env = [], Spec_Artifacts = [],
     Spec_Timeout = 0\<rparr>"

definition Deployinator_Run :: "env \<Rightarrow> Deployinator \<Rightarrow> JobID \<Rightarrow> JobID \<Rightarrow> DeployConfig \<Rightarrow> world \<Rightarrow>
    (error option \<times> world) option" where
  "Deployinator_Run E d jobID buildJobID cfg w =
    (case ArtifactStore_ListByJob E Ctx buildJobID w of
       (Inl e, w1) \<Rightarrow> Some (Some (Wrapf ''list build artifacts: %w'' [] e), w1)
     | (Inr arts, w1) \<Rightarrow>
        (case List.find (\<lambda>a. Artifact_ArtifactType a = DeployConfig_Artifact cfg) arts of
           None \<Rightarrow> Some (Some (Errorf ''no %q artifact found for build job %s''
             [AStr (DeployConfig_Artifact cfg), AUuid (rawJobID buildJobID)]), w1)
         | Some art \<Rightarrow> dep_step d jobID ''deploy'' 0 None (deploy_spec d cfg art) w1))"

section \<open>The artifact it picks\<close>

text \<open>The oldest of the artifacts that a job registered with a given type.\<close>

definition oldest_artifact :: "JobID \<Rightarrow> string \<Rightarrow> Artifact list \<Rightarrow> Artifact \<Rightarrow> bool" where
  "oldest_artifact job ty rows a \<longleftrightarrow> a \<in> set rows \<and> Artifact_JobID a = job \<and>
     Artifact_ArtifactType a = ty \<and>
     (\<forall>b\<in>set rows. Artifact_JobID b = job \<and> Artifact_ArtifactType b = ty \<longrightarrow>
        Artifact_CreatedAt a \<le> Artifact_CreatedAt b)"

lemma listed_find:
  assumes "List.find (\<lambda>a. Artifact_ArtifactType a = ty)
      (sort_key Artifact_CreatedAt (filter (\<lambda>a. Artifact_JobID a = job) rows)) = Some a"
  shows "oldest_artifact job ty rows a"
proof -
  let ?xs = "sort_key Artifact_CreatedAt (filter (\<lambda>a. Artifact_JobID a = job) rows)"
  have "\<forall>x\<in>set ?xs. Artifact_ArtifactType x = ty \<longrightarrow> Artifact_CreatedAt a \<le> Artifact_CreatedAt x"
    using assms by (intro find_sorted) simp_all
  moreover have "a \<in> set ?xs" "Artifact_ArtifactType a = ty"
    using find_mem [OF assms] by simp_all
  then have "a \<in> set rows" "Artifact_JobID a = job" "Artifact_ArtifactType a = ty" by simp_all
  ultimately show ?thesis by (auto simp: oldest_artifact_def)
qed

lemma ListByJob_cases:
  obtains (down) e where "ArtifactStore_ListByJob E c job w = (Inl e, w\<lparr>tick := Suc (tick w)\<rparr>)"
      "\<not> db_up E c (tick w)"
  | (up) "ArtifactStore_ListByJob E c job w =
        (Inr (sort_key Artifact_CreatedAt (filter (\<lambda>a. Artifact_JobID a = job) (artifacts w))),
         w\<lparr>tick := Suc (tick w)\<rparr>)" "db_up E c (tick w)"
  by (cases "db_up E c (tick w)")
    (auto simp: ArtifactStore_ListByJob_def pool_call_up pool_call_down tock_def)

text \<open>The stage ends in an error before any step, or is the step on the picked artifact.\<close>

lemma Deployinator_Run_cases:
  obtains (refused) e where
      "Deployinator_Run E d jobID bj cfg w = Some (Some e, w\<lparr>tick := Suc (tick w)\<rparr>)"
      "db_up E Ctx (tick w) \<Longrightarrow>
        \<forall>a\<in>set (artifacts w). \<not> (Artifact_JobID a = bj \<and> Artifact_ArtifactType a = DeployConfig_Artifact cfg)"
  | (runs) a where "oldest_artifact bj (DeployConfig_Artifact cfg) (artifacts w) a"
      "Deployinator_Run E d jobID bj cfg w =
        dep_step d jobID ''deploy'' 0 None (deploy_spec d cfg a) (w\<lparr>tick := Suc (tick w)\<rparr>)"
proof (cases rule: ListByJob_cases [of E Ctx bj w])
  case (down e)
  then show ?thesis using refused by (simp add: Deployinator_Run_def)
next
  case up
  show ?thesis
  proof (cases "List.find (\<lambda>a. Artifact_ArtifactType a = DeployConfig_Artifact cfg)
      (sort_key Artifact_CreatedAt (filter (\<lambda>a. Artifact_JobID a = bj) (artifacts w)))")
    case None
    then have "\<forall>a\<in>set (artifacts w).
        \<not> (Artifact_JobID a = bj \<and> Artifact_ArtifactType a = DeployConfig_Artifact cfg)"
      by (auto simp: find_None_iff)
    with None up refused show ?thesis by (simp add: Deployinator_Run_def)
  next
    case (Some a)
    with up runs [OF listed_find [OF Some]] show ?thesis by (simp add: Deployinator_Run_def)
  qed
qed

context step_function
begin

lemma deploy_did:
  assumes "Deployinator_Run E d jobID bj cfg w = Some (r, w')" and "dep_step d = step"
    and "steps_ready w"
  shows "r \<noteq> None \<and> did E b j r [] [] [] w w' \<or>
    (\<exists>a. oldest_artifact bj (DeployConfig_Artifact cfg) (artifacts w) a \<and>
         did E b j r [(jobID, ''deploy'', Some 0, None)] [deploy_spec d cfg a] [] w w')"
proof -
  let ?w = "w\<lparr>tick := Suc (tick w)\<rparr>"
  have w1: "did E b j None [] [] [] w ?w" by (rule did_nothing [OF assms(3)]) simp
  show ?thesis
  proof (cases rule: Deployinator_Run_cases [of E d jobID bj cfg w])
    case (refused e)
    with assms(1) have "r = Some e" "w' = ?w" by simp_all
    with did_stop [OF w1, of e "[]" "[]" "[]"] show ?thesis by auto
  next
    case (runs a)
    with assms have "step jobID ''deploy'' 0 None (deploy_spec d cfg a) ?w = Some (r, w')" by simp
    from did_step [OF w1 step_did [OF this did_ready [OF w1]]] runs(1) show ?thesis by auto
  qed
qed

lemma deploy_returns:
  assumes "settled E" and "dep_step d = step"
  shows "\<exists>r w'. Deployinator_Run E d jobID bj cfg w = Some (r, w')"
  using assms step_returns
  by (cases rule: Deployinator_Run_cases [of E d jobID bj cfg w]) auto

end

section \<open>The stage, run with the orchestrator's step function\<close>

lemma Deployinator_Run_ran:
  "Deployinator_Run E d jobID bj cfg w = Some (r, w') \<Longrightarrow> dep_step d = runStep E \<Longrightarrow> steps_ready w \<Longrightarrow>
     work_ran E w w'"
  using orchestrator_step.deploy_did [of E d jobID bj cfg w r w'] unfolding did_def by blast

lemma Deployinator_Run_returns:
  "settled E \<Longrightarrow> dep_step d = runStep E \<Longrightarrow> \<exists>r w'. Deployinator_Run E d jobID bj cfg w = Some (r, w')"
  by (rule orchestrator_step.deploy_returns)

text \<open>
  C16: when the deploy stage returns, either it has failed with nothing accepted by the executor,
  or the one thing it has had accepted is the command against the storage path of the oldest
  artifact of the configured type that the build job registered, in one step row; without an
  error it has been. So it never returns without an error when there is no such artifact.
\<close>

theorem deploy_run_outcome:
  assumes "Deployinator_Run E d jobID bj cfg w = Some (r, w')" and "dep_step d = runStep E"
    and "steps_ready w"
  shows "\<exists>evs. log w' = log w @ evs \<and> artifacts w' = artifacts w \<and>
    (r \<noteq> None \<and> submissions evs = [] \<or>
     (\<exists>a. oldest_artifact bj (DeployConfig_Artifact cfg) (artifacts w) a \<and>
          submissions evs = [deploy_spec d cfg a]))"
  using orchestrator_step.deploy_did [OF assms]
  unfolding did_def by (auto simp: progress_def prefix_Cons)

theorem deploy_run_outcome_witness:
  "\<exists>r w' evs. Deployinator_Run calm_env (Deployinator_New (runStep calm_env) ''builder'') (JobID 6)
      (JobID 5) \<lparr>DeployConfig_Artifact = ''binary'', DeployConfig_Target = ''app'',
        DeployConfig_Namespace = ''prod''\<rparr> sample_world = Some (r, w') \<and>
    log w' = [] @ evs \<and> r \<noteq> None"
proof -
  let ?d = "Deployinator_New (runStep calm_env) ''builder''"
  let ?cfg = "\<lparr>DeployConfig_Artifact = ''binary'', DeployConfig_Target = ''app'',
    DeployConfig_Namespace = ''prod''\<rparr>"
  have d: "dep_step ?d = runStep calm_env" by (simp add: Deployinator_New_def)
  obtain r w' where run: "Deployinator_Run calm_env ?d (JobID 6) (JobID 5) ?cfg sample_world = Some (r, w')"
    using Deployinator_Run_returns [OF calm_settled d] by blast
  from deploy_run_outcome [OF run d sample_ready] run show ?thesis
    by (auto simp: oldest_artifact_def)
qed

end
