(* ===== verification/Orchestrator.thy ===== *)
theory Orchestrator
  imports Buildinator Testinator Deployinator
begin

text \<open>
  \<open>New\<close>, \<open>Run\<close>, \<open>executeStages\<close> and \<open>runStage\<close> of \<open>internal/orchestrator/orchestrator.go\<close>: a
  run goes to running, its configured stages run one after the other as jobs, and the run is
  finalized under a context that cannot be cancelled.
\<close>

section \<open>The code\<close>

record OrchestratorConfig =
  BuilderImage :: string
  PollInterval :: "64 word"
  ArtifactBackend :: string
  ArtifactBasePath :: string

text \<open>
  The stores and the executor of the struct are those of the environment and the world; the poll
  interval only sets the pace at which the ticker fires.
\<close>

record Orchestrator =
  orc_build :: Buildinator
  orc_test :: "step_thread Testinator"
  orc_deploy :: Deployinator
  orc_pollInterval :: "64 word"

definition defaultPollInterval :: "64 word" where
  "defaultPollInterval = 5 * 1000000000"

definition Orchestrator_New :: "env \<Rightarrow> OrchestratorConfig \<Rightarrow> Orchestrator" where
  "Orchestrator_New E cfg =
    (let pi = (if PollInterval cfg = 0 then defaultPollInterval else PollInterval cfg) in
     \<lparr>orc_build = Buildinator_New (runStep E) (ArtifactBackend cfg) (ArtifactBasePath cfg)
        (BuilderImage cfg),
      orc_test = Testinator_New (step_adv E) step_res spawn (BuilderImage cfg),
      orc_deploy = Deployinator_New (runStep E) (BuilderImage cfg),
      orc_pollInterval = pi\<rparr>)"

definition new_job :: "PipelineRunID \<Rightarrow> string \<Rightarrow> Job" where
  "new_job runID jobType = \<lparr>Job_ID = JobID 0, Job_PipelineRunID = runID, Job_JobType = jobType,
     Job_Name = jobType, Job_Status = '''', Job_CreatedAt = zero_time, Job_StartedAt = None,
     Job_FinishedAt = None\<rparr>"

type_synonym stage_fn = "JobID \<Rightarrow> world \<Rightarrow> (error option \<times> world) option"

definition runStage :: "env \<Rightarrow> PipelineRunID \<Rightarrow> string \<Rightarrow> stage_fn \<Rightarrow> world \<Rightarrow>
    ((JobID \<times> error option) \<times> world) option" where
  "runStage E runID jobType fn w =
    (case JobStore_Create E Ctx (new_job runID jobType) w of
       (Some e, _, w1) \<Rightarrow> Some ((JobID 0, Some (Wrapf ''create %s job: %w'' [AStr jobType] e)), w1)
     | (None, job, w1) \<Rightarrow>
        (case JobStore_UpdateStatus E Ctx (Job_ID job) StageStateRunning w1 of
           (Some e, w2) \<Rightarrow> Some ((JobID 0, Some (Wrapf ''start %s job: %w'' [AStr jobType] e)), w2)
         | (None, w2) \<Rightarrow>
            (case fn (Job_ID job) w2 of
               None \<Rightarrow> None
             | Some (stageErr, w3) \<Rightarrow>
                (case JobStore_UpdateStatus E WithoutCancel (Job_ID job) (final_state stageErr) w3 of
                   (_, w4) \<Rightarrow> Some ((Job_ID job, stageErr), w4)))))"

text \<open>A stage whose job identifier is not used.\<close>

definition stage_err :: "((JobID \<times> error option) \<times> world) option \<Rightarrow> (error option \<times> world) option" where
  "stage_err m = map_option (\<lambda>((_, e), w). (e, w)) m"

definition build_stage :: "env \<Rightarrow> Orchestrator \<Rightarrow> PipelineRunID \<Rightarrow> ShipinatorConfig \<Rightarrow> world \<Rightarrow>
    ((JobID \<times> error option) \<times> world) option" where
  "build_stage E orc runID cfg w = (case Config_Build cfg of
     None \<Rightarrow> Some ((JobID 0, None), w)
   | Some b \<Rightarrow> runStage E runID JobTypeBuild
       (\<lambda>jobID. Buildinator_Run E (orc_build orc) jobID (BuildConfig_Steps b)) w)"

definition test_stage :: "env \<Rightarrow> Orchestrator \<Rightarrow> PipelineRunID \<Rightarrow> ShipinatorConfig \<Rightarrow> world \<Rightarrow>
    (error option \<times> world) option" where
  "test_stage E orc runID cfg w = (case Config_Test cfg of
     None \<Rightarrow> Some (None, w)
   | Some t \<Rightarrow> stage_err (runStage E runID JobTypeTest
       (\<lambda>jobID. Testinator_Run E (orc_test orc) jobID (TestConfig_Steps t)) w))"

definition deploy_stage :: "env \<Rightarrow> Orchestrator \<Rightarrow> PipelineRunID \<Rightarrow> ShipinatorConfig \<Rightarrow> JobID \<Rightarrow> world \<Rightarrow>
    (error option \<times> world) option" where
  "deploy_stage E orc runID cfg buildJobID w = (case Config_Deploy cfg of
     None \<Rightarrow> Some (None, w)
   | Some d \<Rightarrow> stage_err (runStage E runID JobTypeDeploy
       (\<lambda>jobID. Deployinator_Run E (orc_deploy orc) jobID buildJobID d) w))"

definition executeStages :: "env \<Rightarrow> Orchestrator \<Rightarrow> PipelineRunID \<Rightarrow> ShipinatorConfig \<Rightarrow> world \<Rightarrow>
    (error option \<times> world) option" where
  "executeStages E orc runID cfg w =
    (case build_stage E orc runID cfg w of
       None \<Rightarrow> None
     | Some ((_, Some e), w1) \<Rightarrow> Some (Some e, w1)
     | Some ((buildJobID, None), w1) \<Rightarrow>
         and_then (test_stage E orc runID cfg w1) (deploy_stage E orc runID cfg buildJobID))"

definition Run :: "env \<Rightarrow> Orchestrator \<Rightarrow> PipelineRunID \<Rightarrow> ShipinatorConfig \<Rightarrow> world \<Rightarrow>
    (error option \<times> world) option" where
  "Run E orc runID cfg w =
    (case PipelineRunStore_UpdateStatus E Ctx runID PipelineRunStateRunning w of
       (Some e, w1) \<Rightarrow> Some (Some (Wrapf ''start pipeline run: %w'' [] e), w1)
     | (None, w1) \<Rightarrow>
        (case executeStages E orc runID cfg w1 of
           None \<Rightarrow> None
         | Some (runErr, w2) \<Rightarrow>
            (let finalState =
               (if ctx_Err E Ctx (tick w2) \<noteq> None then PipelineRunStateCanceled
                else if runErr \<noteq> None then PipelineRunStateFailed
                else PipelineRunStateSuccess) in
             case PipelineRunStore_UpdateStatus E WithoutCancel runID finalState (tock w2) of
               (_, w3) \<Rightarrow> Some (runErr, w3))))"

section \<open>One stage\<close>

lemma set_row_fresh:
  "k \<notin> key ` set rows \<Longrightarrow> key r = k \<Longrightarrow> set_row key k f (rows @ [r]) = rows @ [f r]"
  by (induction rows) auto

lemma hits_fresh: "k \<notin> key ` set rows \<Longrightarrow> key r = k \<Longrightarrow> hits key k (rows @ [r]) = 1"
  by (simp add: hits_def filter_fresh)

text \<open>The job row of a stage while its steps run.\<close>

definition stage_job :: "PipelineRunID \<Rightarrow> string \<Rightarrow> world \<Rightarrow> Job \<Rightarrow> bool" where
  "stage_job runID jobType w j \<longleftrightarrow> Job_PipelineRunID j = runID \<and> Job_JobType j = jobType \<and>
     Job_ID j \<notin> Job_ID ` set (jobs w)"

lemma runStage_cases:
  obtains (not_created) e n where "runStage E runID jobType fn w = Some ((JobID 0, Some e), w\<lparr>tick := n\<rparr>)"
      "tick w \<le> n"
  | (not_started) e j n where
      "runStage E runID jobType fn w = Some ((JobID 0, Some e), w\<lparr>tick := n, jobs := jobs w @ [j]\<rparr>)"
      "stage_job runID jobType w j" "Job_Status j = statePending" "tick w \<le> n"
  | (ran) j n where
      "runStage E runID jobType fn w =
        (case fn (Job_ID j) (w\<lparr>tick := n, jobs := jobs w @ [j],
                log := log w @ [JobStatus (Job_ID j) statePending stateRunning]\<rparr>) of
           None \<Rightarrow> None
         | Some (r, w3) \<Rightarrow> Some ((Job_ID j, r),
             snd (JobStore_UpdateStatus E WithoutCancel (Job_ID j) (final_state r) w3)))"
      "stage_job runID jobType w j" "Job_Status j = stateRunning" "tick w \<le> n"
proof (cases rule: JobStore_Create_cases [of E Ctx "new_job runID jobType" w])
  case (failed e j' n)
  then show ?thesis using not_created [where n = n] by (simp add: runStage_def)
next
  case (created j' i t n)
  let ?w1 = "w\<lparr>tick := n, jobs := jobs w @ [j']\<rparr>"
  have j': "stage_job runID jobType w j'" "Job_Status j' = statePending" "Job_ID j' = i"
    using created(4) by (simp_all add: created(3) stage_job_def new_job_def statePending_def)
  show ?thesis
  proof (cases rule: JobStore_UpdateStatus_cases [of E Ctx i StageStateRunning ?w1])
    case (unsent e)
    with created(1,2) j' show ?thesis
      using not_started [where n = "n + 2" and j = j'] by (simp add: runStage_def)
  next
    case (sent f)
    have f: "Job_ID (f j') = i" "Job_Status (f j') = stateRunning" "stage_job runID jobType w (f j')"
      using j' by (simp_all add: sent(3) StageStateRunning_def stage_job_def set_job_def)
    have upd: "JobStore_UpdateStatus E Ctx i StageStateRunning ?w1 = (None, w\<lparr>tick := n + 2,
        jobs := jobs w @ [f j'], log := log w @ [JobStatus i statePending stateRunning]\<rparr>)"
      using sent(1) created(4) j'
      by (simp add: set_row_fresh filter_fresh hits_fresh ensureRowsAffected_def StageStateRunning_def)
    show ?thesis
    proof (rule ran [OF _ f(3,2)])
      show "runStage E runID jobType fn w =
        (case fn (Job_ID (f j')) (w\<lparr>tick := n + 2, jobs := jobs w @ [f j'],
                log := log w @ [JobStatus (Job_ID (f j')) statePending stateRunning]\<rparr>) of
           None \<Rightarrow> None
         | Some (r, w3) \<Rightarrow> Some ((Job_ID (f j'), r),
             snd (JobStore_UpdateStatus E WithoutCancel (Job_ID (f j')) (final_state r) w3)))"
        unfolding runStage_def created(1) f(1)
        by (simp add: j'(3) upd [simplified] split: option.split prod.split)
      show "tick w \<le> n + 2" using created(2) by simp
    qed
  qed
qed

text \<open>The update that finishes the job.\<close>

lemma finish_job_cases:
  assumes "jobs w3 = js @ [j]" and "Job_ID j \<notin> Job_ID ` set js" and "Job_Status j = stateRunning"
  obtains (lost) "snd (JobStore_UpdateStatus E WithoutCancel (Job_ID j) (final_state r) w3) =
        w3\<lparr>tick := tick w3 + 2\<rparr>" "\<not> db_reliable E"
  | (finished) j' where "snd (JobStore_UpdateStatus E WithoutCancel (Job_ID j) (final_state r) w3) =
        w3\<lparr>tick := tick w3 + 2, jobs := js @ [j'],
          log := log w3 @ [JobStatus (Job_ID j) stateRunning (final_state r)]\<rparr>"
      "Job_Status j' = final_state r" "Job_ID j' = Job_ID j" "Job_JobType j' = Job_JobType j"
      "Job_PipelineRunID j' = Job_PipelineRunID j"
proof (cases rule: JobStore_UpdateStatus_cases [of E WithoutCancel "Job_ID j" "final_state r" w3])
  case (unsent e)
  then show ?thesis using lost by (auto simp: db_reliable_def db_up_def)
next
  case (sent f)
  with assms show ?thesis
    using finished [of "f j"] by (simp add: set_row_fresh filter_fresh) (simp add: set_job_def)
qed

section \<open>What a stage leaves behind\<close>

text \<open>
  Tables and log respect the invariants; \<open>js\<close> are the job rows added. With a reliable database
  none of them is left running.
\<close>

definition run_ready :: "world \<Rightarrow> bool" where
  "run_ready w \<longleftrightarrow> steps_ready w \<and> distinct (map Job_ID (jobs w))"

definition stage_ran :: "env \<Rightarrow> world \<Rightarrow> world \<Rightarrow> Job list \<Rightarrow> bool" where
  "stage_ran E w w' js \<longleftrightarrow> jobs w' = jobs w @ js \<and> distinct (map Job_ID (jobs w')) \<and>
     work_ran E w (w'\<lparr>jobs := jobs w\<rparr>) \<and>
     (db_reliable E \<longrightarrow> (\<forall>j\<in>set js. Job_Status j \<noteq> stateRunning))"

lemma steps_ran_jobs [simp]:
  "steps_ran E (w\<lparr>jobs := x\<rparr>) (w'\<lparr>jobs := x\<rparr>) \<longleftrightarrow> steps_ran E w (w'\<lparr>jobs := jobs w\<rparr>)"
  by (simp add: steps_ran_def same_but_steps_def running_steps_def log_ok_def)

lemma jobs_artifacts_commute:
  "w\<lparr>jobs := x\<rparr>\<lparr>artifacts := y\<rparr> = w\<lparr>artifacts := y\<rparr>\<lparr>jobs := x\<rparr>"
  by simp

lemma work_ran_jobs:
  "work_ran E (w\<lparr>jobs := x\<rparr>) (w'\<lparr>jobs := x\<rparr>) \<longleftrightarrow> work_ran E w (w'\<lparr>jobs := jobs w\<rparr>)"
  by (simp add: work_ran_def steps_ran_def same_but_steps_def running_steps_def log_ok_def)

lemma steps_ready_jobs [simp]: "steps_ready (w\<lparr>jobs := x\<rparr>) = steps_ready w"
  by (simp add: steps_ready_def log_ok_def)

lemma stage_ran_ready: "stage_ran E w w' js \<Longrightarrow> run_ready w'"
  using work_ran_ready [of E w "w'\<lparr>jobs := jobs w\<rparr>"]
  unfolding stage_ran_def run_ready_def steps_ready_jobs by blast

lemma stage_ran_refl: "run_ready w \<Longrightarrow> stage_ran E w w []"
  by (simp add: stage_ran_def run_ready_def work_ran_refl)

lemma stage_ran_trans:
  assumes "stage_ran E w1 w2 js" and "stage_ran E w2 w3 ks"
  shows "stage_ran E w1 w3 (js @ ks)"
proof -
  have "work_ran E (w2\<lparr>jobs := jobs w1\<rparr>) (w3\<lparr>jobs := jobs w1\<rparr>)"
    using assms(2) by (simp add: stage_ran_def work_ran_jobs)
  with assms(1) have "work_ran E w1 (w3\<lparr>jobs := jobs w1\<rparr>)"
    unfolding stage_ran_def by (blast intro: work_ran_trans)
  moreover have "jobs w3 = jobs w1 @ (js @ ks)" using assms by (simp add: stage_ran_def)
  moreover have "distinct (map Job_ID (jobs w3))" using assms(2) unfolding stage_ran_def by blast
  moreover have "db_reliable E \<longrightarrow> (\<forall>j\<in>set (js @ ks). Job_Status j \<noteq> stateRunning)"
    using assms unfolding stage_ran_def by auto
  ultimately show ?thesis unfolding stage_ran_def by blast
qed

text \<open>A world that differs only in the clock and in permitted log entries.\<close>

lemma log_work_ran:
  assumes "steps_ready w" and "tick w \<le> tick w'" and "w' = w\<lparr>tick := tick w', log := log w @ evs\<rparr>"
    and "list_all event_ok evs"
  shows "work_ran E w w'"
proof -
  have "steps_ran E w (w\<lparr>tick := tick w', log := log w @ evs\<rparr>)"
    using assms(1,2,4)
    by (auto simp: steps_ran_def steps_ready_def same_but_steps_def running_steps_def log_ok_def)
  with assms(3) show ?thesis by (metis steps_ran_work)
qed

text \<open>The job row of a stage that has ended, and what it says of the result.\<close>

definition job_row :: "env \<Rightarrow> PipelineRunID \<Rightarrow> string \<Rightarrow> JobID \<Rightarrow> error option \<Rightarrow> Job list \<Rightarrow> bool" where
  "job_row E runID jobType jobID r js \<longleftrightarrow>
     js = [] \<and> r \<noteq> None \<or>
     (\<exists>j. js = [j] \<and> Job_PipelineRunID j = runID \<and> Job_JobType j = jobType \<and>
        (r = None \<longrightarrow> jobID = Job_ID j) \<and>
        (db_reliable E \<longrightarrow> (r = None \<longleftrightarrow> Job_Status j = stateSucceeded)))"

definition same_data :: "world \<Rightarrow> world \<Rightarrow> bool" where
  "same_data w w' \<longleftrightarrow> artifacts w' = artifacts w \<and> job_steps w' = job_steps w \<and>
     submissions (log w') = submissions (log w)"

locale stage_work =
  fixes E :: env and fn :: stage_fn
  assumes fn_ran: "fn jobID w = Some (r, w') \<Longrightarrow> steps_ready w \<Longrightarrow> work_ran E w w'"
    and fn_returns: "settled E \<Longrightarrow> \<exists>r w'. fn jobID w = Some (r, w')"
begin

lemma stage_returns:
  assumes "settled E"
  shows "\<exists>jobID r w'. runStage E runID jobType fn w = Some ((jobID, r), w')"
proof (cases rule: runStage_cases [of E runID jobType fn w])
  case (ran j n)
  then show ?thesis
    using fn_returns [OF assms, of "Job_ID j" "w\<lparr>tick := n, jobs := jobs w @ [j],
        log := log w @ [JobStatus (Job_ID j) statePending stateRunning]\<rparr>"]
    by auto
qed simp_all

lemma start_ran:
  assumes "run_ready w" and "stage_job runID jobType w j" and "tick w \<le> n"
  defines "w2 \<equiv> w\<lparr>tick := n, jobs := jobs w @ [j],
      log := log w @ [JobStatus (Job_ID j) statePending stateRunning]\<rparr>"
  shows "work_ran E w (w2\<lparr>jobs := jobs w\<rparr>)" and "steps_ready w2"
proof -
  show "work_ran E w (w2\<lparr>jobs := jobs w\<rparr>)"
    using assms
    by (intro log_work_ran [where evs = "[JobStatus (Job_ID j) statePending stateRunning]"])
      (simp_all add: run_ready_def stage_valid_cases state_defs)
  from work_ran_ready [OF this] show "steps_ready w2" by simp
qed

lemma ran_stage:
  assumes "run_ready w" and j: "stage_job runID jobType w j" "Job_Status j = stateRunning" "tick w \<le> n"
    and fn: "fn (Job_ID j) (w\<lparr>tick := n, jobs := jobs w @ [j],
      log := log w @ [JobStatus (Job_ID j) statePending stateRunning]\<rparr>) = Some (r, w3)"
  defines "w' \<equiv> snd (JobStore_UpdateStatus E WithoutCancel (Job_ID j) (final_state r) w3)"
  shows "\<exists>j'. stage_ran E w w' [j'] \<and> job_row E runID jobType (Job_ID j) r [j'] \<and> same_data w3 w'"
proof -
  let ?w2 = "w\<lparr>tick := n, jobs := jobs w @ [j],
      log := log w @ [JobStatus (Job_ID j) statePending stateRunning]\<rparr>"
  note start = start_ran [OF assms(1) j(1,3)]
  have ran: "work_ran E ?w2 w3" using fn_ran [OF fn start(2)] .
  then have j3: "jobs w3 = jobs w @ [j]"
    by (simp add: work_ran_def steps_ran_def same_but_steps_def)
  have eq: "w3\<lparr>jobs := jobs ?w2\<rparr> = w3" using j3 by simp
  have "work_ran E (?w2\<lparr>jobs := jobs w\<rparr>) (w3\<lparr>jobs := jobs w\<rparr>)"
    unfolding work_ran_jobs eq by (rule ran)
  with start(1) have w3: "work_ran E w (w3\<lparr>jobs := jobs w\<rparr>)" by (rule work_ran_trans)
  note ready3 = work_ran_ready [OF w3, simplified]
  have fresh: "Job_ID j \<notin> Job_ID ` set (jobs w)" using j(1) by (simp add: stage_job_def)
  have dist: "distinct (map Job_ID (jobs w))" using assms(1) by (simp add: run_ready_def)
  from j3 fresh j(2) show ?thesis
  proof (cases rule: finish_job_cases [where E = E and r = r, consumes 3, case_names lost finished])
    case lost
    have w': "w' = w3\<lparr>tick := tick w3 + 2\<rparr>" unfolding w'_def by (rule lost(1))
    have "work_ran E (w3\<lparr>jobs := jobs w\<rparr>) (w'\<lparr>jobs := jobs w\<rparr>)"
      using ready3 by (intro log_work_ran [where evs = "[]"]) (simp_all add: w')
    with w3 have "work_ran E w (w'\<lparr>jobs := jobs w\<rparr>)" by (rule work_ran_trans)
    with lost(2) j j3 fresh dist show ?thesis
      by (intro exI [of _ j])
        (auto simp: stage_ran_def w' job_row_def stage_job_def same_data_def)
  next
    case (finished j')
    have w': "w' = w3\<lparr>tick := tick w3 + 2, jobs := jobs w @ [j'],
        log := log w3 @ [JobStatus (Job_ID j) stateRunning (final_state r)]\<rparr>"
      unfolding w'_def by (rule finished(1))
    have "work_ran E (w3\<lparr>jobs := jobs w\<rparr>) (w'\<lparr>jobs := jobs w\<rparr>)"
      using ready3
      by (intro log_work_ran [where evs = "[JobStatus (Job_ID j) stateRunning (final_state r)]"])
        (simp_all add: w' final_state_ok)
    with w3 have "work_ran E w (w'\<lparr>jobs := jobs w\<rparr>)" by (rule work_ran_trans)
    with finished(2-5) j fresh dist show ?thesis
      by (intro exI [of _ j'])
        (auto simp: stage_ran_def w' job_row_def stage_job_def same_data_def final_state_def state_defs)
  qed
qed

lemma stage_summary:
  assumes "runStage E runID jobType fn w = Some ((jobID, r), w')" and "run_ready w"
  shows "\<exists>js. stage_ran E w w' js \<and> job_row E runID jobType jobID r js"
proof (cases rule: runStage_cases [of E runID jobType fn w])
  case (not_created e n)
  then show ?thesis
    using assms tick_ran [of w n E]
    by (intro exI [of _ "[]"]) (auto simp: stage_ran_def job_row_def run_ready_def)
next
  case (not_started e j n)
  then have "r = Some e" "w' = w\<lparr>tick := n, jobs := jobs w @ [j]\<rparr>" using assms(1) by simp_all
  then show ?thesis
    using assms(2) not_started tick_ran [of w n E]
    by (intro exI [of _ "[j]"])
      (auto simp: stage_ran_def job_row_def run_ready_def stage_job_def state_defs)
next
  case (ran j n)
  obtain r3 w3 where fn: "fn (Job_ID j) (w\<lparr>tick := n, jobs := jobs w @ [j],
      log := log w @ [JobStatus (Job_ID j) statePending stateRunning]\<rparr>) = Some (r3, w3)"
    using assms(1) ran(1) by (auto split: option.splits)
  with assms(1) ran(1) have "jobID = Job_ID j" "r3 = r"
    "w' = snd (JobStore_UpdateStatus E WithoutCancel (Job_ID j) (final_state r) w3)" by auto
  with ran_stage [OF assms(2) ran(2-4) fn] show ?thesis by blast
qed

text \<open>A stage that succeeded has called its function, between worlds with the same data.\<close>

lemma stage_called:
  assumes "runStage E runID jobType fn w = Some ((jobID, None), w')" and "run_ready w"
  shows "\<exists>w2 w3. fn jobID w2 = Some (None, w3) \<and> steps_ready w2 \<and> same_data w w2 \<and> same_data w3 w'"
proof (cases rule: runStage_cases [of E runID jobType fn w])
  case (ran j n)
  let ?w2 = "w\<lparr>tick := n, jobs := jobs w @ [j],
      log := log w @ [JobStatus (Job_ID j) statePending stateRunning]\<rparr>"
  obtain r3 w3 where fn: "fn (Job_ID j) ?w2 = Some (r3, w3)"
    using assms(1) ran(1) by (auto split: option.splits)
  with assms(1) ran(1) have "jobID = Job_ID j" "r3 = None"
    "w' = snd (JobStore_UpdateStatus E WithoutCancel (Job_ID j) (final_state None) w3)" by auto
  moreover have "same_data w ?w2" by (simp add: same_data_def)
  ultimately show ?thesis
    using fn ran_stage [OF assms(2) ran(2-4) fn] start_ran(2) [OF assms(2) ran(2,4)] by blast
qed (use assms in simp_all)

end

section \<open>The three stages of a run\<close>

lemma Orchestrator_New_sel:
  "orc_build (Orchestrator_New E oc) = Buildinator_New (runStep E) (ArtifactBackend oc)
     (ArtifactBasePath oc) (BuilderImage oc)"
  "orc_test (Orchestrator_New E oc) = Testinator_New (step_adv E) step_res spawn (BuilderImage oc)"
  "orc_deploy (Orchestrator_New E oc) = Deployinator_New (runStep E) (BuilderImage oc)"
  by (simp_all add: Orchestrator_New_def Let_def)

lemma New_steps [simp]:
  "bld_step (Buildinator_New st be bp img) = st" "dep_step (Deployinator_New st img) = st"
  by (simp_all add: Buildinator_New_def Deployinator_New_def)

interpretation build_work: stage_work E
    "\<lambda>jobID. Buildinator_Run E (orc_build (Orchestrator_New E oc)) jobID steps" for E oc steps
  by unfold_locales (simp_all add: Orchestrator_New_sel Buildinator_Run_ran Buildinator_Run_returns)

interpretation test_work: stage_work E
    "\<lambda>jobID. Testinator_Run E (orc_test (Orchestrator_New E oc)) jobID steps" for E oc steps
proof unfold_locales
  fix jobID w r w'
  assume "Testinator_Run E (orc_test (Orchestrator_New E oc)) jobID steps w = Some (r, w')"
    and "steps_ready w"
  then show "work_ran E w w'"
    using orchestrator_threads.test_steps_tested [OF _ runs_on_New]
    by (auto simp: Orchestrator_New_sel Testinator_Run_def orchestrator_threads.tested_def
        intro: steps_ran_work)
next
  fix jobID w
  assume "settled E"
  then show "\<exists>r w'. Testinator_Run E (orc_test (Orchestrator_New E oc)) jobID steps w = Some (r, w')"
    using orchestrator_threads.test_steps_returns [OF _ runs_on_New]
    by (simp add: Orchestrator_New_sel Testinator_Run_def)
qed

interpretation deploy_work: stage_work E
    "\<lambda>jobID. Deployinator_Run E (orc_deploy (Orchestrator_New E oc)) jobID bj d" for E oc bj d
  by unfold_locales (simp_all add: Orchestrator_New_sel Deployinator_Run_ran Deployinator_Run_returns)

text \<open>
  The job rows of several stages against the plan: the stages started are the first of those
  configured, in order, and with a reliable database every stage but the last succeeded, and the
  last one too if there was no error.
\<close>

definition jobs_outcome :: "env \<Rightarrow> PipelineRunID \<Rightarrow> error option \<Rightarrow> string list \<Rightarrow> Job list \<Rightarrow> bool" where
  "jobs_outcome E runID r plan js \<longleftrightarrow>
     list_all (\<lambda>j. Job_PipelineRunID j = runID) js \<and> progress r (map Job_JobType js) plan \<and>
     (db_reliable E \<longrightarrow> list_all (\<lambda>j. Job_Status j = stateSucceeded) (if r = None then js else butlast js))"

definition stages_ran :: "env \<Rightarrow> PipelineRunID \<Rightarrow> error option \<Rightarrow> string list \<Rightarrow> world \<Rightarrow> world \<Rightarrow> bool" where
  "stages_ran E runID r plan w w' \<longleftrightarrow>
     (\<exists>js. stage_ran E w w' js \<and> jobs_outcome E runID r plan js)"

lemma jobs_outcome_next:
  "jobs_outcome E runID None p js \<Longrightarrow> jobs_outcome E runID r q ks \<Longrightarrow>
     jobs_outcome E runID r (p @ q) (js @ ks)"
  by (auto simp: jobs_outcome_def progress_step butlast_append list_all_iff dest: in_set_butlastD)

lemma jobs_outcome_stop:
  "jobs_outcome E runID r p js \<Longrightarrow> jobs_outcome E runID (Some e) (p @ q) js"
  by (auto simp: jobs_outcome_def list_all_iff intro: progress_stop dest: in_set_butlastD split: if_splits)

lemma jobs_outcome_row:
  "job_row E runID jobType jobID r js \<Longrightarrow> jobs_outcome E runID r [jobType] js"
  by (auto simp: job_row_def jobs_outcome_def progress_def)

lemma stages_ran_next:
  "stages_ran E runID None p w w1 \<Longrightarrow> stages_ran E runID r q w1 w' \<Longrightarrow>
     stages_ran E runID r (p @ q) w w'"
  unfolding stages_ran_def by (blast intro: stage_ran_trans jobs_outcome_next)

lemma stages_ran_stop:
  "stages_ran E runID r p w w' \<Longrightarrow> stages_ran E runID (Some e) (p @ q) w w'"
  unfolding stages_ran_def by (blast intro: jobs_outcome_stop)

lemma stages_ran_none: "run_ready w \<Longrightarrow> stages_ran E runID None [] w w"
  by (auto simp: stages_ran_def jobs_outcome_def progress_def intro: stage_ran_refl)

lemma stages_ran_ready: "stages_ran E runID r p w w' \<Longrightarrow> run_ready w'"
  by (auto simp: stages_ran_def dest: stage_ran_ready)

lemma stage_summary_ran:
  "\<exists>js. stage_ran E w w' js \<and> job_row E runID jobType jobID r js \<Longrightarrow>
     stages_ran E runID r [jobType] w w'"
  unfolding stages_ran_def by (blast intro: jobs_outcome_row)

text \<open>The stages that a configuration asks for.\<close>

definition stage_plan :: "'a option \<Rightarrow> string \<Rightarrow> string list" where
  "stage_plan x jobType = (case x of None \<Rightarrow> [] | Some _ \<Rightarrow> [jobType])"

definition planned_stages :: "ShipinatorConfig \<Rightarrow> string list" where
  "planned_stages cfg = stage_plan (Config_Build cfg) JobTypeBuild @
     stage_plan (Config_Test cfg) JobTypeTest @ stage_plan (Config_Deploy cfg) JobTypeDeploy"

lemma stage_err_Some: "stage_err m = Some (r, w) \<longleftrightarrow> (\<exists>i. m = Some ((i, r), w))"
  by (auto simp: stage_err_def)

lemma build_stage_ran:
  assumes "build_stage E (Orchestrator_New E oc) runID cfg w = Some ((jobID, r), w')" and "run_ready w"
  shows "stages_ran E runID r (stage_plan (Config_Build cfg) JobTypeBuild) w w'"
proof (cases "Config_Build cfg")
  case None
  with assms show ?thesis by (auto simp: build_stage_def stage_plan_def intro: stages_ran_none)
next
  case (Some x)
  with assms(1) have "runStage E runID JobTypeBuild (\<lambda>jobID. Buildinator_Run E (orc_build (Orchestrator_New E oc)) jobID (BuildConfig_Steps x)) w = Some ((jobID, r), w')"
    by (simp add: build_stage_def)
  from stage_summary_ran [OF build_work.stage_summary [OF this assms(2)]] Some show ?thesis
    by (simp add: stage_plan_def)
qed

lemma test_stage_ran:
  assumes "test_stage E (Orchestrator_New E oc) runID cfg w = Some (r, w')" and "run_ready w"
  shows "stages_ran E runID r (stage_plan (Config_Test cfg) JobTypeTest) w w'"
proof (cases "Config_Test cfg")
  case None
  with assms show ?thesis by (auto simp: test_stage_def stage_plan_def intro: stages_ran_none)
next
  case (Some x)
  with assms(1) obtain i where "runStage E runID JobTypeTest (\<lambda>jobID. Testinator_Run E (orc_test (Orchestrator_New E oc)) jobID (TestConfig_Steps x)) w = Some ((i, r), w')"
    by (auto simp: test_stage_def stage_err_Some)
  from stage_summary_ran [OF test_work.stage_summary [OF this assms(2)]] Some show ?thesis
    by (simp add: stage_plan_def)
qed

lemma deploy_stage_ran:
  assumes "deploy_stage E (Orchestrator_New E oc) runID cfg bj w = Some (r, w')" and "run_ready w"
  shows "stages_ran E runID r (stage_plan (Config_Deploy cfg) JobTypeDeploy) w w'"
proof (cases "Config_Deploy cfg")
  case None
  with assms show ?thesis by (auto simp: deploy_stage_def stage_plan_def intro: stages_ran_none)
next
  case (Some x)
  with assms(1) obtain i where "runStage E runID JobTypeDeploy (\<lambda>jobID. Deployinator_Run E (orc_deploy (Orchestrator_New E oc)) jobID bj x) w = Some ((i, r), w')"
    by (auto simp: deploy_stage_def stage_err_Some)
  from stage_summary_ran [OF deploy_work.stage_summary [OF this assms(2)]] Some show ?thesis
    by (simp add: stage_plan_def)
qed

text \<open>How \<open>executeStages\<close> ends: in the build stage, or in the stages after it.\<close>

lemma executeStages_SomeE:
  assumes "executeStages E orc runID cfg w = Some (r, w')"
  obtains (build_failed) bj e where "build_stage E orc runID cfg w = Some ((bj, Some e), w')" "r = Some e"
  | (built) bj w1 where "build_stage E orc runID cfg w = Some ((bj, None), w1)"
      "and_then (test_stage E orc runID cfg w1) (deploy_stage E orc runID cfg bj) = Some (r, w')"
  using assms by (auto simp: executeStages_def split: option.splits prod.splits)

lemma executeStages_ran:
  assumes "executeStages E (Orchestrator_New E oc) runID cfg w = Some (r, w')" and "run_ready w"
  shows "stages_ran E runID r (planned_stages cfg) w w'"
  using assms(1)
proof (cases rule: executeStages_SomeE)
  case (build_failed bj e)
  with build_stage_ran [OF build_failed(1) assms(2)] show ?thesis
    unfolding planned_stages_def by (auto intro: stages_ran_stop)
next
  case (built bj w1)
  note b = build_stage_ran [OF built(1) assms(2)]
  from built(2) show ?thesis
  proof (cases rule: and_then_SomeE)
    case (stop e)
    note t = test_stage_ran [OF stop(1) stages_ran_ready [OF b]]
    show ?thesis
      using stages_ran_next [OF b stages_ran_stop [OF t]] stop(2) by (simp add: planned_stages_def)
  next
    case (go w2)
    note t = test_stage_ran [OF go(1) stages_ran_ready [OF b]]
    note d = deploy_stage_ran [OF go(2) stages_ran_ready [OF t]]
    show ?thesis
      using stages_ran_next [OF b stages_ran_next [OF t d]] by (simp add: planned_stages_def)
  qed
qed

lemma executeStages_returns:
  assumes "settled E"
  shows "\<exists>r w'. executeStages E (Orchestrator_New E oc) runID cfg w = Some (r, w')"
proof -
  have b: "\<exists>bj r w1. build_stage E (Orchestrator_New E oc) runID cfg w = Some ((bj, r), w1)"
    using build_work.stage_returns [OF assms]
    by (simp add: build_stage_def split: option.split)
  have t: "\<exists>r w2. test_stage E (Orchestrator_New E oc) runID cfg w1 = Some (r, w2)" for w1
    using test_work.stage_returns [OF assms]
    by (simp add: test_stage_def stage_err_Some split: option.split) blast
  have d: "\<exists>r w3. deploy_stage E (Orchestrator_New E oc) runID cfg bj w2 = Some (r, w3)" for bj w2
    using deploy_work.stage_returns [OF assms]
    by (simp add: deploy_stage_def stage_err_Some split: option.split) blast
  from b obtain bj r w1 where "build_stage E (Orchestrator_New E oc) runID cfg w = Some ((bj, r), w1)"
    by blast
  with and_then_returns [OF t d] show ?thesis by (cases r) (simp_all add: executeStages_def)
qed

end
