(* ===== verification/RunLifecycle.thy ===== *)
theory RunLifecycle
  imports Orchestrator
begin

text \<open>
  The life of a pipeline run, from the update that starts it to the one that finalizes it: its
  last status, the transitions it logs, what it leaves running, what it leaves alone, when it
  returns, and the stages it starts.
\<close>

section \<open>How a run ends\<close>

definition final_run_state :: "env \<Rightarrow> error option \<Rightarrow> nat \<Rightarrow> PipelineRunState" where
  "final_run_state E r n =
    (if ctx_done E n then PipelineRunStateCanceled
     else if r \<noteq> None then PipelineRunStateFailed else PipelineRunStateSuccess)"

definition start_run :: "time \<Rightarrow> PipelineRun \<Rightarrow> PipelineRun" where
  "start_run now = set_run stateRunning (Some now) None"

definition finish_run :: "env \<Rightarrow> PipelineRunID \<Rightarrow> error option \<Rightarrow> world \<Rightarrow> world" where
  "finish_run E runID r w2 =
    snd (PipelineRunStore_UpdateStatus E WithoutCancel runID (final_run_state E r (tick w2)) (tock w2))"

text \<open>
  A run that cannot be started changes nothing; one that is started moves its row to running and
  goes on to its stages.
\<close>

lemma Run_cases:
  obtains (not_started) e where "Run E orc runID cfg w = Some (Some e, w\<lparr>tick := tick w + 2\<rparr>)"
      "\<not> db_up E Ctx (Suc (tick w)) \<or> runID \<notin> PipelineRun_ID ` set (pipeline_runs w)"
  | (started) w1 where "db_up E Ctx (Suc (tick w))" "runID \<in> PipelineRun_ID ` set (pipeline_runs w)"
      "w1 = w\<lparr>tick := tick w + 2,
         pipeline_runs := set_row PipelineRun_ID runID (start_run (time_now E (tick w))) (pipeline_runs w),
         log := log w @ map (\<lambda>r. RunStatus runID (PipelineRun_Status r) stateRunning)
                  (filter (\<lambda>r. PipelineRun_ID r = runID) (pipeline_runs w))\<rparr>"
      "Run E orc runID cfg w = map_option (\<lambda>(r, w2). (r, finish_run E runID r w2))
         (executeStages E orc runID cfg w1)"
proof (cases rule: PipelineRunStore_UpdateStatus_cases [of E Ctx runID PipelineRunStateRunning w])
  case (unsent e)
  then show ?thesis using not_started by (simp add: Run_def)
next
  case (sent f)
  show ?thesis
  proof (cases "runID \<in> PipelineRun_ID ` set (pipeline_runs w)")
    case False
    then have none: "filter (\<lambda>r. PipelineRun_ID r = runID) (pipeline_runs w) = []"
      by (rule filter_fresh)
    with False sent obtain e where "PipelineRunStore_UpdateStatus E Ctx runID PipelineRunStateRunning w =
        (Some e, w\<lparr>tick := tick w + 2\<rparr>)"
      by (auto simp: ensureRowsAffected_def hits_def)
    with False not_started show ?thesis by (simp add: Run_def)
  next
    case True
    let ?w1 = "w\<lparr>tick := tick w + 2,
         pipeline_runs := set_row PipelineRun_ID runID (start_run (time_now E (tick w))) (pipeline_runs w),
         log := log w @ map (\<lambda>r. RunStatus runID (PipelineRun_Status r) stateRunning)
                  (filter (\<lambda>r. PipelineRun_ID r = runID) (pipeline_runs w))\<rparr>"
    have f: "f = start_run (time_now E (tick w))"
      by (simp add: sent(3) start_run_def PipelineRunStateRunning_def startedFinishedForStatus_def
          stateRunning_def)
    have "PipelineRunStore_UpdateStatus E Ctx runID PipelineRunStateRunning w = (None, ?w1)"
      using sent(1) True by (simp add: f PipelineRunStateRunning_def)
    then have "Run E orc runID cfg w = map_option (\<lambda>(r, w2). (r, finish_run E runID r w2))
        (executeStages E orc runID cfg ?w1)"
      by (auto simp: Run_def finish_run_def final_run_state_def ctx_Err_def Let_def
          split: option.split prod.split)
    with sent(2) True show ?thesis by (rule started [OF _ _ refl])
  qed
qed

text \<open>The stages leave the table of runs alone.\<close>

lemma stage_ran_frame:
  "stage_ran E w w' js \<Longrightarrow> pipeline_runs w' = pipeline_runs w \<and> projects w' = projects w \<and>
     repositories w' = repositories w \<and> pipelines w' = pipelines w \<and> tick w \<le> tick w'"
  by (auto simp: stage_ran_def work_ran_def steps_ran_def same_but_steps_def)

lemma stage_ran_log: "stage_ran E w w' js \<Longrightarrow> log_ok w'"
  by (auto simp: stage_ran_def work_ran_def steps_ran_def log_ok_def)

text \<open>Everything known of a run that was started and has returned.\<close>

lemma Run_started:
  assumes run: "Run E (Orchestrator_New E oc) runID cfg w = Some (r, w')"
    and up: "db_up E Ctx (Suc (tick w))" and row: "runID \<in> PipelineRun_ID ` set (pipeline_runs w)"
  obtains w1 w2 where
    "w1 = w\<lparr>tick := tick w + 2,
       pipeline_runs := set_row PipelineRun_ID runID (start_run (time_now E (tick w))) (pipeline_runs w),
       log := log w @ map (\<lambda>r. RunStatus runID (PipelineRun_Status r) stateRunning)
                (filter (\<lambda>r. PipelineRun_ID r = runID) (pipeline_runs w))\<rparr>"
    "executeStages E (Orchestrator_New E oc) runID cfg w1 = Some (r, w2)"
    "w' = finish_run E runID r w2"
proof (cases rule: Run_cases [of E "Orchestrator_New E oc" runID cfg w])
  case (not_started e)
  with up row show ?thesis by simp
next
  case (started w1)
  with run that show ?thesis by auto
qed

lemma finish_run_cases:
  obtains (lost) "finish_run E runID r w2 = w2\<lparr>tick := tick w2 + 3\<rparr>" "\<not> db_reliable E"
  | (finished) "finish_run E runID r w2 = w2\<lparr>tick := tick w2 + 3,
      pipeline_runs := set_row PipelineRun_ID runID
        (set_run (final_run_state E r (tick w2)) None (Some (time_now E (Suc (tick w2))))) (pipeline_runs w2),
      log := log w2 @ map (\<lambda>x. RunStatus runID (PipelineRun_Status x) (final_run_state E r (tick w2)))
        (filter (\<lambda>x. PipelineRun_ID x = runID) (pipeline_runs w2))\<rparr>"
proof -
  let ?s = "final_run_state E r (tick w2)"
  have s: "startedFinishedForStatus ?s n = (None, Some n)" for n
    by (simp add: startedFinishedForStatus_def final_run_state_def state_defs)
  show ?thesis
  proof (cases rule: PipelineRunStore_UpdateStatus_cases [of E WithoutCancel runID ?s "tock w2"])
    case (unsent e)
    then have "\<not> db_reliable E" using db_reliable_up by blast
    with unsent(1) show ?thesis using lost by (simp add: finish_run_def tock_def)
  next
    case (sent f)
    then show ?thesis using finished by (simp add: finish_run_def s tock_def)
  qed
qed

section \<open>What is known of a returned run\<close>

text \<open>
  The invariants a run starts from: unique keys, a log of permitted transitions, and a row of the
  run, if there is one, that is pending or running.
\<close>

definition run_can_start :: "PipelineRunID \<Rightarrow> world \<Rightarrow> bool" where
  "run_can_start runID w \<longleftrightarrow> run_ready w \<and> distinct (map PipelineRun_ID (pipeline_runs w)) \<and>
     (\<forall>x\<in>set (pipeline_runs w). PipelineRun_ID x = runID \<longrightarrow>
        PipelineRun_Status x = statePending \<or> PipelineRun_Status x = stateRunning)"

text \<open>
  The summary: \<open>js\<close> are the job rows added, and the tables below the runs are as the stages left
  them.
\<close>

definition run_summary :: "env \<Rightarrow> PipelineRunID \<Rightarrow> ShipinatorConfig \<Rightarrow> error option \<Rightarrow> world \<Rightarrow>
    world \<Rightarrow> Job list \<Rightarrow> bool" where
  "run_summary E runID cfg r w w' js \<longleftrightarrow>
     jobs w' = jobs w @ js \<and> jobs_outcome E runID r (planned_stages cfg) js \<and>
     (db_reliable E \<longrightarrow> (\<forall>j\<in>set js. Job_Status j \<noteq> stateRunning)) \<and>
     steps_ran E w (w'\<lparr>jobs := jobs w, artifacts := artifacts w, pipeline_runs := pipeline_runs w\<rparr>) \<and>
     (\<exists>as. artifacts w' = artifacts w @ as) \<and> run_ready w' \<and>
     (\<forall>k. k \<noteq> runID \<longrightarrow> get_row PipelineRun_ID k (pipeline_runs w') = get_row PipelineRun_ID k (pipeline_runs w)) \<and>
     map PipelineRun_ID (pipeline_runs w') = map PipelineRun_ID (pipeline_runs w)"

lemma start_run_simps [simp]:
  "PipelineRun_ID (start_run n r) = PipelineRun_ID r" "PipelineRun_Status (start_run n r) = stateRunning"
  by (simp_all add: start_run_def)

lemma start_run_running:
  "\<forall>x\<in>set (set_row PipelineRun_ID k (start_run n) rows). PipelineRun_ID x = k \<longrightarrow>
     PipelineRun_Status x = stateRunning"
  by (induction rows) auto

lemma run_events_ok:
  assumes "\<forall>x\<in>set rows. PipelineRun_ID x = k \<longrightarrow>
    PipelineRunState_ValidateTransition (PipelineRun_Status x) s = None"
  shows "list_all event_ok (map (\<lambda>x. RunStatus k (PipelineRun_Status x) s)
    (filter (\<lambda>x. PipelineRun_ID x = k) rows))"
  using assms by (auto simp: list_all_iff)

lemma started_ready:
  assumes "run_can_start runID w" and "w1 = w\<lparr>tick := tick w + 2,
       pipeline_runs := set_row PipelineRun_ID runID (start_run n) (pipeline_runs w),
       log := log w @ map (\<lambda>r. RunStatus runID (PipelineRun_Status r) stateRunning)
                (filter (\<lambda>r. PipelineRun_ID r = runID) (pipeline_runs w))\<rparr>"
  shows "run_ready w1"
proof -
  have "\<forall>x\<in>set (pipeline_runs w). PipelineRun_ID x = runID \<longrightarrow>
      PipelineRunState_ValidateTransition (PipelineRun_Status x) stateRunning = None"
    using assms(1) by (auto simp: run_can_start_def run_valid_cases state_defs)
  from run_events_ok [OF this] assms show ?thesis
    by (simp add: run_can_start_def run_ready_def steps_ready_def log_ok_def)
qed

text \<open>
  The finalizing update is permitted from running, which is what the stages leave the run in.
\<close>

lemma final_run_ok: "PipelineRunState_ValidateTransition stateRunning (final_run_state E r n) = None"
  by (simp add: run_valid_cases final_run_state_def state_defs)

lemma finished_ready:
  assumes "run_ready w2" and "\<forall>x\<in>set (pipeline_runs w2). PipelineRun_ID x = runID \<longrightarrow>
      PipelineRun_Status x = stateRunning"
  shows "run_ready (finish_run E runID r w2)"
proof (cases rule: finish_run_cases [of E runID r w2])
  case lost
  with assms(1) show ?thesis by (simp add: run_ready_def steps_ready_def log_ok_def)
next
  case finished
  have "\<forall>x\<in>set (pipeline_runs w2). PipelineRun_ID x = runID \<longrightarrow>
      PipelineRunState_ValidateTransition (PipelineRun_Status x) (final_run_state E r (tick w2)) = None"
    using assms(2) final_run_ok by simp
  from run_events_ok [OF this] assms(1) show ?thesis
    by (simp add: finished run_ready_def steps_ready_def log_ok_def)
qed

lemma finish_run_frame:
  "jobs (finish_run E runID r w2) = jobs w2" "job_steps (finish_run E runID r w2) = job_steps w2"
  "artifacts (finish_run E runID r w2) = artifacts w2" "projects (finish_run E runID r w2) = projects w2"
  "repositories (finish_run E runID r w2) = repositories w2"
  "pipelines (finish_run E runID r w2) = pipelines w2"
  "tick (finish_run E runID r w2) = tick w2 + 3"
  "map PipelineRun_ID (pipeline_runs (finish_run E runID r w2)) = map PipelineRun_ID (pipeline_runs w2)"
  "k \<noteq> runID \<Longrightarrow> get_row PipelineRun_ID k (pipeline_runs (finish_run E runID r w2)) =
     get_row PipelineRun_ID k (pipeline_runs w2)"
  by (cases rule: finish_run_cases [of E runID r w2]; simp add: get_row_set_row)+

lemma Run_summary:
  assumes "Run E (Orchestrator_New E oc) runID cfg w = Some (r, w')" and "run_can_start runID w"
  shows "\<exists>js. run_summary E runID cfg r w w' js"
proof (cases rule: Run_cases [of E "Orchestrator_New E oc" runID cfg w])
  case (not_started e)
  then have "r = Some e" "w' = w\<lparr>tick := tick w + 2\<rparr>" using assms(1) by simp_all
  moreover have "steps_ran E w (w\<lparr>tick := tick w + 2\<rparr>)"
    using assms(2) by (auto simp: run_can_start_def run_ready_def steps_ready_def steps_ran_def
        same_but_steps_def running_steps_def log_ok_def)
  ultimately show ?thesis
    using assms(2) by (intro exI [of _ "[]"])
      (simp add: run_summary_def jobs_outcome_def run_can_start_def run_ready_def steps_ready_def log_ok_def)
next
  case (started w1)
  have "map_option (\<lambda>(r, w2). (r, finish_run E runID r w2))
      (executeStages E (Orchestrator_New E oc) runID cfg w1) = Some (r, w')"
    using assms(1) started(4) by simp
  then obtain w2 where ex: "executeStages E (Orchestrator_New E oc) runID cfg w1 = Some (r, w2)"
    and w': "w' = finish_run E runID r w2"
    by auto
  note ready1 = started_ready [OF assms(2) started(3)]
  from executeStages_ran [OF ex ready1] obtain js where
    js: "stage_ran E w1 w2 js" "jobs_outcome E runID r (planned_stages cfg) js"
    by (auto simp: stages_ran_def)
  note frame = stage_ran_frame [OF js(1)]
  have w1: "job_steps w1 = job_steps w" "projects w1 = projects w" "repositories w1 = repositories w"
    "pipelines w1 = pipelines w" "jobs w1 = jobs w" "artifacts w1 = artifacts w" "tick w \<le> tick w1"
    by (simp_all add: started(3))
  have runs: "pipeline_runs w2 = set_row PipelineRun_ID runID (start_run (time_now E (tick w))) (pipeline_runs w)"
    using frame by (simp add: started(3))
  have "\<forall>x\<in>set (pipeline_runs w2). PipelineRun_ID x = runID \<longrightarrow> PipelineRun_Status x = stateRunning"
    unfolding runs by (rule start_run_running)
  note ready' = finished_ready [OF stage_ran_ready [OF js(1)] this, of E r, folded w']
  have "steps_ran E w1 (w2\<lparr>jobs := jobs w1, artifacts := artifacts w1\<rparr>)"
    using js(1) by (simp add: stage_ran_def work_ran_def)
  moreover have "log_ok w'" using ready' by (simp add: run_ready_def steps_ready_def)
  ultimately have "steps_ran E w
      (w'\<lparr>jobs := jobs w, artifacts := artifacts w, pipeline_runs := pipeline_runs w\<rparr>)"
    unfolding steps_ran_def same_but_steps_def running_steps_def log_ok_def
    by (simp add: w1 w' finish_run_frame) (use frame w1 in linarith)
  moreover have "get_row PipelineRun_ID k (pipeline_runs w') = get_row PipelineRun_ID k (pipeline_runs w)"
    if "k \<noteq> runID" for k
    using that by (simp add: w' finish_run_frame(9) runs get_row_set_row)
  moreover have "map PipelineRun_ID (pipeline_runs w') = map PipelineRun_ID (pipeline_runs w)"
    by (simp add: w' finish_run_frame runs)
  moreover have "jobs w' = jobs w @ js"
    and "db_reliable E \<longrightarrow> (\<forall>j\<in>set js. Job_Status j \<noteq> stateRunning)"
    and "\<exists>as. artifacts w' = artifacts w @ as"
    using js(1) by (auto simp: stage_ran_def work_ran_def w' finish_run_frame w1)
  ultimately show ?thesis using js(2) ready' unfolding run_summary_def by blast
qed

section \<open>The artifact that is deployed\<close>

text \<open>Every artifact belongs to a job, as the foreign key of the table demands.\<close>

definition artifacts_have_jobs :: "world \<Rightarrow> bool" where
  "artifacts_have_jobs w \<longleftrightarrow> Artifact_JobID ` set (artifacts w) \<subseteq> Job_ID ` set (jobs w)"

lemma test_stage_data:
  assumes "test_stage E (Orchestrator_New E oc) runID cfg w = Some (None, w')" and "run_ready w"
  shows "artifacts w' = artifacts w"
proof (cases "Config_Test cfg")
  case None
  with assms(1) show ?thesis by (simp add: test_stage_def)
next
  case (Some t)
  with assms(1) obtain i where "runStage E runID JobTypeTest
      (\<lambda>jobID. Testinator_Run E (orc_test (Orchestrator_New E oc)) jobID (TestConfig_Steps t)) w =
      Some ((i, None), w')"
    by (auto simp: test_stage_def stage_err_Some)
  from test_work.stage_called [OF this assms(2)] obtain w2 w3 where
    t: "Testinator_Run E (orc_test (Orchestrator_New E oc)) i (TestConfig_Steps t) w2 = Some (None, w3)"
    and w2: "steps_ready w2" and data: "same_data w w2" "same_data w3 w'" by blast
  have "steps_ran E w2 w3"
    using orchestrator_threads.test_steps_tested [OF _ runs_on_New w2] t
    by (auto simp: Orchestrator_New_sel Testinator_Run_def orchestrator_threads.tested_def)
  with data show ?thesis by (simp add: same_data_def steps_ran_def same_but_steps_def)
qed

text \<open>A build stage that succeeded: its job is new, and its artifacts follow the older ones.\<close>

lemma build_stage_data:
  assumes "build_stage E (Orchestrator_New E oc) runID cfg w = Some ((bj, None), w')"
    and "run_ready w" and "Config_Build cfg = Some b"
  shows "bj \<notin> Job_ID ` set (jobs w)" and "\<exists>as. artifacts w' = artifacts w @ as \<and>
    (fresh_uuids E \<longrightarrow> list_all (artifact_ok E (orc_build (Orchestrator_New E oc)) bj) as)"
proof -
  have run: "runStage E runID JobTypeBuild (\<lambda>jobID. Buildinator_Run E (orc_build (Orchestrator_New E oc))
      jobID (BuildConfig_Steps b)) w = Some ((bj, None), w')"
    using assms(1,3) by (simp add: build_stage_def)
  from build_work.stage_summary [OF run assms(2)] obtain j where
    "stage_ran E w w' [j]" "Job_ID j = bj" by (auto simp: job_row_def)
  then show "bj \<notin> Job_ID ` set (jobs w)" by (auto simp: stage_ran_def)
  from build_work.stage_called [OF run assms(2)] obtain w2 w3 where
    t: "Buildinator_Run E (orc_build (Orchestrator_New E oc)) bj (BuildConfig_Steps b) w2 = Some (None, w3)"
    and w2: "steps_ready w2" and data: "same_data w w2" "same_data w3 w'" by blast
  have "bld_step (orc_build (Orchestrator_New E oc)) = runStep E" by (simp add: Orchestrator_New_sel)
  from orchestrator_step.build_steps_did [OF t [unfolded Buildinator_Run_def] this w2] obtain as where
    "artifacts w3 = artifacts w2 @ as"
    "fresh_uuids E \<longrightarrow> list_all (artifact_ok E (orc_build (Orchestrator_New E oc)) bj) as"
    unfolding did_def by blast
  with data show "\<exists>as. artifacts w' = artifacts w @ as \<and>
      (fresh_uuids E \<longrightarrow> list_all (artifact_ok E (orc_build (Orchestrator_New E oc)) bj) as)"
    by (simp add: same_data_def)
qed

text \<open>A deploy stage that succeeded has submitted one command, on the artifact it picked.\<close>

lemma deploy_stage_data:
  assumes "deploy_stage E (Orchestrator_New E oc) runID cfg bj w = Some (None, w')"
    and "run_ready w" and "Config_Deploy cfg = Some d"
  shows "\<exists>a. oldest_artifact bj (DeployConfig_Artifact d) (artifacts w) a \<and> artifacts w' = artifacts w \<and>
    submissions (log w') = submissions (log w) @ [deploy_spec (orc_deploy (Orchestrator_New E oc)) d a]"
proof -
  obtain i where run: "runStage E runID JobTypeDeploy
      (\<lambda>jobID. Deployinator_Run E (orc_deploy (Orchestrator_New E oc)) jobID bj d) w = Some ((i, None), w')"
    using assms(1,3) by (auto simp: deploy_stage_def stage_err_Some)
  from deploy_work.stage_called [OF run assms(2)] obtain w2 w3 where
    t: "Deployinator_Run E (orc_deploy (Orchestrator_New E oc)) i bj d w2 = Some (None, w3)"
    and w2: "steps_ready w2" and data: "same_data w w2" "same_data w3 w'" by blast
  have "dep_step (orc_deploy (Orchestrator_New E oc)) = runStep E" by (simp add: Orchestrator_New_sel)
  from orchestrator_step.deploy_did [OF t this w2] obtain a where
    "oldest_artifact bj (DeployConfig_Artifact d) (artifacts w2) a"
    "did E undefined bj None [(i, ''deploy'', Some 0, None)]
       [deploy_spec (orc_deploy (Orchestrator_New E oc)) d a] [] w2 w3" by blast
  with data show ?thesis
    by (auto simp: did_def same_data_def progress_def)
qed

lemma executeStages_deploys:
  assumes "executeStages E (Orchestrator_New E oc) runID cfg w = Some (None, w')" and "run_ready w"
    and "Config_Build cfg = Some b" and "Config_Deploy cfg = Some d" and "artifacts_have_jobs w"
  shows "\<exists>a. a \<in> set (artifacts w') \<and> Artifact_JobID a \<notin> Job_ID ` set (jobs w) \<and>
    Artifact_ArtifactType a = DeployConfig_Artifact d \<and>
    (fresh_uuids E \<longrightarrow> artifact_ok E (orc_build (Orchestrator_New E oc)) (Artifact_JobID a) a) \<and>
    last (submissions (log w')) = deploy_spec (orc_deploy (Orchestrator_New E oc)) d a"
  using assms(1)
proof (cases rule: executeStages_SomeE)
  case (built bj w1)
  note ready1 = stages_ran_ready [OF build_stage_ran [OF built(1) assms(2)]]
  note b = build_stage_data [OF built(1) assms(2,3)]
  from b(2) obtain as where as: "artifacts w1 = artifacts w @ as"
    "fresh_uuids E \<longrightarrow> list_all (artifact_ok E (orc_build (Orchestrator_New E oc)) bj) as" by blast
  from built(2) obtain w2 where t: "test_stage E (Orchestrator_New E oc) runID cfg w1 = Some (None, w2)"
    and dep: "deploy_stage E (Orchestrator_New E oc) runID cfg bj w2 = Some (None, w')"
    by (auto elim: and_then_SomeE)
  note ready2 = stages_ran_ready [OF test_stage_ran [OF t ready1]]
  from deploy_stage_data [OF dep ready2 assms(4)] obtain a where
    a: "oldest_artifact bj (DeployConfig_Artifact d) (artifacts w2) a" "artifacts w' = artifacts w2"
    "submissions (log w') = submissions (log w2) @ [deploy_spec (orc_deploy (Orchestrator_New E oc)) d a]"
    by blast
  have w2: "artifacts w2 = artifacts w @ as" using test_stage_data [OF t ready1] as(1) by simp
  have "a \<notin> set (artifacts w)"
    using a(1) assms(5) b(1) by (auto simp: oldest_artifact_def artifacts_have_jobs_def)
  with a(1) w2 have "a \<in> set as" by (simp add: oldest_artifact_def)
  with a b(1) as(2) w2 show ?thesis
    by (intro exI [of _ a]) (auto simp: oldest_artifact_def list_all_iff)
qed simp

lemma executeStages_no_build:
  assumes "executeStages E (Orchestrator_New E oc) runID cfg w = Some (r, w')" and "run_ready w"
    and "Config_Build cfg = None" and "Config_Deploy cfg = Some d"
    and "JobID 0 \<notin> Artifact_JobID ` set (artifacts w)"
  shows "r \<noteq> None"
proof
  assume r: "r = None"
  from assms(1) show False
  proof (cases rule: executeStages_SomeE)
    case (built bj w1)
    then have "bj = JobID 0" "w1 = w" using assms(3) by (simp_all add: build_stage_def)
    with built(2) r obtain w2 where t: "test_stage E (Orchestrator_New E oc) runID cfg w = Some (None, w2)"
      and dep: "deploy_stage E (Orchestrator_New E oc) runID cfg (JobID 0) w2 = Some (None, w')"
      by (auto elim: and_then_SomeE)
    note ready2 = stages_ran_ready [OF test_stage_ran [OF t assms(2)]]
    from deploy_stage_data [OF dep ready2 assms(4)] test_stage_data [OF t assms(2)] assms(5)
    show False by (force simp: oldest_artifact_def image_iff)
  qed (use assms r in \<open>simp add: build_stage_def\<close>)
qed

lemma Run_returns:
  assumes "settled E"
  shows "\<exists>r w'. Run E (Orchestrator_New E oc) runID cfg w = Some (r, w')"
proof (cases rule: Run_cases [of E "Orchestrator_New E oc" runID cfg w])
  case (started w1)
  obtain r w2 where "executeStages E (Orchestrator_New E oc) runID cfg w1 = Some (r, w2)"
    using executeStages_returns [OF assms] by blast
  with started(4) show ?thesis by simp
qed simp

section \<open>Runs: the properties\<close>

lemma set_run_record:
  "set_run s None (Some m) (start_run n x) = x\<lparr>PipelineRun_Status := s,
     PipelineRun_StartedAt := Some n, PipelineRun_FinishedAt := Some m\<rparr>"
  by (simp add: set_run_def start_run_def)

text \<open>The update that starts a run: the row is running and the log says so.\<close>

lemma Run_start_world:
  assumes "db_up E Ctx (Suc (tick w))" and "runID \<in> PipelineRun_ID ` set (pipeline_runs w)"
  shows "PipelineRunStore_UpdateStatus E Ctx runID PipelineRunStateRunning w = (None, w\<lparr>tick := tick w + 2,
       pipeline_runs := set_row PipelineRun_ID runID (start_run (time_now E (tick w))) (pipeline_runs w),
       log := log w @ map (\<lambda>r. RunStatus runID (PipelineRun_Status r) stateRunning)
                (filter (\<lambda>r. PipelineRun_ID r = runID) (pipeline_runs w))\<rparr>)"
proof -
  have "startedFinishedForStatus stateRunning n = (Some n, None)" for n
    by (simp add: startedFinishedForStatus_def stateRunning_def)
  with assms show ?thesis
    by (cases rule: PipelineRunStore_UpdateStatus_cases [of E Ctx runID PipelineRunStateRunning w])
      (simp_all add: PipelineRunStateRunning_def start_run_def)
qed

text \<open>
  C1: with a database that works, a run whose start was accepted ends, when \<open>Run\<close> returns, in
  exactly one of the three final statuses, decided by the context as it is when the stages have
  returned (in the world \<open>w2\<close>) and by what they returned: canceled when the context is done then
  (whatever the stages returned), otherwise failed when they returned an error, otherwise success.
  The row keeps its other columns and has both time stamps, the start and the end of the run, even
  though the context may be done by then.
\<close>

theorem run_final_status:
  assumes "Run E (Orchestrator_New E oc) runID cfg w = Some (r, w')" and "run_can_start runID w"
    and "db_reliable E" and "\<not> ctx_done E (Suc (tick w))"
    and "get_row PipelineRun_ID runID (pipeline_runs w) = Some x"
  shows "\<exists>w2. executeStages E (Orchestrator_New E oc) runID cfg
      (snd (PipelineRunStore_UpdateStatus E Ctx runID PipelineRunStateRunning w)) = Some (r, w2) \<and>
    tick w < tick w2 \<and> tick w' = tick w2 + 3 \<and>
    get_row PipelineRun_ID runID (pipeline_runs w') = Some (x\<lparr>
      PipelineRun_Status := (if ctx_done E (tick w2) then PipelineRunStateCanceled
        else if r \<noteq> None then PipelineRunStateFailed else PipelineRunStateSuccess),
      PipelineRun_StartedAt := Some (time_now E (tick w)),
      PipelineRun_FinishedAt := Some (time_now E (Suc (tick w2)))\<rparr>)"
proof -
  have up: "db_up E Ctx (Suc (tick w))"
    using assms(3,4) by (simp add: db_reliable_def db_up_def ctx_Err_def)
  note row = get_row_Some_key [OF assms(5)]
  obtain w1 w2 where w1: "w1 = w\<lparr>tick := tick w + 2,
       pipeline_runs := set_row PipelineRun_ID runID (start_run (time_now E (tick w))) (pipeline_runs w),
       log := log w @ map (\<lambda>r. RunStatus runID (PipelineRun_Status r) stateRunning)
                (filter (\<lambda>r. PipelineRun_ID r = runID) (pipeline_runs w))\<rparr>"
    and ex: "executeStages E (Orchestrator_New E oc) runID cfg w1 = Some (r, w2)"
    and w': "w' = finish_run E runID r w2"
    by (rule Run_started [OF assms(1) up row])
  have start: "snd (PipelineRunStore_UpdateStatus E Ctx runID PipelineRunStateRunning w) = w1"
    by (simp only: Run_start_world [OF up row] w1 snd_conv)
  obtain js where "stage_ran E w1 w2 js"
    using executeStages_ran [OF ex started_ready [OF assms(2) w1]] by (auto simp: stages_ran_def)
  note frame = stage_ran_frame [OF this]
  have ticks: "tick w < tick w2" "tick w' = tick w2 + 3" using frame by (simp_all add: w1 w' finish_run_frame)
  have runs: "pipeline_runs w2 =
      set_row PipelineRun_ID runID (start_run (time_now E (tick w))) (pipeline_runs w)"
    using frame by (simp add: w1)
  have "get_row PipelineRun_ID runID (pipeline_runs w') = Some (set_run (final_run_state E r (tick w2))
        None (Some (time_now E (Suc (tick w2)))) (start_run (time_now E (tick w)) x))"
  proof (cases rule: finish_run_cases [of E runID r w2])
    case lost
    with assms(3) show ?thesis by simp
  next
    case finished
    then show ?thesis by (simp add: w' runs get_row_set_row assms(5))
  qed
  with ticks ex show ?thesis
    unfolding start set_run_record final_run_state_def by blast
qed

text \<open>
  C2: every status change that a run logs (of the run, of its jobs and of its steps, in any
  interleaving of parallel steps and with any fault of the database or the executor) is a
  transition that \<open>ValidateTransition\<close> permits, provided the run starts pending or running.
\<close>

theorem run_respects_fsm:
  assumes "Run E (Orchestrator_New E oc) runID cfg w = Some (r, w')" and "run_can_start runID w"
  shows "list_all event_ok (log w')"
  using Run_summary [OF assms]
  by (auto simp: run_summary_def run_ready_def steps_ready_def log_ok_def)

text \<open>
  C3: with a database that works, a run that has returned leaves no job and no step in the status
  running that was not in it before, whether it succeeded, failed or was cancelled.
\<close>

theorem run_leaves_nothing_running:
  assumes "Run E (Orchestrator_New E oc) runID cfg w = Some (r, w')" and "run_can_start runID w"
    and "db_reliable E"
  shows "(\<forall>j\<in>set (jobs w'). Job_Status j = stateRunning \<longrightarrow> j \<in> set (jobs w)) \<and>
    (\<forall>s\<in>set (job_steps w'). JobStep_Status s = stateRunning \<longrightarrow>
      (\<exists>s0\<in>set (job_steps w). JobStep_ID s0 = JobStep_ID s \<and> JobStep_Status s0 = stateRunning))"
proof -
  obtain js where js: "run_summary E runID cfg r w w' js" using Run_summary [OF assms(1,2)] by blast
  have "running_steps w' \<subseteq> running_steps w"
    using js assms(3) by (simp add: run_summary_def steps_ran_def running_steps_def)
  then have "\<forall>s\<in>set (job_steps w'). JobStep_Status s = stateRunning \<longrightarrow>
      (\<exists>s0\<in>set (job_steps w). JobStep_ID s0 = JobStep_ID s \<and> JobStep_Status s0 = stateRunning)"
    by (fastforce simp: running_steps_def)
  moreover have "\<forall>j\<in>set (jobs w'). Job_Status j = stateRunning \<longrightarrow> j \<in> set (jobs w)"
    using js assms(3) by (auto simp: run_summary_def)
  ultimately show ?thesis by blast
qed

text \<open>
  C5: the stages of a run are the first ones of build, test, deploy among those configured, in
  that order, one job each; the stage after one that failed is not started; and, with a database
  that works, every job but the last succeeded, and the last one too when the run returns no
  error, which is only when all configured stages were started.
\<close>

theorem run_stage_order:
  assumes "Run E (Orchestrator_New E oc) runID cfg w = Some (r, w')" and "run_can_start runID w"
  shows "\<exists>js. jobs w' = jobs w @ js \<and> list_all (\<lambda>j. Job_PipelineRunID j = runID) js \<and>
    prefix (map Job_JobType js) (planned_stages cfg) \<and>
    (r = None \<longrightarrow> map Job_JobType js = planned_stages cfg) \<and>
    (db_reliable E \<longrightarrow> list_all (\<lambda>j. Job_Status j = stateSucceeded) (if r = None then js else butlast js))"
  using Run_summary [OF assms] by (auto simp: run_summary_def jobs_outcome_def progress_def)

text \<open>
  C9: a run returns once the outside has settled, that is, from some moment on either the context
  is done and the select sees it, or every status call reports a terminal phase. No step, no
  batch of goroutines and no stage then keeps \<open>Run\<close> from returning, whatever the scheduler does
  and whatever else fails.
\<close>

theorem run_returns:
  assumes "(\<exists>N. \<forall>n\<ge>N. ctx_done E n \<and> \<not> pick_ticker E n) \<or>
    (\<exists>N. \<forall>n\<ge>N. \<forall>h. \<exists>st. ex_status E n h = Inr st \<and> ExecutionStatus_IsTerminal st)"
  shows "\<exists>r w'. Run E (Orchestrator_New E oc) runID cfg w = Some (r, w')"
  using assms by (intro Run_returns) (simp add: settled_def cancel_settled_def verdict_settled_def)

lemma Run_None:
  assumes "Run E orc runID cfg w = Some (None, w')"
  obtains w1 w2 where "w1 = w\<lparr>tick := tick w + 2,
       pipeline_runs := set_row PipelineRun_ID runID (start_run (time_now E (tick w))) (pipeline_runs w),
       log := log w @ map (\<lambda>r. RunStatus runID (PipelineRun_Status r) stateRunning)
                (filter (\<lambda>r. PipelineRun_ID r = runID) (pipeline_runs w))\<rparr>"
    "executeStages E orc runID cfg w1 = Some (None, w2)" "w' = finish_run E runID None w2"
proof (cases rule: Run_cases [of E orc runID cfg w])
  case (started w1)
  have "map_option (\<lambda>(r, w2). (r, finish_run E runID r w2)) (executeStages E orc runID cfg w1) =
      Some (None, w')"
    using assms started(4) by simp
  then obtain w2 where "executeStages E orc runID cfg w1 = Some (None, w2)" "w' = finish_run E runID None w2"
    by auto
  with started(3) show ?thesis by (rule that)
qed (use assms in simp)

lemma finish_run_submissions: "submissions (log (finish_run E runID r w2)) = submissions (log w2)"
proof -
  have "submissions (map (\<lambda>x. RunStatus k (f x) s) xs) = []" for k s f xs
    by (induction xs) simp_all
  then show ?thesis by (cases rule: finish_run_cases [of E runID r w2]) simp_all
qed

text \<open>
  C6: what a run with a build and a deploy stage deploys. When it returns without an error, the
  last thing it had accepted by the executor is the deploy command on an artifact of the
  configured type that the build job of this very run registered, whose path is that of its own
  identifier under the artifact base path.
\<close>

theorem run_deploys_own_build:
  assumes "Run E (Orchestrator_New E oc) runID cfg w = Some (None, w')" and "run_can_start runID w"
    and "Config_Build cfg = Some b" and "Config_Deploy cfg = Some d"
    and "artifacts_have_jobs w" and "fresh_uuids E"
  shows "\<exists>a. a \<in> set (artifacts w') \<and> Artifact_JobID a \<notin> Job_ID ` set (jobs w) \<and>
    Artifact_ArtifactType a = DeployConfig_Artifact d \<and>
    Artifact_StoragePath a = filepath_Join [ArtifactBasePath oc, ArtifactID_String E (Artifact_ID a)] \<and>
    last (submissions (log w')) = \<lparr>Spec_Image = BuilderImage oc,
      Spec_Command = [''sh'', ''-c'', deployCmd d a], Spec_Env = [], Spec_Artifacts = [], Spec_Timeout = 0\<rparr>"
proof (rule Run_None [OF assms(1)])
  fix w1 w2
  assume w1: "w1 = w\<lparr>tick := tick w + 2,
       pipeline_runs := set_row PipelineRun_ID runID (start_run (time_now E (tick w))) (pipeline_runs w),
       log := log w @ map (\<lambda>r. RunStatus runID (PipelineRun_Status r) stateRunning)
                (filter (\<lambda>r. PipelineRun_ID r = runID) (pipeline_runs w))\<rparr>"
    and ex: "executeStages E (Orchestrator_New E oc) runID cfg w1 = Some (None, w2)"
    and w': "w' = finish_run E runID None w2"
  have jobs: "artifacts_have_jobs w1" "jobs w1 = jobs w"
    using assms(5) by (simp_all add: w1 artifacts_have_jobs_def)
  from executeStages_deploys [OF ex started_ready [OF assms(2) w1] assms(3,4) jobs(1)] assms(6)
  show ?thesis
    by (auto simp: w' finish_run_frame finish_run_submissions jobs(2) artifact_ok_def
        Orchestrator_New_sel Buildinator_New_def Deployinator_New_def deploy_spec_def)
qed

text \<open>
  C31: a configuration that deploys without building is accepted by \<open>Load\<close> but its runs never
  succeed: the deploy stage looks for the artifacts of the zero job identifier, which no row has.
\<close>

theorem deploy_needs_build:
  assumes "Run E (Orchestrator_New E oc) runID cfg w = Some (r, w')" and "run_can_start runID w"
    and "Config_Build cfg = None" and "Config_Deploy cfg = Some d"
    and "JobID 0 \<notin> Artifact_JobID ` set (artifacts w)"
  shows "r \<noteq> None"
proof
  assume "r = None"
  with assms(1) have run: "Run E (Orchestrator_New E oc) runID cfg w = Some (None, w')" by simp
  show False
  proof (rule Run_None [OF run])
    fix w1 w2
    assume w1: "w1 = w\<lparr>tick := tick w + 2,
         pipeline_runs := set_row PipelineRun_ID runID (start_run (time_now E (tick w))) (pipeline_runs w),
         log := log w @ map (\<lambda>r. RunStatus runID (PipelineRun_Status r) stateRunning)
                  (filter (\<lambda>r. PipelineRun_ID r = runID) (pipeline_runs w))\<rparr>"
      and ex: "executeStages E (Orchestrator_New E oc) runID cfg w1 = Some (None, w2)"
    have "JobID 0 \<notin> Artifact_JobID ` set (artifacts w1)" using assms(5) by (simp add: w1)
    from executeStages_no_build [OF ex started_ready [OF assms(2) w1] assms(3,4) this]
    show False by simp
  qed
qed

text \<open>
  C32: a run whose context is already done is not started: \<open>Run\<close> returns the context's error and
  leaves every table as it is, so that the run stays pending and is never marked canceled.
\<close>

theorem run_precancelled:
  assumes "db_reliable E" and "ctx_done E (Suc (tick w))"
  shows "Run E orc runID cfg w =
    Some (Some (Wrapf ''start pipeline run: %w'' [] (ctx_error E)), w\<lparr>tick := tick w + 2\<rparr>)"
proof -
  have "\<not> db_up E Ctx (Suc (tick w))" "db_error E (Suc (tick w)) = ctx_error E"
    using assms by (simp_all add: db_up_def ctx_Err_def db_error_def db_reliable_def)
  then show ?thesis by (simp add: Run_def PipelineRunStore_UpdateStatus_down tock_def)
qed

end
