(* ===== verification/RunLiveness.thy ===== *)
theory RunLiveness
  imports RunLifecycle
begin

text \<open>
  What a run achieves when nothing goes wrong outside: the database answers, the context is not
  cancelled, the executor accepts every specification and in the end reports success, and the
  identifiers drawn are new. \<open>healthy_run_succeeds\<close> says that such a run returns without an error,
  in status success, with one succeeded job per configured stage.
\<close>

section \<open>A healthy outside\<close>

definition healthy :: "env \<Rightarrow> bool" where
  "healthy E \<longleftrightarrow> db_reliable E \<and> ctx_done_from E = None \<and> fresh_uuids E \<and>
     (\<forall>n spec. \<exists>h. ex_submit E n spec = Inr h) \<and>
     (\<forall>n h st. ex_status E n h = Inr st \<longrightarrow> ExecutionStatus_IsTerminal st \<longrightarrow>
        Status_Phase st = ExecutionPhaseSucceeded) \<and>
     (\<exists>N. verdict_settled E N)"

lemma healthy_up [simp]: "healthy E \<Longrightarrow> db_up E c n"
  by (simp add: healthy_def db_reliable_def db_up_def ctx_Err_def ctx_done_def)

lemma healthy_not_done: "healthy E \<Longrightarrow> \<not> ctx_done E n"
  by (simp add: healthy_def ctx_done_def)

lemma healthy_reliable: "healthy E \<Longrightarrow> db_reliable E"
  by (simp add: healthy_def)

lemma healthy_settled: "healthy E \<Longrightarrow> settled E"
  by (auto simp: healthy_def settled_def)

text \<open>
  The identifiers a run may draw until tick \<open>n\<close> are new: pairwise different, and in no table.
\<close>

definition used_ids :: "world \<Rightarrow> uuid set" where
  "used_ids w = rawJobID ` Job_ID ` set (jobs w) \<union> rawJobStepID ` JobStep_ID ` set (job_steps w) \<union>
     rawExecutionID ` Execution_ID ` set (executions w) \<union> rawArtifactID ` Artifact_ID ` set (artifacts w)"

definition uuids_new :: "env \<Rightarrow> world \<Rightarrow> nat \<Rightarrow> bool" where
  "uuids_new E w n \<longleftrightarrow> inj_on (uuid_new E) {tick w..<n} \<and> (\<forall>k\<in>{tick w..<n}. uuid_new E k \<notin> used_ids w)"

text \<open>Whatever an operation of a run adds to the tables carries identifiers it has drawn.\<close>

definition draws :: "env \<Rightarrow> world \<Rightarrow> world \<Rightarrow> bool" where
  "draws E w w' \<longleftrightarrow> tick w \<le> tick w' \<and> used_ids w' \<subseteq> used_ids w \<union> uuid_new E ` {tick w..<tick w'}"

lemma draws_refl [simp]: "draws E w w"
  by (simp add: draws_def)

lemma draws_trans:
  assumes "draws E u v" and "draws E v w"
  shows "draws E u w"
proof -
  have ticks: "tick u \<le> tick v" "tick v \<le> tick w" using assms by (simp_all add: draws_def)
  then have "{tick u..<tick w} = {tick u..<tick v} \<union> {tick v..<tick w}" by auto
  then have "uuid_new E ` {tick u..<tick w} = uuid_new E ` {tick u..<tick v} \<union> uuid_new E ` {tick v..<tick w}"
    by (simp only: image_Un)
  moreover have "tick u \<le> tick w" using ticks by simp
  ultimately show ?thesis using assms unfolding draws_def by blast
qed

lemma draws_new:
  assumes "draws E w w'" and "uuids_new E w n"
  shows "uuids_new E w' n"
proof -
  have "inj_on (uuid_new E) {tick w'..<n}"
    using assms by (auto simp: draws_def uuids_new_def intro: inj_on_subset)
  moreover have "uuid_new E k \<notin> used_ids w'" if k: "k \<in> {tick w'..<n}" for k
  proof
    assume "uuid_new E k \<in> used_ids w'"
    then consider "uuid_new E k \<in> used_ids w" | j where "j \<in> {tick w..<tick w'}" "uuid_new E k = uuid_new E j"
      using assms(1) by (auto simp: draws_def)
    then show False
    proof cases
      case 1
      with assms k show ?thesis by (auto simp: draws_def uuids_new_def)
    next
      case 2
      with assms k have "k = j" by (auto simp: draws_def uuids_new_def dest: inj_onD)
      with 2 k show ?thesis by simp
    qed
  qed
  ultimately show ?thesis by (auto simp: uuids_new_def)
qed

lemma draws_tick [simp]: "draws E w (w\<lparr>tick := n\<rparr>) \<longleftrightarrow> tick w \<le> n"
  by (auto simp: draws_def used_ids_def)

text \<open>The first new identifier is in no table, if it is drawn before the limit.\<close>

lemma next_new: "uuids_new E w n \<Longrightarrow> tick w < n \<Longrightarrow> uuid_new E (tick w) \<notin> used_ids w"
  by (auto simp: uuids_new_def)

lemma not_used:
  assumes "u \<notin> used_ids w"
  shows "JobID u \<notin> Job_ID ` set (jobs w)" "JobStepID u \<notin> JobStep_ID ` set (job_steps w)"
    "ExecutionID u \<notin> Execution_ID ` set (executions w)"
    "ArtifactID u \<notin> Artifact_ID ` set (artifacts w)"
  using assms by (auto simp: used_ids_def image_image image_iff) (metis JobID.sel JobStepID.sel ExecutionID.sel ArtifactID.sel)+

section \<open>The stores in a healthy outside\<close>

lemmas create_new_defs = ensureID_def uuid_New_def setCreatedAt_def time_Now_def tock_def

lemma job_create_new:
  assumes "Job_ID s = JobID 0"
  obtains r s' where "JobStore_Create E c s w = (r, s', w\<lparr>tick := tick w + 3,
      jobs := jobs w @ (if r = None then [s'] else [])\<rparr>)"
    "Job_ID s' = JobID (uuid_new E (tick w))"
    "healthy E \<Longrightarrow> uuid_new E (tick w) \<notin> used_ids w \<Longrightarrow> Job_PipelineRunID s \<in> PipelineRun_ID ` set (pipeline_runs w) \<Longrightarrow> r = None"
proof -
  let ?s = "s\<lparr>Job_ID := JobID (uuid_new E (tick w)), Job_CreatedAt := time_now E (Suc (tick w)),
    Job_Status := setDefaultStatus (Job_Status s) ''pending''\<rparr>"
  let ?w = "w\<lparr>tick := tick w + 3\<rparr>"
  have eq: "JobStore_Create E c s w = (if db_up E c (Suc (Suc (tick w)))
      then (case insert_job ?s ?w of (Inl e, w3) \<Rightarrow> (Some e, ?s, w3) | (Inr _, w3) \<Rightarrow> (None, ?s, w3))
      else (Some (db_error E (Suc (Suc (tick w)))), ?s, ?w))"
    using assms by (simp add: JobStore_Create_def create_new_defs pool_call_eq Let_def eval_nat_numeral
        split: prod.split sum.split)
  show ?thesis
  proof (cases "db_up E c (Suc (Suc (tick w))) \<and> fst (insert_job ?s ?w) = Inr 1")
    case True
    then show ?thesis by (intro that [of None ?s]) (auto simp: eq insert_job_def split: if_splits)
  next
    case False
    then have "\<exists>e. JobStore_Create E c s w = (Some e, ?s, ?w)"
      by (auto simp: eq insert_job_def)
    then obtain e where "JobStore_Create E c s w = (Some e, ?s, ?w)" ..
    moreover have False if "healthy E" "uuid_new E (tick w) \<notin> used_ids w" "fst (insert_job ?s ?w) = Inr 1"
      using that False by simp
    ultimately show ?thesis
      by (intro that [of "Some e" ?s]) (simp_all add: insert_job_def not_used)
  qed
qed

lemma step_create_new:
  assumes "JobStep_ID s = JobStepID 0"
  obtains r s' where "JobStepStore_Create E c s w = (r, s', w\<lparr>tick := tick w + 3,
      job_steps := job_steps w @ (if r = None then [s'] else [])\<rparr>)"
    "JobStep_ID s' = JobStepID (uuid_new E (tick w))"
    "healthy E \<Longrightarrow> int4_ok (JobStep_ExecutionOrder s) \<Longrightarrow> uuid_new E (tick w) \<notin> used_ids w \<Longrightarrow> JobStep_JobID s \<in> Job_ID ` set (jobs w) \<Longrightarrow> r = None"
proof -
  let ?s = "s\<lparr>JobStep_ID := JobStepID (uuid_new E (tick w)), JobStep_CreatedAt := time_now E (Suc (tick w)),
    JobStep_Status := setDefaultStatus (JobStep_Status s) ''pending''\<rparr>"
  let ?w = "w\<lparr>tick := tick w + 3\<rparr>"
  have eq: "JobStepStore_Create E c s w = (if db_up E c (Suc (Suc (tick w)))
      then (case insert_job_step ?s ?w of (Inl e, w3) \<Rightarrow> (Some e, ?s, w3) | (Inr _, w3) \<Rightarrow> (None, ?s, w3))
      else (Some (db_error E (Suc (Suc (tick w)))), ?s, ?w))"
    using assms by (simp add: JobStepStore_Create_def create_new_defs pool_call_eq Let_def eval_nat_numeral
        split: prod.split sum.split)
  show ?thesis
  proof (cases "db_up E c (Suc (Suc (tick w))) \<and> fst (insert_job_step ?s ?w) = Inr 1")
    case True
    then show ?thesis by (intro that [of None ?s]) (auto simp: eq insert_job_step_def split: if_splits)
  next
    case False
    then have "\<exists>e. JobStepStore_Create E c s w = (Some e, ?s, ?w)"
      by (auto simp: eq insert_job_step_def)
    then obtain e where "JobStepStore_Create E c s w = (Some e, ?s, ?w)" ..
    moreover have False if "healthy E" "uuid_new E (tick w) \<notin> used_ids w" "fst (insert_job_step ?s ?w) = Inr 1"
      using that False by simp
    ultimately show ?thesis
      by (intro that [of "Some e" ?s]) (simp_all add: insert_job_step_def not_used)
  qed
qed

lemma execution_create_new:
  assumes "Execution_ID s = ExecutionID 0"
  obtains r s' where "ExecutionStore_Create E c s w = (r, s', w\<lparr>tick := tick w + 3,
      executions := executions w @ (if r = None then [s'] else [])\<rparr>)"
    "Execution_ID s' = ExecutionID (uuid_new E (tick w))"
    "healthy E \<Longrightarrow> uuid_new E (tick w) \<notin> used_ids w \<Longrightarrow> Execution_JobStepID s \<in> JobStep_ID ` set (job_steps w) \<Longrightarrow> r = None"
proof -
  let ?s = "s\<lparr>Execution_ID := ExecutionID (uuid_new E (tick w)), Execution_SubmittedAt := time_now E (Suc (tick w)),
    Execution_Status := setDefaultStatus (Execution_Status s) ''pending''\<rparr>"
  let ?w = "w\<lparr>tick := tick w + 3\<rparr>"
  have eq: "ExecutionStore_Create E c s w = (if db_up E c (Suc (Suc (tick w)))
      then (case insert_execution ?s ?w of (Inl e, w3) \<Rightarrow> (Some e, ?s, w3) | (Inr _, w3) \<Rightarrow> (None, ?s, w3))
      else (Some (db_error E (Suc (Suc (tick w)))), ?s, ?w))"
    using assms by (simp add: ExecutionStore_Create_def create_new_defs pool_call_eq Let_def eval_nat_numeral
        split: prod.split sum.split)
  show ?thesis
  proof (cases "db_up E c (Suc (Suc (tick w))) \<and> fst (insert_execution ?s ?w) = Inr 1")
    case True
    then show ?thesis by (intro that [of None ?s]) (auto simp: eq insert_execution_def split: if_splits)
  next
    case False
    then have "\<exists>e. ExecutionStore_Create E c s w = (Some e, ?s, ?w)"
      by (auto simp: eq insert_execution_def)
    then obtain e where "ExecutionStore_Create E c s w = (Some e, ?s, ?w)" ..
    moreover have False if "healthy E" "uuid_new E (tick w) \<notin> used_ids w" "fst (insert_execution ?s ?w) = Inr 1"
      using that False by simp
    ultimately show ?thesis
      by (intro that [of "Some e" ?s]) (simp_all add: insert_execution_def not_used)
  qed
qed

section \<open>Steps\<close>

text \<open>
  What an action of a step does to the world besides drawing identifiers: time passes, step rows
  stay, and the tables of jobs, runs and artifacts are left alone.
\<close>

definition grown :: "world \<Rightarrow> world \<Rightarrow> bool" where
  "grown w w' \<longleftrightarrow> jobs w' = jobs w \<and> pipeline_runs w' = pipeline_runs w \<and> artifacts w' = artifacts w \<and>
     JobStep_ID ` set (job_steps w) \<subseteq> JobStep_ID ` set (job_steps w')"

lemma grown_refl [simp]: "grown w w"
  by (simp add: grown_def)

lemma grown_trans: "grown u v \<Longrightarrow> grown v w \<Longrightarrow> grown u w"
  by (auto simp: grown_def)

text \<open>A thread that can still succeed.\<close>

definition fine :: "world \<Rightarrow> step_thread \<Rightarrow> bool" where
  "fine w t \<longleftrightarrow> (case th_pc t of
     AtCreate \<Rightarrow> th_job t \<in> Job_ID ` set (jobs w) \<and> int4_ok (Some (th_order t))
   | AtStart sid \<Rightarrow> sid \<in> JobStep_ID ` set (job_steps w)
   | AtSubmit sid \<Rightarrow> sid \<in> JobStep_ID ` set (job_steps w)
   | AtRecord sid _ \<Rightarrow> sid \<in> JobStep_ID ` set (job_steps w)
   | AtUpdate _ _ _ st \<Rightarrow> ExecutionStatus_IsTerminal st \<longrightarrow> Status_Phase st = ExecutionPhaseSucceeded
   | AtSelect _ _ _ \<Rightarrow> True
   | AtStatus _ _ _ \<Rightarrow> True
   | AtCancel _ _ \<Rightarrow> False
   | AtFinal _ r \<Rightarrow> r = None
   | Returned r \<Rightarrow> r = None)"

lemma fine_grown: "grown w w' \<Longrightarrow> fine w t \<Longrightarrow> fine w' t"
  by (auto simp: fine_def grown_def split: pc.splits)

lemma update_grown:
  "draws E w (snd (JobStepStore_UpdateStatus E c k s w)) \<and> grown w (snd (JobStepStore_UpdateStatus E c k s w))"
  "draws E w (snd (ExecutionStore_UpdateStatus E c e s w)) \<and> grown w (snd (ExecutionStore_UpdateStatus E c e s w))"
  by (cases rule: JobStepStore_UpdateStatus_cases [of E c k s w]; simp add: draws_def grown_def used_ids_def)
    (cases rule: ExecutionStore_UpdateStatus_cases [of E c e s w]; simp add: draws_def grown_def used_ids_def)

lemma step_adv_grown:
  shows "draws E w (snd (step_adv E t w)) \<and> grown w (snd (step_adv E t w))"
proof -
  obtain p w' where p: "pc_adv E t w = (p, w')" by fastforce
  have "draws E w w' \<and> grown w w'"
  proof (cases "th_pc t")
    case AtCreate
    have new: "JobStep_ID (new_step (th_job t) (th_name t) (th_order t) (th_group t)) = JobStepID 0"
      by (simp add: new_step_def)
    from AtCreate p show ?thesis
      by (cases rule: step_create_new [OF new, of E Ctx w])
        (auto simp: pc_adv_def draws_def grown_def used_ids_def split: option.splits if_splits)
  next
    case (AtStart sid)
    with p show ?thesis
      using update_grown(1) [of E w Ctx sid StageStateRunning]
      by (auto simp: pc_adv_def split: prod.splits option.splits)
  next
    case (AtRecord sid h)
    have new: "Execution_ID (new_execution sid h) = ExecutionID 0" by (simp add: new_execution_def)
    from AtRecord p show ?thesis
      by (cases rule: execution_create_new [OF new, of E Ctx w])
        (auto simp: pc_adv_def draws_def grown_def used_ids_def split: option.splits if_splits)
  next
    case (AtUpdate sid eid h st)
    with p show ?thesis
      using update_grown(2) [of E w Ctx eid "Status_Phase st"] by (auto simp: pc_adv_def split: prod.splits)
  next
    case (AtFinal sid r)
    with p show ?thesis
      using update_grown(1) [of E w WithoutCancel sid "final_state r"]
      by (auto simp: pc_adv_def split: prod.splits)
  qed (use p in \<open>auto simp: pc_adv_def exec_Submit_def exec_Status_def exec_Cancel_def draws_def
      grown_def used_ids_def split: sum.splits if_splits\<close>)
  with p show ?thesis by (simp add: step_adv_def)
qed

lemma step_adv_fine:
  assumes "healthy E" and "fine w t" and "uuid_new E (tick w) \<notin> used_ids w"
  shows "fine (snd (step_adv E t w)) (fst (step_adv E t w))"
proof -
  obtain p w' where p: "pc_adv E t w = (p, w')" by fastforce
  have "fine w' (t\<lparr>th_pc := p\<rparr>)"
  proof (cases "th_pc t")
    case AtCreate
    have new: "JobStep_ID (new_step (th_job t) (th_name t) (th_order t) (th_group t)) = JobStepID 0"
      by (simp add: new_step_def)
    from AtCreate p assms show ?thesis
      by (cases rule: step_create_new [OF new, of E Ctx w])
        (auto simp: pc_adv_def fine_def new_step_def split: option.splits)
  next
    case (AtStart sid)
    with assms have sid: "sid \<in> JobStep_ID ` set (job_steps w)" by (simp add: fine_def)
    obtain u w1 where u: "JobStepStore_UpdateStatus E Ctx sid StageStateRunning w = (u, w1)" by fastforce
    have "u = None"
      using step_store.update_hit [OF healthy_up [OF assms(1)] sid, of Ctx StageStateRunning] u by simp
    with AtStart p u have "p = AtSubmit sid" "w' = w1" by (simp_all add: pc_adv_def)
    moreover have "sid \<in> JobStep_ID ` set (job_steps w1)"
      using update_grown(1) [of E w Ctx sid StageStateRunning] u sid by (auto simp: grown_def)
    ultimately show ?thesis by (simp add: fine_def)
  next
    case (AtSubmit sid)
    obtain h where "ex_submit E (tick w) (th_spec t) = Inr h"
      using assms(1) unfolding healthy_def by blast
    with AtSubmit p assms(2) show ?thesis
      by (auto simp: pc_adv_def fine_def exec_Submit_def)
  next
    case (AtRecord sid h)
    have new: "Execution_ID (new_execution sid h) = ExecutionID 0" by (simp add: new_execution_def)
    from AtRecord p assms show ?thesis
      by (cases rule: execution_create_new [OF new, of E Ctx w])
        (auto simp: pc_adv_def fine_def new_execution_def split: option.splits)
  next
    case (AtSelect sid eid h)
    with p healthy_not_done [OF assms(1)] show ?thesis by (auto simp: pc_adv_def fine_def)
  next
    case (AtStatus sid eid h)
    with p assms(1) show ?thesis
      by (auto simp: pc_adv_def fine_def exec_Status_def healthy_def split: sum.splits)
  next
    case (AtUpdate sid eid h st)
    with p assms(2) show ?thesis
      by (auto simp: pc_adv_def fine_def split: prod.splits)
  next
    case (Returned r)
    with p have "p = Returned r" "w' = w" by (simp_all add: pc_adv_def)
    with Returned assms(2) show ?thesis by (simp add: fine_def)
  qed (use p assms(2) in \<open>auto simp: pc_adv_def fine_def split: prod.splits\<close>)
  with p show ?thesis by (simp add: step_adv_def)
qed

text \<open>A call in the current goroutine, and a batch of them, until tick \<open>n\<close>.\<close>

definition fares :: "env \<Rightarrow> error option \<Rightarrow> world \<Rightarrow> world \<Rightarrow> bool" where
  "fares E r w w' \<longleftrightarrow> draws E w w' \<and> grown w w' \<and> (uuids_new E w (tick w') \<longrightarrow> r = None)"

definition fine_until :: "env \<Rightarrow> nat \<Rightarrow> world \<Rightarrow> step_thread \<Rightarrow> world \<Rightarrow> bool" where
  "fine_until E n w0 t w \<longleftrightarrow> draws E w0 w \<and> grown w0 w \<and> (tick w \<le> n \<longrightarrow> fine w t)"

lemma step_adv_until:
  assumes "healthy E" and "uuids_new E w0 n" and "fine_until E n w0 t w" and "step_res t = None"
  shows "fine_until E n w0 (fst (step_adv E t w)) (snd (step_adv E t w))"
proof -
  note later = step_adv_tick [OF assms(4), of w E]
  have "fine (snd (step_adv E t w)) (fst (step_adv E t w))" if "tick (snd (step_adv E t w)) \<le> n"
  proof (rule step_adv_fine [OF assms(1)])
    show "fine w t" using assms(3) later that by (simp add: fine_until_def)
    have "uuids_new E w n" using assms(2,3) by (auto simp: fine_until_def intro: draws_new)
    from next_new [OF this] show "uuid_new E (tick w) \<notin> used_ids w" using later that by simp
  qed
  then show ?thesis
    using assms(3) step_adv_grown [of E w t] unfolding fine_until_def by (meson draws_trans grown_trans)
qed

lemma call_fares:
  assumes "healthy E" and "run_machine (step_adv E) step_res t w = Some (r, w')" and "fine w t"
  shows "fares E r w w'"
proof -
  have "draws E w w' \<and> grown w w'"
  proof -
    have "\<exists>t'. (draws E w w' \<and> grown w w') \<and> step_res t' = Some r"
      by (rule run_machine_inv [where I = "\<lambda>t' w'. draws E w w' \<and> grown w w'", OF assms(2)])
        (use step_adv_grown in \<open>auto intro: draws_trans grown_trans\<close>)
    then show ?thesis by simp
  qed
  moreover have "r = None" if "uuids_new E w (tick w')"
  proof -
    have "\<exists>t'. fine_until E (tick w') w t' w' \<and> step_res t' = Some r"
      by (rule run_machine_inv [where I = "fine_until E (tick w') w", OF assms(2)])
        (use assms(3) step_adv_until [OF assms(1) that] in \<open>auto simp: fine_until_def\<close>)
    then show ?thesis by (auto simp: fine_until_def fine_def step_res_def split: pc.splits)
  qed
  ultimately show ?thesis by (simp add: fares_def)
qed

definition pool_fine :: "env \<Rightarrow> nat \<Rightarrow> world \<Rightarrow> step_thread pool \<Rightarrow> bool" where
  "pool_fine E n w0 p \<longleftrightarrow> (case p of (gs, errs, w) \<Rightarrow> draws E w0 w \<and> grown w0 w \<and>
     (tick w \<le> n \<longrightarrow> errs = [] \<and> (\<forall>t. Live t \<in> set gs \<longrightarrow> fine w t)))"

lemma pool_fine_step:
  assumes "go_step (step_adv E) step_res p p'" and "healthy E" and "uuids_new E w0 n"
    and "pool_fine E n w0 p"
  shows "pool_fine E n w0 p'"
  using assms(1)
proof cases
  case (move i gs t w t' w' errs)
  have t: "Live t \<in> set gs" using move(3,4) by (metis nth_mem)
  have tw: "t' = fst (step_adv E t w)" "w' = snd (step_adv E t w)" using move(6) by simp_all
  have "fine_until E n w0 t w" using assms(4) t move(1) by (simp add: pool_fine_def fine_until_def)
  note t' = step_adv_until [OF assms(2,3) this move(5), folded tw]
  have "tick w \<le> tick w'" "grown w w'"
    using step_adv_grown [of E w t] by (simp_all add: tw draws_def)
  then have "fine w' u" if "Live u \<in> set (gs[i := Live t'])" "tick w' \<le> n" for u
    using that t' assms(4) move(1) set_update_subset_insert [of gs i "Live t'"]
    by (auto simp: pool_fine_def fine_until_def intro: fine_grown)
  then show ?thesis
    using t' assms(4) move(1) \<open>tick w \<le> tick w'\<close> by (auto simp: move(2) pool_fine_def fine_until_def)
next
  case (exit i gs t r errs w)
  have t: "Live t \<in> set gs" using exit(3,4) by (metis nth_mem)
  have "r = None" if "tick w \<le> n"
    using assms(4) exit t that by (auto simp: pool_fine_def fine_def step_res_def split: pc.splits)
  then show ?thesis
    using assms(4) exit(1) set_update_subset_insert [of gs i "Exited r"]
    by (auto simp: exit(2) pool_fine_def err_list_def)
qed

lemma batch_fares:
  assumes "healthy E" and "par_loop (step_adv E) step_res sch (map Live ts, [], w) = Some (gs', errs, w')"
    and "\<forall>t\<in>set ts. fine w t"
  shows "fares E (case errs of [] \<Rightarrow> None | e # _ \<Rightarrow> Some e) w w'"
proof -
  have run: "(go_step (step_adv E) step_res)\<^sup>*\<^sup>* (map Live ts, [], w) (gs', errs, w')"
    using par_loop_sound [OF assms(2)] by blast
  have "draws E w w' \<and> grown w w'"
  proof -
    have "draws E w (snd (snd (gs', errs, w'))) \<and> grown w (snd (snd (gs', errs, w')))"
      using run
    proof (rule go_steps_inv)
      fix p p' assume "go_step (step_adv E) step_res p p'"
        and "draws E w (snd (snd p)) \<and> grown w (snd (snd p))"
      then show "draws E w (snd (snd p')) \<and> grown w (snd (snd p'))"
      proof (cases rule: go_step.cases)
        case (move i gs t w1 t' w2 errs)
        then show ?thesis
          using \<open>draws E w (snd (snd p)) \<and> grown w (snd (snd p))\<close> step_adv_grown [of E w1 t]
          by (auto intro: draws_trans grown_trans)
      qed simp
    qed simp
    then show ?thesis by simp
  qed
  moreover have "errs = []" if "uuids_new E w (tick w')"
  proof -
    have "pool_fine E (tick w') w (gs', errs, w')"
      using run
      by (rule go_steps_inv) (use assms(3) pool_fine_step [OF _ assms(1) that] in \<open>auto simp: pool_fine_def\<close>)
    then show ?thesis by (simp add: pool_fine_def)
  qed
  ultimately show ?thesis by (simp add: fares_def)
qed

section \<open>Stages\<close>

text \<open>The same for work that may also register artifacts.\<close>

definition goes :: "env \<Rightarrow> error option \<Rightarrow> world \<Rightarrow> world \<Rightarrow> bool" where
  "goes E r w w' \<longleftrightarrow> draws E w w' \<and> jobs w' = jobs w \<and> pipeline_runs w' = pipeline_runs w \<and>
     (uuids_new E w (tick w') \<longrightarrow> r = None)"

lemma fares_goes: "fares E r w w' \<Longrightarrow> goes E r w w'"
  by (simp add: fares_def goes_def grown_def)

lemma goes_tick [simp]: "goes E None w (w\<lparr>tick := n\<rparr>) \<longleftrightarrow> tick w \<le> n"
  by (simp add: goes_def)

lemma goes_trans: "goes E None w w1 \<Longrightarrow> goes E r w1 w' \<Longrightarrow> goes E r w w'"
  unfolding goes_def using draws_trans draws_new by metis

lemma uuids_new_le: "uuids_new E w n \<Longrightarrow> m \<le> n \<Longrightarrow> uuids_new E w m"
  by (auto simp: uuids_new_def intro: inj_on_subset)

lemma goes_and_then:
  assumes "and_then m k = Some (r, w')" and "\<And>r1 w1. m = Some (r1, w1) \<Longrightarrow> goes E r1 w w1"
    and "\<And>w1. m = Some (None, w1) \<Longrightarrow> k w1 = Some (r, w') \<Longrightarrow> goes E r w1 w'"
  shows "goes E r w w'"
  using assms(1)
proof (cases rule: and_then_SomeE)
  case (stop e)
  with assms(2) show ?thesis by simp
next
  case (go w1)
  with assms(2,3) show ?thesis by (blast intro: goes_trans)
qed

lemma runStep_fares:
  assumes "healthy E" and "runStep E jobID name order grp spec w = Some (r, w')"
    and "jobID \<in> Job_ID ` set (jobs w)" and "int4_ok (Some order)"
  shows "fares E r w w'"
  using assms by (intro call_fares [where t = "spawn jobID name order grp spec"])
    (simp_all add: resume_eq_run_machine resume_def spawn_def fine_def)

subsection \<open>Build\<close>

lemma register_goes:
  assumes "healthy E" and "register E b jobID name outs w = (r, w')"
    and "\<forall>x\<in>set outs. rawArtifactID (fst x) \<noteq> 0"
  shows "tick w \<le> tick w' \<and> jobs w' = jobs w \<and> pipeline_runs w' = pipeline_runs w \<and>
    used_ids w' \<subseteq> used_ids w \<union> rawArtifactID ` fst ` set outs \<and>
    (jobID \<in> Job_ID ` set (jobs w) \<and> distinct (map fst outs) \<and>
     fst ` set outs \<inter> Artifact_ID ` set (artifacts w) = {} \<longrightarrow> r = None)"
  using assms(2,3)
proof (induction outs arbitrary: w)
  case (Cons x outs)
  obtain i out where x: "x = (i, out)" by (cases x)
  let ?a = "new_artifact E b jobID i out"
  have i: "rawArtifactID (Artifact_ID ?a) \<noteq> 0" "Artifact_ID ?a = i" "Artifact_JobID ?a = jobID"
    using Cons.prems(2) x by (simp_all add: new_artifact_def)
  show ?case
  proof (cases rule: ArtifactStore_Create_cases [of E Ctx ?a w])
    case (failed e a' n)
    have "fst (ArtifactStore_Create E Ctx ?a w) = None"
      if "jobID \<in> Job_ID ` set (jobs w)" "i \<notin> Artifact_ID ` set (artifacts w)"
      using i that healthy_up [OF assms(1)]
      by (simp add: ArtifactStore_Create_def ensureID_def setCreatedAt_def time_Now_def pool_call_eq
          insert_artifact_def tock_def Let_def)
    with failed Cons.prems x show ?thesis by (auto simp: used_ids_def)
  next
    case (created a' k t n)
    let ?w1 = "w\<lparr>tick := n, artifacts := artifacts w @ [a']\<rparr>"
    have a': "Artifact_ID a' = i"
      using ArtifactStore_Create_id [OF i(1), of E Ctx w] created(1) i(2) by simp
    have "register E b jobID name outs ?w1 = (r, w')"
      using Cons.prems x created(1) by simp
    from Cons.IH [OF this] Cons.prems(2) have IH: "n \<le> tick w' \<and> jobs w' = jobs w \<and>
      pipeline_runs w' = pipeline_runs w \<and> used_ids w' \<subseteq> used_ids ?w1 \<union> rawArtifactID ` fst ` set outs \<and>
      (jobID \<in> Job_ID ` set (jobs w) \<and> distinct (map fst outs) \<and>
       fst ` set outs \<inter> Artifact_ID ` set (artifacts w @ [a']) = {} \<longrightarrow> r = None)"
      by simp
    moreover have "used_ids ?w1 = insert (rawArtifactID i) (used_ids w)"
      using a' by (auto simp: used_ids_def)
    ultimately show ?thesis using created(2) a' x by auto
  qed
qed simp

lemma build_steps_goes:
  assumes "healthy E" and "bld_step b = runStep E"
  shows "build_steps E b jobID steps i w = Some (r, w') \<Longrightarrow> jobID \<in> Job_ID ` set (jobs w) \<Longrightarrow>
    i + length steps \<le> 2 ^ 31 \<Longrightarrow> goes E r w w'"
proof (induction steps arbitrary: i w)
  case Nil
  then show ?case by (simp add: goes_def)
next
  case (Cons s ss)
  let ?k = "length (BuildStep_Outputs s)"
  let ?w1 = "w\<lparr>tick := tick w + ?k\<rparr>"
  let ?ids = "map (\<lambda>j. ArtifactID (uuid_new E j)) [tick w ..< tick w + ?k]"
  obtain r2 w2 where step: "runStep E jobID (BuildStep_Name s) (int i) None (build_spec b s) ?w1 = Some (r2, w2)"
    using Cons.prems(1) by (auto simp: assms(2) preallocate_eq split: option.splits)
  have "int4_ok (Some (int i))" using Cons.prems(3) by (simp add: int4_ok_def)
  then have f: "fares E r2 ?w1 w2"
    using runStep_fares [OF assms(1) step] Cons.prems(2) by simp
  have w2: "goes E r2 w w2"
    using goes_trans [OF _ fares_goes [OF f], of w] by simp
  show ?case
  proof (cases r2)
    case (Some e)
    with Cons.prems(1) step w2 show ?thesis by (simp add: assms(2) preallocate_eq)
  next
    case None
    obtain r3 w3 where reg: "register E b jobID (BuildStep_Name s) (zip ?ids (BuildStep_Outputs s)) w2 = (r3, w3)"
      by fastforce
    have zip: "map fst (zip ?ids (BuildStep_Outputs s)) = ?ids" by simp
    then have ids: "fst ` set (zip ?ids (BuildStep_Outputs s)) = set ?ids" by (metis list.set_map)
    have "\<forall>x\<in>set (zip ?ids (BuildStep_Outputs s)). rawArtifactID (fst x) \<noteq> 0"
      using assms(1) by (auto simp: healthy_def fresh_uuids_def dest!: set_zip_leftD)
    note R = register_goes [OF assms(1) reg this, unfolded ids zip]
    have drawn: "rawArtifactID ` set ?ids \<subseteq> uuid_new E ` {tick w ..< tick w + ?k}" by auto
    have late: "tick w + ?k \<le> tick w2" using f by (simp add: fares_def draws_def)
    have "draws E w w3"
    proof -
      have new: "uuid_new E ` {tick w ..< tick w + ?k} \<subseteq> uuid_new E ` {tick w..<tick w3}"
        "uuid_new E ` {tick w..<tick w2} \<subseteq> uuid_new E ` {tick w..<tick w3}"
        using R late by (auto intro!: image_mono)
      have "used_ids w2 \<subseteq> used_ids w \<union> uuid_new E ` {tick w..<tick w2}"
        using w2 by (simp add: goes_def draws_def)
      then have a: "used_ids w2 \<subseteq> used_ids w \<union> uuid_new E ` {tick w..<tick w3}"
        using new(2) by (rule subset_trans [OF _ Un_mono [OF subset_refl]])
      have b: "rawArtifactID ` set ?ids \<subseteq> used_ids w \<union> uuid_new E ` {tick w..<tick w3}"
        by (rule le_supI2 [OF subset_trans [OF drawn new(1)]])
      have c: "used_ids w3 \<subseteq> used_ids w2 \<union> rawArtifactID ` set ?ids" using R by simp
      have "used_ids w3 \<subseteq> used_ids w \<union> uuid_new E ` {tick w..<tick w3}"
        by (rule subset_trans [OF c Un_least [OF a b]])
      moreover have "tick w \<le> tick w3" using R late by simp
      ultimately show ?thesis by (simp add: draws_def)
    qed
    moreover have "r3 = None" if "uuids_new E w (tick w3)"
    proof -
      have inj: "inj_on (uuid_new E) {tick w ..< tick w + ?k}" "\<forall>j\<in>{tick w ..< tick w + ?k}. uuid_new E j \<notin> used_ids w"
        using uuids_new_le [OF that, of "tick w + ?k"] late R by (auto simp: uuids_new_def)
      then have "distinct ?ids" by (auto simp: distinct_map inj_on_def)
      moreover have "set ?ids \<inter> Artifact_ID ` set (artifacts w2) = {}"
      proof -
        have "artifacts w2 = artifacts w" using f by (simp add: fares_def grown_def)
        moreover have "x \<notin> Artifact_ID ` set (artifacts w)" if x: "x \<in> set ?ids" for x
        proof -
          from x obtain j where "j \<in> {tick w ..< tick w + ?k}" "x = ArtifactID (uuid_new E j)" by auto
          with inj(2) not_used(4) show ?thesis by simp
        qed
        ultimately show ?thesis by (simp only: disjoint_iff) simp
      qed
      ultimately show ?thesis using R Cons.prems(2) w2 by (simp add: goes_def)
    qed
    ultimately have w3: "goes E r3 w w3" using R w2 by (simp add: goes_def)
    show ?thesis
    proof (cases r3)
      case (Some e)
      with Cons.prems(1) step reg None w3 show ?thesis by (simp add: assms(2) preallocate_eq)
    next
      case none3: None
      have "build_steps E b jobID ss (Suc i) w3 = Some (r, w')"
        using Cons.prems(1) step reg None none3 by (simp add: assms(2) preallocate_eq)
      then have "goes E r w3 w'" using Cons.IH Cons.prems(2,3) w3 by (simp add: goes_def)
      with w3 none3 show ?thesis by (auto intro: goes_trans)
    qed
  qed
qed

subsection \<open>Test\<close>

lemma runParallel_goes:
  assumes "healthy E" and "runParallel E (Testinator_New (step_adv E) step_res spawn img) jobID steps n grp w = Some (r, w')"
    and "jobID \<in> Job_ID ` set (jobs w)" and "n + length steps \<le> 2 ^ 31"
  shows "goes E r w w'"
proof -
  let ?ts = "batch_threads (Testinator_New (step_adv E) step_res spawn img) jobID steps n grp"
  obtain gs errs where run: "par_loop (step_adv E) step_res (sched E) (map Live ?ts, [], w) = Some (gs, errs, w')"
    and r: "r = (case errs of [] \<Rightarrow> None | e # _ \<Rightarrow> Some e)"
    using assms(2) by (auto simp: runParallel_def Testinator_New_def split: option.splits)
  have "\<forall>t\<in>set ?ts. fine w t"
    using assms(3,4) by (auto simp: batch_threads_def Testinator_New_def fine_def spawn_def int4_ok_def in_set_enumerate_eq)
  from batch_fares [OF assms(1) run this] show ?thesis unfolding r by (rule fares_goes)
qed

lemma test_steps_goes:
  assumes "healthy E" and "t = Testinator_New (step_adv E) step_res spawn img"
  shows "test_steps E t jobID steps n w = Some (r, w') \<Longrightarrow> jobID \<in> Job_ID ` set (jobs w) \<Longrightarrow>
    n + length steps \<le> 2 ^ 31 \<Longrightarrow> goes E r w w'"
proof (induction "length steps" arbitrary: steps n w rule: less_induct)
  case less
  show ?case
  proof (cases steps)
    case Nil
    with less.prems show ?thesis by (simp add: goes_def)
  next
    case (Cons s ss)
    show ?thesis
    proof (cases "TestStep_Parallel s")
      case False
      note run = less.prems(1) [unfolded Cons assms(2) orchestrator_threads.test_steps_sequential [OF False runs_on_New]]
      from run show ?thesis
      proof (rule goes_and_then)
        fix r1 w1 assume "run_machine (step_adv E) step_res (spawn jobID (TestStep_Name s) (int n) None
          (specForStep (Testinator_New (step_adv E) step_res spawn img) s)) w = Some (r1, w1)"
        then have "fares E r1 w w1"
          by (rule call_fares [OF assms(1)]) (use less.prems Cons in \<open>simp add: fine_def spawn_def int4_ok_def\<close>)
        then show g: "goes E r1 w w1" by (rule fares_goes)
        assume "test_steps E (Testinator_New (step_adv E) step_res spawn img) jobID ss (n + 1) w1 = Some (r, w')"
        then show "goes E r w1 w'"
          using less.hyps [of ss "n + 1" w1] less.prems(2,3) Cons g by (simp add: assms(2) goes_def)
      qed
    next
      case True
      let ?batch = "takeWhile TestStep_Parallel (s # ss)" and ?tail = "dropWhile TestStep_Parallel (s # ss)"
      have len: "length ?batch + length ?tail = length steps"
        by (metis Cons length_append takeWhile_dropWhile_id)
      from less.prems(1) [unfolded Cons orchestrator_threads.test_steps_parallel [OF True]] show ?thesis
      proof (rule goes_and_then)
        fix r1 w1 assume "runParallel E t jobID ?batch n (group_name n) w = Some (r1, w1)"
        then show g: "goes E r1 w w1"
          unfolding assms(2) by (rule runParallel_goes [OF assms(1)]) (use less.prems(2,3) len in simp_all)
        assume "test_steps E t jobID ?tail (n + length ?batch) w1 = Some (r, w')"
        moreover have "length ?tail < length steps" using True Cons by (simp add: le_imp_less_Suc length_dropWhile_le)
        ultimately show "goes E r w1 w'"
          using less.hyps [of ?tail "n + length ?batch" w1] less.prems(2,3) len g by (simp add: goes_def)
      qed
    qed
  qed
qed

subsection \<open>Deploy\<close>

lemma Deployinator_Run_goes:
  assumes "healthy E" and "Deployinator_Run E d jobID bj cfg w = Some (r, w')" and "dep_step d = runStep E"
    and "jobID \<in> Job_ID ` set (jobs w)"
    and "\<exists>a\<in>set (artifacts w). Artifact_JobID a = bj \<and> Artifact_ArtifactType a = DeployConfig_Artifact cfg"
  shows "goes E r w w'"
proof (cases rule: Deployinator_Run_cases [of E d jobID bj cfg w])
  case (refused e)
  with assms(1,5) show ?thesis by auto
next
  case (runs a)
  let ?w = "w\<lparr>tick := Suc (tick w)\<rparr>"
  have "runStep E jobID ''deploy'' 0 None (deploy_spec d cfg a) ?w = Some (r, w')"
    using runs(2) assms(2,3) by simp
  from fares_goes [OF runStep_fares [OF assms(1) this]] assms(4) have g: "goes E r ?w w'"
    by (simp add: int4_ok_def)
  show ?thesis by (rule goes_trans [OF _ g]) simp
qed

subsection \<open>A stage and the run\<close>

definition stage_goes :: "env \<Rightarrow> error option \<Rightarrow> world \<Rightarrow> world \<Rightarrow> bool" where
  "stage_goes E r w w' \<longleftrightarrow> draws E w w' \<and> pipeline_runs w' = pipeline_runs w \<and>
     (uuids_new E w (tick w') \<longrightarrow> r = None)"

lemma stage_goes_trans: "stage_goes E None w w1 \<Longrightarrow> stage_goes E r w1 w' \<Longrightarrow> stage_goes E r w w'"
  unfolding stage_goes_def using draws_trans draws_new by metis

lemma goes_stage: "goes E r w w' \<Longrightarrow> stage_goes E r w w'"
  by (simp add: goes_def stage_goes_def)

text \<open>An update of a job's status in a healthy outside.\<close>

lemma job_update:
  assumes "JobStore_UpdateStatus E c k s w = (u, w')"
  shows "tick w' = tick w + 2" "used_ids w' = used_ids w" "pipeline_runs w' = pipeline_runs w"
    "artifacts w' = artifacts w" "Job_ID ` set (jobs w') = Job_ID ` set (jobs w)"
proof -
  have "tick w' = tick w + 2 \<and> used_ids w' = used_ids w \<and> pipeline_runs w' = pipeline_runs w \<and>
      artifacts w' = artifacts w \<and> Job_ID ` set (jobs w') = Job_ID ` set (jobs w)"
  proof (cases rule: JobStore_UpdateStatus_cases [of E c k s w])
    case (unsent e)
    with assms have "w' = w\<lparr>tick := tick w + 2\<rparr>" by simp
    then show ?thesis by (simp add: used_ids_def)
  next
    case (sent f)
    with assms have "w' = w\<lparr>tick := tick w + 2, jobs := set_row Job_ID k f (jobs w),
      log := log w @ map (\<lambda>r. JobStatus k (Job_Status r) s) (filter (\<lambda>r. Job_ID r = k) (jobs w))\<rparr>" by simp
    with sent(3) show ?thesis by (simp add: used_ids_def)
  qed
  then show "tick w' = tick w + 2" "used_ids w' = used_ids w" "pipeline_runs w' = pipeline_runs w"
    "artifacts w' = artifacts w" "Job_ID ` set (jobs w') = Job_ID ` set (jobs w)" by simp_all
qed

lemma draws_same: "used_ids w' = used_ids w \<Longrightarrow> tick w \<le> tick w' \<Longrightarrow> draws E w w'"
  by (simp add: draws_def)

lemma runStage_goes:
  assumes "healthy E" and "runID \<in> PipelineRun_ID ` set (pipeline_runs w)"
    and run: "runStage E runID jobType fn w = Some ((j, r), w')"
    and fn: "\<And>jobID w2 r w3. fn jobID w2 = Some (r, w3) \<Longrightarrow> jobID \<in> Job_ID ` set (jobs w2) \<Longrightarrow>
      artifacts w2 = artifacts w \<Longrightarrow> goes E r w2 w3"
  shows "stage_goes E r w w'"
proof -
  have "Job_ID (new_job runID jobType) = JobID 0" by (simp add: new_job_def)
  then obtain e job where c: "JobStore_Create E Ctx (new_job runID jobType) w = (e, job,
      w\<lparr>tick := tick w + 3, jobs := jobs w @ (if e = None then [job] else [])\<rparr>)"
    and i: "Job_ID job = JobID (uuid_new E (tick w))"
    and ok: "uuid_new E (tick w) \<notin> used_ids w \<Longrightarrow> e = None"
    using assms(1,2) by (elim job_create_new [where E = E and c = Ctx and w = w]) (auto simp: new_job_def)
  let ?w1 = "w\<lparr>tick := tick w + 3, jobs := jobs w @ (if e = None then [job] else [])\<rparr>"
  have d1: "draws E w ?w1" using i by (auto simp: draws_def used_ids_def)
  show ?thesis
  proof (cases e)
    case (Some x)
    with run c have "r \<noteq> None" "w' = ?w1" by (auto simp: runStage_def)
    moreover have "\<not> uuids_new E w (tick ?w1)" using ok Some next_new [of E w "tick ?w1"] by auto
    ultimately show ?thesis using d1 by (simp add: stage_goes_def)
  next
    case None
    obtain u w2 where u: "JobStore_UpdateStatus E Ctx (Job_ID job) StageStateRunning ?w1 = (u, w2)" by fastforce
    have hit: "Job_ID job \<in> Job_ID ` set (jobs ?w1)" using None by simp
    have "u = None"
      using job_store.update_hit [OF healthy_up [OF assms(1)] hit, of Ctx StageStateRunning] u by simp
    then obtain r3 w3 where f: "fn (Job_ID job) w2 = Some (r3, w3)"
      using run c None u by (auto simp: runStage_def split: option.splits)
    obtain v w4 where v: "JobStore_UpdateStatus E WithoutCancel (Job_ID job) (final_state r3) w3 = (v, w4)"
      by fastforce
    have w': "r = r3" "w' = w4" using run c None u \<open>u = None\<close> f v by (auto simp: runStage_def)
    note u2 = job_update [OF u] and v2 = job_update [OF v]
    have g: "goes E r3 w2 w3" using fn [OF f] u2 hit by simp
    have "draws E ?w1 w2" using u2(1,2) by (intro draws_same) simp_all
    then have "stage_goes E None w w2" using draws_trans [OF d1] u2(3) by (simp add: stage_goes_def)
    from stage_goes_trans [OF this goes_stage [OF g]]
    have w3: "stage_goes E r3 w w3" .
    have "draws E w3 w4" "tick w3 \<le> tick w4" using v2(1,2) by (auto intro: draws_same)
    then show ?thesis
      using w3 v2(3) w' unfolding stage_goes_def by (metis draws_trans uuids_new_le)
  qed
qed

text \<open>
  The configurations that can succeed at all: the orders of the steps fit the column, and an artifact
  to deploy is declared by the build.
\<close>

definition can_succeed :: "ShipinatorConfig \<Rightarrow> bool" where
  "can_succeed cfg \<longleftrightarrow>
     (\<forall>b. Config_Build cfg = Some b \<longrightarrow> length (BuildConfig_Steps b) \<le> 2 ^ 31) \<and>
     (\<forall>t. Config_Test cfg = Some t \<longrightarrow> length (TestConfig_Steps t) \<le> 2 ^ 31) \<and>
     (\<forall>d. Config_Deploy cfg = Some d \<longrightarrow> (\<exists>b. Config_Build cfg = Some b \<and>
        DeployConfig_Artifact d \<in> set (declared_types (BuildConfig_Steps b))))"

text \<open>What a build stage that succeeded has registered.\<close>

lemma build_stage_types:
  assumes "build_stage E (Orchestrator_New E oc) runID cfg w = Some ((bj, None), w')"
    and "run_ready w" and "Config_Build cfg = Some b" and "fresh_uuids E"
    and "ty \<in> set (declared_types (BuildConfig_Steps b))"
  shows "\<exists>a\<in>set (artifacts w'). Artifact_JobID a = bj \<and> Artifact_ArtifactType a = ty"
proof -
  have run: "runStage E runID JobTypeBuild (\<lambda>jobID. Buildinator_Run E (orc_build (Orchestrator_New E oc))
      jobID (BuildConfig_Steps b)) w = Some ((bj, None), w')"
    using assms(1,3) by (simp add: build_stage_def)
  from build_work.stage_called [OF run assms(2)] obtain w2 w3 where
    t: "Buildinator_Run E (orc_build (Orchestrator_New E oc)) bj (BuildConfig_Steps b) w2 = Some (None, w3)"
    and w2: "steps_ready w2" and data: "same_data w w2" "same_data w3 w'" by blast
  have "bld_step (orc_build (Orchestrator_New E oc)) = runStep E" by (simp add: Orchestrator_New_sel)
  from orchestrator_step.build_steps_did [OF t [unfolded Buildinator_Run_def] this w2] assms(4) obtain as where
    as: "artifacts w3 = artifacts w2 @ as"
    "list_all (artifact_ok E (orc_build (Orchestrator_New E oc)) bj) as"
    "map Artifact_ArtifactType as = declared_types (BuildConfig_Steps b)"
    unfolding did_def progress_def by blast
  have "ty \<in> Artifact_ArtifactType ` set as" using assms(5) as(3) by (metis list.set_map)
  with as data show ?thesis
    by (auto simp: same_data_def list_all_iff artifact_ok_def)
qed

lemma executeStages_goes:
  assumes "healthy E" and "runID \<in> PipelineRun_ID ` set (pipeline_runs w)" and "can_succeed cfg"
    and "run_ready w" and ex: "executeStages E (Orchestrator_New E oc) runID cfg w = Some (r, w')"
  shows "stage_goes E r w w'"
proof -
  let ?orc = "Orchestrator_New E oc"
  have b: "stage_goes E rb w w1"
    if "build_stage E ?orc runID cfg w = Some ((bj, rb), w1)" for bj rb w1
  proof (cases "Config_Build cfg")
    case None
    with that show ?thesis by (simp add: build_stage_def stage_goes_def)
  next
    case (Some x)
    with that have run: "runStage E runID JobTypeBuild
        (\<lambda>jobID. Buildinator_Run E (orc_build ?orc) jobID (BuildConfig_Steps x)) w = Some ((bj, rb), w1)"
      by (simp add: build_stage_def)
    have "goes E r w2 w3" if "Buildinator_Run E (orc_build ?orc) jobID (BuildConfig_Steps x) w2 = Some (r, w3)"
      and "jobID \<in> Job_ID ` set (jobs w2)" for jobID w2 r w3
      by (rule build_steps_goes [OF assms(1) _ that(1) [unfolded Buildinator_Run_def] that(2)])
        (use assms(3) Some in \<open>simp_all add: can_succeed_def Orchestrator_New_sel\<close>)
    then show ?thesis by (rule runStage_goes [OF assms(1,2) run])
  qed
  have t: "stage_goes E rt w1 w2"
    if "test_stage E ?orc runID cfg w1 = Some (rt, w2)" "pipeline_runs w1 = pipeline_runs w" for rt w1 w2
  proof (cases "Config_Test cfg")
    case None
    with that show ?thesis by (simp add: test_stage_def stage_goes_def)
  next
    case (Some x)
    with that(1) obtain i where run: "runStage E runID JobTypeTest
        (\<lambda>jobID. Testinator_Run E (orc_test ?orc) jobID (TestConfig_Steps x)) w1 = Some ((i, rt), w2)"
      by (auto simp: test_stage_def stage_err_Some)
    show ?thesis
      by (rule runStage_goes [OF assms(1) _ run])
        (use assms(2,3) that(2) Some in \<open>auto simp: can_succeed_def Testinator_Run_def Orchestrator_New_sel
          intro: test_steps_goes [OF assms(1) refl]\<close>)
  qed
  from ex show ?thesis
  proof (cases rule: executeStages_SomeE)
    case (build_failed bj e)
    with b show ?thesis by simp
  next
    case (built bj w1)
    note w1 = b [OF built(1)]
    note ready1 = stages_ran_ready [OF build_stage_ran [OF built(1) assms(4)]]
    have "stage_goes E r w1 w'"
      using built(2)
    proof (cases rule: and_then_SomeE)
      case (stop e)
      have "pipeline_runs w1 = pipeline_runs w" using w1 by (simp add: stage_goes_def)
      from t [OF stop(1) this] stop(2) show ?thesis by simp
    next
      case (go w2)
      have w2: "stage_goes E None w1 w2" using t go(1) w1 by (simp add: stage_goes_def)
      have "stage_goes E r w2 w'"
      proof (cases "Config_Deploy cfg")
        case None
        with go(2) show ?thesis by (simp add: deploy_stage_def stage_goes_def)
      next
        case (Some d)
        then obtain bc where bc: "Config_Build cfg = Some bc"
          "DeployConfig_Artifact d \<in> set (declared_types (BuildConfig_Steps bc))"
          using assms(3) by (auto simp: can_succeed_def)
        have "fresh_uuids E" using assms(1) by (simp add: healthy_def)
        from build_stage_types [OF built(1) assms(4) bc(1) this bc(2)] test_stage_data [OF go(1) ready1]
        have a: "\<exists>a\<in>set (artifacts w2). Artifact_JobID a = bj \<and> Artifact_ArtifactType a = DeployConfig_Artifact d"
          by simp
        from Some go(2) obtain i where run: "runStage E runID JobTypeDeploy
            (\<lambda>jobID. Deployinator_Run E (orc_deploy ?orc) jobID bj d) w2 = Some ((i, r), w')"
          by (auto simp: deploy_stage_def stage_err_Some)
        have "runID \<in> PipelineRun_ID ` set (pipeline_runs w2)"
          using assms(2) w1 w2 by (simp add: stage_goes_def)
        from runStage_goes [OF assms(1) this run] a show ?thesis
          by (simp add: Deployinator_Run_goes [OF assms(1)] Orchestrator_New_sel)
      qed
      with w2 show ?thesis by (rule stage_goes_trans)
    qed
    with w1 show ?thesis by (rule stage_goes_trans)
  qed
qed

text \<open>
  C4: with a database that works, a context that is not cancelled and an executor that accepts
  every specification and reports success in the end, a run that can start and whose
  configuration can succeed returns; and if the identifiers drawn meanwhile were new, it returns
  without an error, in status success, with one job per configured stage, all of them succeeded.
\<close>

theorem healthy_run_succeeds:
  assumes "healthy E" and "run_can_start runID w" and "runID \<in> PipelineRun_ID ` set (pipeline_runs w)"
    and "can_succeed cfg"
  shows "\<exists>r w'. Run E (Orchestrator_New E oc) runID cfg w = Some (r, w') \<and>
    (uuids_new E w (tick w') \<longrightarrow> r = None \<and>
      (\<exists>x. get_row PipelineRun_ID runID (pipeline_runs w') = Some x \<and>
        PipelineRun_Status x = PipelineRunStateSuccess) \<and>
      (\<exists>js. jobs w' = jobs w @ js \<and> map Job_JobType js = planned_stages cfg \<and>
        list_all (\<lambda>j. Job_PipelineRunID j = runID \<and> Job_Status j = StageStateSucceeded) js))"
proof -
  obtain r w' where run: "Run E (Orchestrator_New E oc) runID cfg w = Some (r, w')"
    using Run_returns [OF healthy_settled [OF assms(1)]] by blast
  have "r = None \<and> (\<exists>x. get_row PipelineRun_ID runID (pipeline_runs w') = Some x \<and>
      PipelineRun_Status x = PipelineRunStateSuccess)" if new: "uuids_new E w (tick w')"
  proof -
    obtain w1 w2 where w1: "w1 = w\<lparr>tick := tick w + 2,
         pipeline_runs := set_row PipelineRun_ID runID (start_run (time_now E (tick w))) (pipeline_runs w),
         log := log w @ map (\<lambda>r. RunStatus runID (PipelineRun_Status r) stateRunning)
                  (filter (\<lambda>r. PipelineRun_ID r = runID) (pipeline_runs w))\<rparr>"
      and ex: "executeStages E (Orchestrator_New E oc) runID cfg w1 = Some (r, w2)"
      and w': "w' = finish_run E runID r w2"
      by (rule Run_started [OF run healthy_up [OF assms(1)] assms(3)])
    have row: "runID \<in> PipelineRun_ID ` set (pipeline_runs w1)"
      using assms(3) by (simp add: w1)
    note g = executeStages_goes [OF assms(1) row assms(4) started_ready [OF assms(2) w1] ex]
    have "draws E w w1" by (rule draws_same) (simp_all add: w1 used_ids_def)
    from draws_new [OF this new] have "uuids_new E w1 (tick w2)"
      by (rule uuids_new_le) (simp add: w' finish_run_frame)
    with g have r: "r = None" by (simp add: stage_goes_def)
    have runs: "pipeline_runs w2 = pipeline_runs w1" using g by (simp add: stage_goes_def)
    obtain x where x: "get_row PipelineRun_ID runID (pipeline_runs w) = Some x"
      using assms(3) by (metis get_row_None not_None_eq)
    show ?thesis
    proof (cases rule: finish_run_cases [of E runID r w2])
      case lost
      with assms(1) show ?thesis by (simp add: healthy_reliable)
    next
      case finished
      then show ?thesis
        by (simp add: r w' runs w1 get_row_set_row x final_run_state_def healthy_not_done [OF assms(1)])
    qed
  qed
  moreover have "\<exists>js. jobs w' = jobs w @ js \<and> map Job_JobType js = planned_stages cfg \<and>
      list_all (\<lambda>j. Job_PipelineRunID j = runID \<and> Job_Status j = StageStateSucceeded) js" if "r = None"
    using Run_summary [OF run assms(2)] that healthy_reliable [OF assms(1)]
    by (auto simp: run_summary_def jobs_outcome_def progress_def list_all_iff StageStateSucceeded_def)
  ultimately show ?thesis using run by blast
qed

end
