(* ===== verification/PgEntities.thy ===== *)
theory PgEntities
  imports PgHelpers
begin

text \<open>
  The stores of the configuration entities: \<open>project.go\<close>, \<open>repository.go\<close> and
  \<open>pipeline.go\<close> of \<open>internal/store/postgres\<close>. Each statement is the SQL text of the code
  with the constraints of \<open>migrations/\<close>: primary keys, the unique project name and the foreign
  keys (which neither cascade nor defer). A statement that breaks a constraint changes nothing.
  \<open>Create\<close> and \<open>Update\<close> also return the struct they fill in through the pointer.
\<close>

section \<open>Projects\<close>

definition insert_project :: "Project \<Rightarrow> world \<Rightarrow> (error + nat) \<times> world" where
  "insert_project p w =
    (if Project_ID p \<in> Project_ID ` set (projects w)
     then (Inl (UniqueViolation ''projects_pkey''), w)
     else if Project_Name p \<in> Project_Name ` set (projects w)
     then (Inl (UniqueViolation ''projects_name_key''), w)
     else (Inr 1, w\<lparr>projects := projects w @ [p]\<rparr>))"

definition update_project :: "ProjectID \<Rightarrow> string \<Rightarrow> string option \<Rightarrow> time \<Rightarrow> world \<Rightarrow>
    (error + nat) \<times> world" where
  "update_project k name descr upd w =
    (if k \<in> Project_ID ` set (projects w) \<and>
        name \<in> Project_Name ` set (del_row Project_ID k (projects w))
     then (Inl (UniqueViolation ''projects_name_key''), w)
     else (Inr (hits Project_ID k (projects w)),
       w\<lparr>projects := set_row Project_ID k
           (\<lambda>p. p\<lparr>Project_Name := name, Project_Description := descr, Project_UpdatedAt := upd\<rparr>)
           (projects w)\<rparr>))"

definition delete_project :: "ProjectID \<Rightarrow> world \<Rightarrow> (error + nat) \<times> world" where
  "delete_project k w =
    (if k \<in> Project_ID ` set (projects w) \<and> k \<in> Repository_ProjectID ` set (repositories w)
     then (Inl (ForeignKeyViolation ''repositories_project_id_fkey''), w)
     else (Inr (hits Project_ID k (projects w)),
           w\<lparr>projects := del_row Project_ID k (projects w)\<rparr>))"

definition ProjectStore_Create :: "env \<Rightarrow> ctx \<Rightarrow> Project \<Rightarrow> world \<Rightarrow>
    error option \<times> Project \<times> world" where
  "ProjectStore_Create E c p w =
    (case ensureID ProjectID rawProjectID E (Project_ID p) w of (i, w1) \<Rightarrow>
     case setCreatedUpdated E w1 of ((cr, up), w2) \<Rightarrow>
     let p' = p\<lparr>Project_ID := i, Project_CreatedAt := cr, Project_UpdatedAt := up\<rparr> in
     case pool_call E c (insert_project p') w2 of
       (Inl e, w3) \<Rightarrow> (Some e, p', w3)
     | (Inr _, w3) \<Rightarrow> (None, p', w3))"

definition ProjectStore_GetByID :: "env \<Rightarrow> ctx \<Rightarrow> ProjectID \<Rightarrow> world \<Rightarrow>
    (error + Project) \<times> world" where
  "ProjectStore_GetByID E c k w =
    (case pool_call E c (\<lambda>w. (case get_row Project_ID k (projects w) of
         None \<Rightarrow> Inl ErrNoRows | Some p \<Rightarrow> Inr p, w)) w of
       (Inl e, w1) \<Rightarrow> (Inl (wrapNoRowsByID ''project'' (rawProjectID k) e), w1)
     | (Inr p, w1) \<Rightarrow> (Inr p, w1))"

definition ProjectStore_GetByName :: "env \<Rightarrow> ctx \<Rightarrow> string \<Rightarrow> world \<Rightarrow>
    (error + Project) \<times> world" where
  "ProjectStore_GetByName E c name w =
    (case pool_call E c (\<lambda>w. (case get_row Project_Name name (projects w) of
         None \<Rightarrow> Inl ErrNoRows | Some p \<Rightarrow> Inr p, w)) w of
       (Inl e, w1) \<Rightarrow> (Inl (wrapNoRowsByName ''project'' name e), w1)
     | (Inr p, w1) \<Rightarrow> (Inr p, w1))"

definition ProjectStore_List :: "env \<Rightarrow> ctx \<Rightarrow> world \<Rightarrow> (error + Project list) \<times> world" where
  "ProjectStore_List E c w =
    pool_call E c (\<lambda>w. (Inr (sort_key Project_CreatedAt (projects w)), w)) w"

definition ProjectStore_Update :: "env \<Rightarrow> ctx \<Rightarrow> Project \<Rightarrow> world \<Rightarrow>
    error option \<times> Project \<times> world" where
  "ProjectStore_Update E c p w =
    (case setUpdatedAt E w of (up, w1) \<Rightarrow>
     let p' = p\<lparr>Project_UpdatedAt := up\<rparr> in
     case pool_call E c (update_project (Project_ID p') (Project_Name p')
            (Project_Description p') (Project_UpdatedAt p')) w1 of
       (Inl e, w2) \<Rightarrow> (Some e, p', w2)
     | (Inr n, w2) \<Rightarrow> (ensureRowsAffected n ''project'' (rawProjectID (Project_ID p')), p', w2))"

definition ProjectStore_Delete :: "env \<Rightarrow> ctx \<Rightarrow> ProjectID \<Rightarrow> world \<Rightarrow> error option \<times> world" where
  "ProjectStore_Delete E c k w =
    (case pool_call E c (delete_project k) w of
       (Inl e, w1) \<Rightarrow> (Some e, w1)
     | (Inr n, w1) \<Rightarrow> (ensureRowsAffected n ''project'' (rawProjectID k), w1))"

section \<open>Repositories\<close>

definition insert_repository :: "Repository \<Rightarrow> world \<Rightarrow> (error + nat) \<times> world" where
  "insert_repository r w =
    (if Repository_ID r \<in> Repository_ID ` set (repositories w)
     then (Inl (UniqueViolation ''repositories_pkey''), w)
     else if Repository_ProjectID r \<notin> Project_ID ` set (projects w)
     then (Inl (ForeignKeyViolation ''repositories_project_id_fkey''), w)
     else (Inr 1, w\<lparr>repositories := repositories w @ [r]\<rparr>))"

definition update_repository :: "RepositoryID \<Rightarrow> ProjectID \<Rightarrow> string \<Rightarrow> string \<Rightarrow> string \<Rightarrow> time \<Rightarrow>
    world \<Rightarrow> (error + nat) \<times> world" where
  "update_repository k pid vcs url branch upd w =
    (if k \<in> Repository_ID ` set (repositories w) \<and> pid \<notin> Project_ID ` set (projects w)
     then (Inl (ForeignKeyViolation ''repositories_project_id_fkey''), w)
     else (Inr (hits Repository_ID k (repositories w)),
       w\<lparr>repositories := set_row Repository_ID k
           (\<lambda>r. r\<lparr>Repository_ProjectID := pid, Repository_VCSProvider := vcs,
                  Repository_CloneURL := url, Repository_DefaultBranch := branch,
                  Repository_UpdatedAt := upd\<rparr>) (repositories w)\<rparr>))"

definition delete_repository :: "RepositoryID \<Rightarrow> world \<Rightarrow> (error + nat) \<times> world" where
  "delete_repository k w =
    (if k \<in> Repository_ID ` set (repositories w) \<and>
        k \<in> Pipeline_RepositoryID ` set (pipelines w)
     then (Inl (ForeignKeyViolation ''pipelines_repository_id_fkey''), w)
     else (Inr (hits Repository_ID k (repositories w)),
           w\<lparr>repositories := del_row Repository_ID k (repositories w)\<rparr>))"

definition RepositoryStore_Create :: "env \<Rightarrow> ctx \<Rightarrow> Repository \<Rightarrow> world \<Rightarrow>
    error option \<times> Repository \<times> world" where
  "RepositoryStore_Create E c r w =
    (case ensureID RepositoryID rawRepositoryID E (Repository_ID r) w of (i, w1) \<Rightarrow>
     case setCreatedUpdated E w1 of ((cr, up), w2) \<Rightarrow>
     let r' = r\<lparr>Repository_ID := i, Repository_CreatedAt := cr, Repository_UpdatedAt := up\<rparr> in
     case pool_call E c (insert_repository r') w2 of
       (Inl e, w3) \<Rightarrow> (Some e, r', w3)
     | (Inr _, w3) \<Rightarrow> (None, r', w3))"

definition RepositoryStore_GetByID :: "env \<Rightarrow> ctx \<Rightarrow> RepositoryID \<Rightarrow> world \<Rightarrow>
    (error + Repository) \<times> world" where
  "RepositoryStore_GetByID E c k w =
    (case pool_call E c (\<lambda>w. (case get_row Repository_ID k (repositories w) of
         None \<Rightarrow> Inl ErrNoRows | Some r \<Rightarrow> Inr r, w)) w of
       (Inl e, w1) \<Rightarrow> (Inl (wrapNoRowsByID ''repository'' (rawRepositoryID k) e), w1)
     | (Inr r, w1) \<Rightarrow> (Inr r, w1))"

definition RepositoryStore_ListByProject :: "env \<Rightarrow> ctx \<Rightarrow> ProjectID \<Rightarrow> world \<Rightarrow>
    (error + Repository list) \<times> world" where
  "RepositoryStore_ListByProject E c pid w =
    pool_call E c (\<lambda>w. (Inr (sort_key Repository_CreatedAt
      (filter (\<lambda>r. Repository_ProjectID r = pid) (repositories w))), w)) w"

definition RepositoryStore_Update :: "env \<Rightarrow> ctx \<Rightarrow> Repository \<Rightarrow> world \<Rightarrow>
    error option \<times> Repository \<times> world" where
  "RepositoryStore_Update E c r w =
    (case setUpdatedAt E w of (up, w1) \<Rightarrow>
     let r' = r\<lparr>Repository_UpdatedAt := up\<rparr> in
     case pool_call E c (update_repository (Repository_ID r') (Repository_ProjectID r')
            (Repository_VCSProvider r') (Repository_CloneURL r') (Repository_DefaultBranch r')
            (Repository_UpdatedAt r')) w1 of
       (Inl e, w2) \<Rightarrow> (Some e, r', w2)
     | (Inr n, w2) \<Rightarrow>
         (ensureRowsAffected n ''repository'' (rawRepositoryID (Repository_ID r')), r', w2))"

definition RepositoryStore_Delete :: "env \<Rightarrow> ctx \<Rightarrow> RepositoryID \<Rightarrow> world \<Rightarrow>
    error option \<times> world" where
  "RepositoryStore_Delete E c k w =
    (case pool_call E c (delete_repository k) w of
       (Inl e, w1) \<Rightarrow> (Some e, w1)
     | (Inr n, w1) \<Rightarrow> (ensureRowsAffected n ''repository'' (rawRepositoryID k), w1))"

section \<open>Pipelines\<close>

definition insert_pipeline :: "Pipeline \<Rightarrow> world \<Rightarrow> (error + nat) \<times> world" where
  "insert_pipeline p w =
    (if Pipeline_ID p \<in> Pipeline_ID ` set (pipelines w)
     then (Inl (UniqueViolation ''pipelines_pkey''), w)
     else if Pipeline_RepositoryID p \<notin> Repository_ID ` set (repositories w)
     then (Inl (ForeignKeyViolation ''pipelines_repository_id_fkey''), w)
     else (Inr 1, w\<lparr>pipelines := pipelines w @ [p]\<rparr>))"

definition update_pipeline :: "PipelineID \<Rightarrow> RepositoryID \<Rightarrow> string \<Rightarrow> string \<Rightarrow> time \<Rightarrow> world \<Rightarrow>
    (error + nat) \<times> world" where
  "update_pipeline k rid name trig upd w =
    (if k \<in> Pipeline_ID ` set (pipelines w) \<and> rid \<notin> Repository_ID ` set (repositories w)
     then (Inl (ForeignKeyViolation ''pipelines_repository_id_fkey''), w)
     else (Inr (hits Pipeline_ID k (pipelines w)),
       w\<lparr>pipelines := set_row Pipeline_ID k
           (\<lambda>p. p\<lparr>Pipeline_RepositoryID := rid, Pipeline_Name := name,
                  Pipeline_TriggerType := trig, Pipeline_UpdatedAt := upd\<rparr>) (pipelines w)\<rparr>))"

definition delete_pipeline :: "PipelineID \<Rightarrow> world \<Rightarrow> (error + nat) \<times> world" where
  "delete_pipeline k w =
    (if k \<in> Pipeline_ID ` set (pipelines w) \<and>
        k \<in> PipelineRun_PipelineID ` set (pipeline_runs w)
     then (Inl (ForeignKeyViolation ''pipeline_runs_pipeline_id_fkey''), w)
     else (Inr (hits Pipeline_ID k (pipelines w)),
           w\<lparr>pipelines := del_row Pipeline_ID k (pipelines w)\<rparr>))"

definition PipelineStore_Create :: "env \<Rightarrow> ctx \<Rightarrow> Pipeline \<Rightarrow> world \<Rightarrow>
    error option \<times> Pipeline \<times> world" where
  "PipelineStore_Create E c p w =
    (case ensureID PipelineID rawPipelineID E (Pipeline_ID p) w of (i, w1) \<Rightarrow>
     case setCreatedUpdated E w1 of ((cr, up), w2) \<Rightarrow>
     let p' = p\<lparr>Pipeline_ID := i, Pipeline_CreatedAt := cr, Pipeline_UpdatedAt := up\<rparr> in
     case pool_call E c (insert_pipeline p') w2 of
       (Inl e, w3) \<Rightarrow> (Some e, p', w3)
     | (Inr _, w3) \<Rightarrow> (None, p', w3))"

definition PipelineStore_GetByID :: "env \<Rightarrow> ctx \<Rightarrow> PipelineID \<Rightarrow> world \<Rightarrow>
    (error + Pipeline) \<times> world" where
  "PipelineStore_GetByID E c k w =
    (case pool_call E c (\<lambda>w. (case get_row Pipeline_ID k (pipelines w) of
         None \<Rightarrow> Inl ErrNoRows | Some p \<Rightarrow> Inr p, w)) w of
       (Inl e, w1) \<Rightarrow> (Inl (wrapNoRowsByID ''pipeline'' (rawPipelineID k) e), w1)
     | (Inr p, w1) \<Rightarrow> (Inr p, w1))"

definition PipelineStore_ListByRepository :: "env \<Rightarrow> ctx \<Rightarrow> RepositoryID \<Rightarrow> world \<Rightarrow>
    (error + Pipeline list) \<times> world" where
  "PipelineStore_ListByRepository E c rid w =
    pool_call E c (\<lambda>w. (Inr (sort_key Pipeline_CreatedAt
      (filter (\<lambda>p. Pipeline_RepositoryID p = rid) (pipelines w))), w)) w"

definition PipelineStore_Update :: "env \<Rightarrow> ctx \<Rightarrow> Pipeline \<Rightarrow> world \<Rightarrow>
    error option \<times> Pipeline \<times> world" where
  "PipelineStore_Update E c p w =
    (case setUpdatedAt E w of (up, w1) \<Rightarrow>
     let p' = p\<lparr>Pipeline_UpdatedAt := up\<rparr> in
     case pool_call E c (update_pipeline (Pipeline_ID p') (Pipeline_RepositoryID p')
            (Pipeline_Name p') (Pipeline_TriggerType p') (Pipeline_UpdatedAt p')) w1 of
       (Inl e, w2) \<Rightarrow> (Some e, p', w2)
     | (Inr n, w2) \<Rightarrow>
         (ensureRowsAffected n ''pipeline'' (rawPipelineID (Pipeline_ID p')), p', w2))"

definition PipelineStore_Delete :: "env \<Rightarrow> ctx \<Rightarrow> PipelineID \<Rightarrow> world \<Rightarrow>
    error option \<times> world" where
  "PipelineStore_Delete E c k w =
    (case pool_call E c (delete_pipeline k) w of
       (Inl e, w1) \<Rightarrow> (Some e, w1)
     | (Inr n, w1) \<Rightarrow> (ensureRowsAffected n ''pipeline'' (rawPipelineID k), w1))"

end
