(* ===== verification/PgIntegrity.thy ===== *)
theory PgIntegrity
  imports PgEntities PgRuns "HOL-Library.Sublist"
begin

text \<open>
  The data base as a whole. \<open>db_step\<close> is one call of a writing store operation, or anything
  that leaves the tables alone; sequences of such steps are all that any client of the stores can
  do, in any interleaving. Unique keys and references between the tables hold throughout, and the
  history (runs, jobs, steps, artifacts, executions) is append-only.
\<close>

section \<open>Integrity\<close>

definition keys_unique :: "world \<Rightarrow> bool" where
  "keys_unique w \<longleftrightarrow> distinct (map Project_ID (projects w)) \<and>
     distinct (map Project_Name (projects w)) \<and> distinct (map Repository_ID (repositories w)) \<and>
     distinct (map Pipeline_ID (pipelines w)) \<and> distinct (map PipelineRun_ID (pipeline_runs w)) \<and>
     distinct (map Job_ID (jobs w)) \<and> distinct (map JobStep_ID (job_steps w)) \<and>
     distinct (map Artifact_ID (artifacts w)) \<and> distinct (map Execution_ID (executions w))"

definition refs_hold :: "world \<Rightarrow> bool" where
  "refs_hold w \<longleftrightarrow> Repository_ProjectID ` set (repositories w) \<subseteq> Project_ID ` set (projects w) \<and>
     Pipeline_RepositoryID ` set (pipelines w) \<subseteq> Repository_ID ` set (repositories w) \<and>
     PipelineRun_PipelineID ` set (pipeline_runs w) \<subseteq> Pipeline_ID ` set (pipelines w) \<and>
     Job_PipelineRunID ` set (jobs w) \<subseteq> PipelineRun_ID ` set (pipeline_runs w) \<and>
     JobStep_JobID ` set (job_steps w) \<subseteq> Job_ID ` set (jobs w) \<and>
     Artifact_JobID ` set (artifacts w) \<subseteq> Job_ID ` set (jobs w) \<and>
     Execution_JobStepID ` set (executions w) \<subseteq> JobStep_ID ` set (job_steps w)"

definition wf_db :: "world \<Rightarrow> bool" where
  "wf_db w \<longleftrightarrow> keys_unique w \<and> refs_hold w"

lemmas wf_db_defs = wf_db_def keys_unique_def refs_hold_def

lemma wf_db_empty: "wf_db empty_world"
  by (simp add: wf_db_defs empty_world_def)

lemma wf_db_tick [simp]: "wf_db (w\<lparr>tick := n\<rparr>) = wf_db w" "wf_db (tock w) = wf_db w"
  by (simp_all add: wf_db_defs tock_def)

text \<open>Columns after an UPDATE of one row.\<close>

lemma distinct_set_row:
  assumes "distinct (map key rows)" and "distinct (map g rows)"
    and "\<And>r. g (f r) = y" and "k \<in> key ` set rows \<longrightarrow> y \<notin> g ` set (del_row key k rows)"
  shows "distinct (map g (set_row key k f rows))"
  using assms(1,2,4)
proof (induction rows)
  case (Cons r rows)
  show ?case
  proof (cases "key r = k")
    case True
    with Cons.prems(1) have absent: "k \<notin> key ` set rows" by auto
    then have "filter (\<lambda>r. key r \<noteq> k) rows = rows" by (metis (mono_tags, lifting) filter_True imageI)
    then have "del_row key k (r # rows) = rows" using True by (simp add: del_row_def)
    then have "y \<notin> g ` set rows" using Cons.prems(3) True by simp
    with True absent Cons.prems(2) show ?thesis by (auto simp: assms(3))
  next
    case False
    have "g r \<notin> g ` set (set_row key k f rows)"
    proof
      assume "g r \<in> g ` set (set_row key k f rows)"
      then obtain x where x: "x \<in> set (set_row key k f rows)" "g x = g r" by auto
      from set_row_memD [OF x(1)] show False
        using x(2) Cons.prems False by (auto simp: assms(3) del_row_def) (metis imageI)+
    qed
    with False Cons show ?thesis by (auto simp: del_row_def)
  qed
qed simp

lemma image_set_row_subset:
  assumes "\<And>r. g (f r) = y" and "k \<in> key ` set rows \<longrightarrow> y \<in> S" and "g ` set rows \<subseteq> S"
  shows "g ` set (set_row key k f rows) \<subseteq> S"
  using assms by (fastforce dest: set_row_memD)

lemma set_del_row_subset: "set (del_row key k rows) \<subseteq> set rows"
  by (auto simp: del_row_def)

section \<open>Every statement keeps the integrity\<close>

lemma insert_wf:
  "wf_db w \<Longrightarrow> wf_db (snd (insert_project p w))"
  "wf_db w \<Longrightarrow> wf_db (snd (insert_repository r w))"
  "wf_db w \<Longrightarrow> wf_db (snd (insert_pipeline l w))"
  "wf_db w \<Longrightarrow> wf_db (snd (insert_pipeline_run n w))"
  "wf_db w \<Longrightarrow> wf_db (snd (insert_job j w))"
  "wf_db w \<Longrightarrow> wf_db (snd (insert_job_step s w))"
  "wf_db w \<Longrightarrow> wf_db (snd (insert_artifact a w))"
  "wf_db w \<Longrightarrow> wf_db (snd (insert_execution e w))"
  by (auto simp: wf_db_defs insert_project_def insert_repository_def insert_pipeline_def
      insert_pipeline_run_def insert_job_def insert_job_step_def insert_artifact_def
      insert_execution_def)

lemma update_status_wf:
  "wf_db w \<Longrightarrow> wf_db (snd (update_pipeline_run k s st fi w))"
  "wf_db w \<Longrightarrow> wf_db (snd (update_job j s st fi w))"
  "wf_db w \<Longrightarrow> wf_db (snd (update_job_step t s st fi w))"
  "wf_db w \<Longrightarrow> wf_db (snd (update_execution x s fi w))"
  by (simp_all add: wf_db_defs update_pipeline_run_def update_job_def update_job_step_def
      update_execution_def)

lemma update_project_wf: "wf_db w \<Longrightarrow> wf_db (snd (update_project k name descr upd w))"
  by (auto simp: wf_db_defs update_project_def intro!: distinct_set_row)

lemma update_repository_wf: "wf_db w \<Longrightarrow> wf_db (snd (update_repository k pid vcs url branch upd w))"
  unfolding update_repository_def wf_db_defs
  using image_set_row_subset [where key = Repository_ID and g = Repository_ProjectID and y = pid
      and k = k and rows = "repositories w" and S = "Project_ID ` set (projects w)"]
  by simp

lemma update_pipeline_wf: "wf_db w \<Longrightarrow> wf_db (snd (update_pipeline k rid name trig upd w))"
  unfolding update_pipeline_def wf_db_defs
  using image_set_row_subset [where key = Pipeline_ID and g = Pipeline_RepositoryID and y = rid
      and k = k and rows = "pipelines w" and S = "Repository_ID ` set (repositories w)"]
  by simp

lemma delete_wf:
  "wf_db w \<Longrightarrow> wf_db (snd (delete_project k w))"
  "wf_db w \<Longrightarrow> wf_db (snd (delete_repository r w))"
  "wf_db w \<Longrightarrow> wf_db (snd (delete_pipeline l w))"
  by (auto simp: wf_db_defs delete_project_def delete_repository_def delete_pipeline_def
      intro!: distinct_del_row dest!: subsetD [OF set_del_row_subset])

lemmas statement_wf = insert_wf update_status_wf update_project_wf update_repository_wf
  update_pipeline_wf delete_wf

section \<open>Operations and what they do\<close>

text \<open>What happens outside the tables may add to the log.\<close>

definition outside :: "world \<Rightarrow> world \<Rightarrow> bool" where
  "outside w w' \<longleftrightarrow> projects w' = projects w \<and> repositories w' = repositories w \<and>
     pipelines w' = pipelines w \<and> pipeline_runs w' = pipeline_runs w \<and> jobs w' = jobs w \<and>
     job_steps w' = job_steps w \<and> artifacts w' = artifacts w \<and> executions w' = executions w \<and>
     prefix (log w) (log w')"

text \<open>
  One step of a client: a call of a writing operation, with any arguments and under any context,
  or anything that does not touch the tables (reading, asking for the time or an identifier,
  calling the executor).
\<close>

inductive db_step :: "env \<Rightarrow> world \<Rightarrow> world \<Rightarrow> bool" for E :: env where
  elsewhere: "outside w w' \<Longrightarrow> db_step E w w'"
| project_create: "ProjectStore_Create E c p w = (r, p', w') \<Longrightarrow> db_step E w w'"
| project_update: "ProjectStore_Update E c p w = (r, p', w') \<Longrightarrow> db_step E w w'"
| project_delete: "ProjectStore_Delete E c pk w = (r, w') \<Longrightarrow> db_step E w w'"
| repository_create: "RepositoryStore_Create E c q w = (r, q', w') \<Longrightarrow> db_step E w w'"
| repository_update: "RepositoryStore_Update E c q w = (r, q', w') \<Longrightarrow> db_step E w w'"
| repository_delete: "RepositoryStore_Delete E c qk w = (r, w') \<Longrightarrow> db_step E w w'"
| pipeline_create: "PipelineStore_Create E c l w = (r, l', w') \<Longrightarrow> db_step E w w'"
| pipeline_update: "PipelineStore_Update E c l w = (r, l', w') \<Longrightarrow> db_step E w w'"
| pipeline_delete: "PipelineStore_Delete E c lk w = (r, w') \<Longrightarrow> db_step E w w'"
| run_create: "PipelineRunStore_Create E c n w = (r, n', w') \<Longrightarrow> db_step E w w'"
| run_status: "PipelineRunStore_UpdateStatus E c nk s w = (r, w') \<Longrightarrow> db_step E w w'"
| job_create: "JobStore_Create E c j w = (r, j', w') \<Longrightarrow> db_step E w w'"
| job_status: "JobStore_UpdateStatus E c jk s w = (r, w') \<Longrightarrow> db_step E w w'"
| step_create: "JobStepStore_Create E c t w = (r, t', w') \<Longrightarrow> db_step E w w'"
| step_status: "JobStepStore_UpdateStatus E c tk s w = (r, w') \<Longrightarrow> db_step E w w'"
| artifact_create: "ArtifactStore_Create E c a w = (r, a', w') \<Longrightarrow> db_step E w w'"
| execution_create: "ExecutionStore_Create E c x w = (r, x', w') \<Longrightarrow> db_step E w w'"
| execution_status: "ExecutionStore_UpdateStatus E c xk s w = (r, w') \<Longrightarrow> db_step E w w'"

lemma outside_refl [simp]: "outside w w" "outside w (w\<lparr>tick := n\<rparr>)" "outside w (tock w)"
  by (simp_all add: outside_def)

lemma outside_trans: "outside u v \<Longrightarrow> outside v w \<Longrightarrow> outside u w"
  by (auto simp: outside_def)

text \<open>
  Whatever is kept by each statement and by everything that leaves the tables alone is kept by
  each operation: the three shapes of a writing operation, and then all of them.
\<close>

lemma ensureID_tables: "ensureID mk raw E i w = (j, w') \<Longrightarrow> outside w w'"
  by (auto simp: ensureID_def uuid_New_def split: if_splits)

lemma pool_call_keeps:
  assumes "pool_call E c stmt w = (r, w')" and "P w"
    and "\<And>w w'. outside w w' \<Longrightarrow> P w \<Longrightarrow> P w'" and "\<And>w. P w \<Longrightarrow> P (snd (stmt w))"
  shows "P w'"
  using assms(1,2) assms(3) [of w "tock w"] assms(4) [of "tock w"]
  by (auto simp: pool_call_eq split: if_splits)

lemma reading_tables:
  assumes "pool_call E c stmt w = (r, w')" and "\<And>w. snd (stmt w) = w"
  shows "outside w w'"
  using assms(1) assms(2) [of "tock w"] by (auto simp: pool_call_eq split: if_splits)

locale table_invariant =
  fixes P :: "world \<Rightarrow> bool"
  assumes elsewhere: "outside w w' \<Longrightarrow> P w \<Longrightarrow> P w'"
    and inserts: "P w \<Longrightarrow> P (snd (insert_project p w))" "P w \<Longrightarrow> P (snd (insert_repository q w))"
      "P w \<Longrightarrow> P (snd (insert_pipeline l w))" "P w \<Longrightarrow> P (snd (insert_pipeline_run n w))"
      "P w \<Longrightarrow> P (snd (insert_job j w))" "P w \<Longrightarrow> P (snd (insert_job_step t w))"
      "P w \<Longrightarrow> P (snd (insert_artifact a w))" "P w \<Longrightarrow> P (snd (insert_execution x w))"
    and statuses: "P w \<Longrightarrow> P (snd (update_pipeline_run nk s st fi w))"
      "P w \<Longrightarrow> P (snd (update_job jk s st fi w))" "P w \<Longrightarrow> P (snd (update_job_step tk s st fi w))"
      "P w \<Longrightarrow> P (snd (update_execution xk s fi w))"
    and updates: "P w \<Longrightarrow> P (snd (update_project pk name descr upd w))"
      "P w \<Longrightarrow> P (snd (update_repository qk pk vcs url branch upd w))"
      "P w \<Longrightarrow> P (snd (update_pipeline lk qk name trig upd w))"
    and deletes: "P w \<Longrightarrow> P (snd (delete_project pk w))" "P w \<Longrightarrow> P (snd (delete_repository qk w))"
      "P w \<Longrightarrow> P (snd (delete_pipeline lk w))"
begin

lemma ticks: "P w \<Longrightarrow> P (tock w)"
  by (rule elsewhere [OF outside_refl(3)])

lemma keeps: "pool_call E c stmt w = (r, w') \<Longrightarrow> P w \<Longrightarrow> (\<And>w. P w \<Longrightarrow> P (snd (stmt w))) \<Longrightarrow> P w'"
  by (rule pool_call_keeps [where P = P]) (assumption | rule elsewhere)+

lemma keeps_ID: "ensureID mk raw E i w = (j, w') \<Longrightarrow> P w \<Longrightarrow> P w'"
  by (rule elsewhere [OF ensureID_tables])

lemmas create_ops = ProjectStore_Create_def RepositoryStore_Create_def PipelineStore_Create_def
  PipelineRunStore_Create_def JobStore_Create_def JobStepStore_Create_def ArtifactStore_Create_def
  ExecutionStore_Create_def setCreatedUpdated_def setCreatedAt_def time_Now_def

lemmas update_ops = ProjectStore_Update_def RepositoryStore_Update_def PipelineStore_Update_def
  ProjectStore_Delete_def RepositoryStore_Delete_def PipelineStore_Delete_def
  PipelineRunStore_UpdateStatus_def JobStore_UpdateStatus_def JobStepStore_UpdateStatus_def
  ExecutionStore_UpdateStatus_def setUpdatedAt_def time_Now_def

lemma create_keeps:
  assumes "P w"
  shows "ProjectStore_Create E c p w = (r, p', w') \<Longrightarrow> P w'"
    "RepositoryStore_Create E c q w = (r, q', w') \<Longrightarrow> P w'"
    "PipelineStore_Create E c l w = (r, l', w') \<Longrightarrow> P w'"
    "PipelineRunStore_Create E c n w = (r, n', w') \<Longrightarrow> P w'"
    "JobStore_Create E c j w = (r, j', w') \<Longrightarrow> P w'"
    "JobStepStore_Create E c t w = (r, t', w') \<Longrightarrow> P w'"
    "ArtifactStore_Create E c a w = (r, a', w') \<Longrightarrow> P w'"
    "ExecutionStore_Create E c x w = (r, x', w') \<Longrightarrow> P w'"
  using assms
  by (auto simp: create_ops Let_def split: prod.splits sum.splits
      dest!: keeps_ID keeps [OF _ ticks inserts(1)] keeps [OF _ ticks inserts(2)]
        keeps [OF _ ticks inserts(3)] keeps [OF _ ticks inserts(4)] keeps [OF _ ticks inserts(5)]
        keeps [OF _ ticks inserts(6)] keeps [OF _ ticks inserts(7)] keeps [OF _ ticks inserts(8)])

lemma update_keeps:
  assumes "P w"
  shows "ProjectStore_Update E c p w = (r, p', w') \<Longrightarrow> P w'"
    "RepositoryStore_Update E c q w = (r, q', w') \<Longrightarrow> P w'"
    "PipelineStore_Update E c l w = (r, l', w') \<Longrightarrow> P w'"
    "PipelineRunStore_UpdateStatus E c nk s w = (r, w') \<Longrightarrow> P w'"
    "JobStore_UpdateStatus E c jk s w = (r, w') \<Longrightarrow> P w'"
    "JobStepStore_UpdateStatus E c tk s w = (r, w') \<Longrightarrow> P w'"
    "ExecutionStore_UpdateStatus E c xk s w = (r, w') \<Longrightarrow> P w'"
  using assms
  by (auto simp: update_ops Let_def split: prod.splits sum.splits
      dest!: keeps [OF _ ticks updates(1)] keeps [OF _ ticks updates(2)] keeps [OF _ ticks updates(3)]
        keeps [OF _ ticks statuses(1)] keeps [OF _ ticks statuses(2)] keeps [OF _ ticks statuses(3)]
        keeps [OF _ ticks statuses(4)])

lemma delete_keeps:
  assumes "P w"
  shows "ProjectStore_Delete E c pk w = (r, w') \<Longrightarrow> P w'"
    "RepositoryStore_Delete E c qk w = (r, w') \<Longrightarrow> P w'"
    "PipelineStore_Delete E c lk w = (r, w') \<Longrightarrow> P w'"
  using assms
  by (auto simp: update_ops split: prod.splits sum.splits
      dest!: keeps [OF _ _ deletes(1)] keeps [OF _ _ deletes(2)] keeps [OF _ _ deletes(3)])

lemma step_keeps: "db_step E w w' \<Longrightarrow> P w \<Longrightarrow> P w'"
  by (induction rule: db_step.induct)
    (assumption | erule elsewhere create_keeps update_keeps delete_keeps
      | erule (1) create_keeps [rotated] update_keeps [rotated] delete_keeps [rotated])+

lemma steps_keep: "(db_step E)\<^sup>*\<^sup>* w w' \<Longrightarrow> P w \<Longrightarrow> P w'"
  by (induction rule: rtranclp_induct) (auto intro: step_keeps)

end

interpretation integrity: table_invariant wf_db
  by unfold_locales (simp add: outside_def wf_db_defs, (erule statement_wf)+)

section \<open>The history is append-only\<close>

text \<open>The columns that no statement changes once a row is written.\<close>

definition run_ident :: "PipelineRun \<Rightarrow> PipelineRunID \<times> PipelineID \<times> string \<times> string \<times> time" where
  "run_ident r = (PipelineRun_ID r, PipelineRun_PipelineID r, PipelineRun_GitRef r,
     PipelineRun_GitSHA r, PipelineRun_CreatedAt r)"

definition job_ident :: "Job \<Rightarrow> JobID \<times> PipelineRunID \<times> string \<times> string \<times> time" where
  "job_ident j = (Job_ID j, Job_PipelineRunID j, Job_JobType j, Job_Name j, Job_CreatedAt j)"

definition step_key :: "JobStep \<Rightarrow> JobStepID \<times> JobID \<times> string \<times> int option \<times> string option \<times> time" where
  "step_key s = (JobStep_ID s, JobStep_JobID s, JobStep_Name s, JobStep_ExecutionOrder s,
     JobStep_ParallelGroup s, JobStep_CreatedAt s)"

definition execution_ident :: "Execution \<Rightarrow> ExecutionID \<times> JobStepID \<times> string \<times> string \<times> time" where
  "execution_ident e = (Execution_ID e, Execution_JobStepID e, Execution_ExecutorType e,
     Execution_ExternalID e, Execution_SubmittedAt e)"

definition history_kept :: "world \<Rightarrow> world \<Rightarrow> bool" where
  "history_kept w w' \<longleftrightarrow>
     prefix (map run_ident (pipeline_runs w)) (map run_ident (pipeline_runs w')) \<and>
     prefix (map job_ident (jobs w)) (map job_ident (jobs w')) \<and>
     prefix (map step_key (job_steps w)) (map step_key (job_steps w')) \<and>
     prefix (artifacts w) (artifacts w') \<and>
     prefix (map execution_ident (executions w)) (map execution_ident (executions w')) \<and>
     prefix (log w) (log w')"

lemma ident_set_simps [simp]:
  "run_ident (set_run s st fi r) = run_ident r" "job_ident (set_job s st fi j) = job_ident j"
  "step_key (set_step s st fi t) = step_key t"
  "execution_ident (set_execution s fi e) = execution_ident e"
  by (simp_all add: run_ident_def job_ident_def step_key_def execution_ident_def set_run_def
      set_job_def set_step_def set_execution_def)

lemma map_kept_set_row [simp]:
  "(\<And>r. g (f r) = g r) \<Longrightarrow> map g (set_row key k f rows) = map g rows"
  by (simp add: set_row_def)

lemma history_kept_refl: "history_kept w w"
  by (simp add: history_kept_def)

lemma history_insert:
  assumes "history_kept w0 w"
  shows "history_kept w0 (snd (insert_project p w))" "history_kept w0 (snd (insert_repository q w))"
    "history_kept w0 (snd (insert_pipeline l w))" "history_kept w0 (snd (insert_pipeline_run n w))"
    "history_kept w0 (snd (insert_job j w))" "history_kept w0 (snd (insert_job_step t w))"
    "history_kept w0 (snd (insert_artifact a w))" "history_kept w0 (snd (insert_execution x w))"
  using assms
  by (simp_all add: history_kept_def prefix_prefix insert_project_def insert_repository_def
      insert_pipeline_def insert_pipeline_run_def insert_job_def insert_job_step_def
      insert_artifact_def insert_execution_def)

lemma history_update:
  assumes "history_kept w0 w"
  shows "history_kept w0 (snd (update_pipeline_run nk s st fi w))"
    "history_kept w0 (snd (update_job jk s st fi w))"
    "history_kept w0 (snd (update_job_step tk s st fi w))"
    "history_kept w0 (snd (update_execution xk s fi w))"
    "history_kept w0 (snd (update_project pk name descr upd w))"
    "history_kept w0 (snd (update_repository qk pk vcs url branch upd w))"
    "history_kept w0 (snd (update_pipeline lk qk name trig upd w))"
    "history_kept w0 (snd (delete_project pk w))" "history_kept w0 (snd (delete_repository qk w))"
    "history_kept w0 (snd (delete_pipeline lk w))"
  using assms
  by (simp_all add: history_kept_def update_pipeline_run_def update_job_def update_job_step_def
      update_execution_def update_project_def update_repository_def update_pipeline_def
      delete_project_def delete_repository_def delete_pipeline_def)

interpretation history: table_invariant "history_kept w0" for w0
  by unfold_locales
    (force simp: outside_def history_kept_def, (erule history_insert history_update)+)

lemma prefix_key:
  assumes "prefix (map f xs) (map f ys)" and "distinct (map key ys)"
    and "\<And>x y. f x = f y \<Longrightarrow> key x = key y" and "x \<in> set xs"
  shows "\<exists>y. get_row key (key x) ys = Some y \<and> f y = f x"
proof -
  have "f x \<in> set (map f xs)" using assms(4) by simp
  then have "f x \<in> set (map f ys)" using set_mono_prefix [OF assms(1)] by blast
  then obtain y where "y \<in> set ys" "f x = f y" by auto
  with get_row_unique [OF assms(2)] assms(3) [of x y] show ?thesis by auto
qed

end
