(* ===== verification/RunRefinement.thy ===== *)
theory RunRefinement
  imports PgIntegrity Orchestrator
begin

text \<open>
  A run as a client of the data base: whatever \<open>Run\<close> does to the tables is a sequence of store
  operations and of actions outside the tables. What every such sequence keeps (integrity, the
  append-only history) therefore holds of runs, also while other clients are active in between
  their statements.
\<close>

section \<open>The operations of a run\<close>

text \<open>
  What the work of a stage calls: the actions of its steps, the creation of artifacts, and actions
  outside the tables. Whatever relates the worlds before and after each of them, its closure
  relates the worlds before and after the work. \<open>inv\<close> is an invariant of the worlds on the way. A
  thread of a step carries data from one action to the next; \<open>ok\<close> is what is known of it.
\<close>

locale step_client =
  fixes E :: env and inv :: "world \<Rightarrow> bool" and R :: "world \<Rightarrow> world \<Rightarrow> bool"
    and ok :: "step_thread \<Rightarrow> bool"
  assumes keeps: "inv w \<Longrightarrow> R w w' \<Longrightarrow> inv w'"
    and advance: "inv w \<Longrightarrow> ok t \<Longrightarrow> R w (snd (step_adv E t w))"
    and ok_advance: "inv w \<Longrightarrow> ok t \<Longrightarrow> ok (fst (step_adv E t w))"
    and ok_spawn: "ok (spawn jobID name order grp spec)"
    and ticks: "inv w \<Longrightarrow> R w (w\<lparr>tick := n\<rparr>)"
    and artifact: "inv w \<Longrightarrow> ArtifactStore_Create E Ctx a w = (e, a', w') \<Longrightarrow> R w w'"
begin

definition runs :: "world \<Rightarrow> world \<Rightarrow> bool" where
  "runs w w' \<longleftrightarrow> (inv w \<longrightarrow> R\<^sup>*\<^sup>* w w' \<and> inv w')"

lemma runs_steps: "runs w w' \<Longrightarrow> inv w \<Longrightarrow> R\<^sup>*\<^sup>* w w'"
  by (simp add: runs_def)

lemma runs_inv: "runs w w' \<Longrightarrow> inv w \<Longrightarrow> inv w'"
  by (simp add: runs_def)

lemma runs_one: "(inv w \<Longrightarrow> R w w') \<Longrightarrow> runs w w'"
  using keeps by (auto simp: runs_def)

lemma runs_refl [simp]: "runs w w"
  by (simp add: runs_def)

lemma runs_trans: "runs u v \<Longrightarrow> runs v w \<Longrightarrow> runs u w"
  unfolding runs_def by (meson rtranclp_trans)

lemma runs_tick: "runs w (tock w)" "runs w (w\<lparr>tick := n\<rparr>)"
  unfolding tock_def by (rule runs_one, erule ticks)+

lemma machine_runs:
  assumes "run_machine (step_adv E) step_res t w = Some (r, w')" and "ok t"
  shows "runs w w'"
proof -
  have "\<exists>t'. (runs w w' \<and> (inv w \<longrightarrow> ok t')) \<and> step_res t' = Some r"
    using assms(1)
  proof (rule run_machine_inv [where I = "\<lambda>t' w'. runs w w' \<and> (inv w \<longrightarrow> ok t')"])
    fix t1 w1 assume I: "runs w w1 \<and> (inv w \<longrightarrow> ok t1)"
    then have "runs w1 (snd (step_adv E t1 w1))" if "inv w" using that by (auto intro: runs_one advance)
    with I show "runs w (snd (step_adv E t1 w1)) \<and> (inv w \<longrightarrow> ok (fst (step_adv E t1 w1)))"
      using runs_inv [of w w1] ok_advance [of w1 t1] by (metis runs_def runs_trans)
  qed (use assms(2) in simp)
  then show ?thesis by simp
qed

lemma call_runs:
  "run_machine (step_adv E) step_res (spawn jobID name order grp spec) w = Some (r, w') \<Longrightarrow> runs w w'"
  by (rule machine_runs [OF _ ok_spawn])

lemma runStep_runs: "runStep E jobID name order grp spec w = Some (r, w') \<Longrightarrow> runs w w'"
  using call_runs [of jobID name order grp spec w]
  by (simp add: resume_eq_run_machine resume_def spawn_def)

definition pool_runs :: "world \<Rightarrow> step_thread pool \<Rightarrow> bool" where
  "pool_runs w p \<longleftrightarrow> runs w (snd (snd p)) \<and> (inv w \<longrightarrow> (\<forall>t. Live t \<in> set (fst p) \<longrightarrow> ok t))"

lemma go_step_runs: "go_step (step_adv E) step_res p p' \<Longrightarrow> pool_runs w p \<Longrightarrow> pool_runs w p'"
proof (induction rule: go_step.induct)
  case (move i gs t w1 t' w2 errs)
  have "Live t \<in> set gs" using move.hyps by (metis nth_mem)
  then have "runs w1 w2 \<and> ok t'" if "inv w"
    using that move.prems runs_inv [of w w1] advance [of w1 t] ok_advance [of w1 t] move.hyps
    by (auto simp: pool_runs_def intro: runs_one)
  then have "runs w w2" "inv w \<longrightarrow> ok t'" using move.prems runs_trans [of w w1 w2]
    by (auto simp: pool_runs_def runs_def)
  with move.prems show ?case
    using set_update_subset_insert [of gs i "Live t'"] by (auto simp: pool_runs_def)
next
  case (exit i gs t r errs w1)
  then show ?case
    using set_update_subset_insert [of gs i "Exited r"] by (auto simp: pool_runs_def)
qed

lemma par_loop_runs:
  assumes "par_loop (step_adv E) step_res sch (map Live ts, [], w) = Some (gs', errs', w')"
    and "\<forall>t\<in>set ts. ok t"
  shows "runs w w'"
proof -
  have "(go_step (step_adv E) step_res)\<^sup>*\<^sup>* (map Live ts, [], w) (gs', errs', w')"
    using par_loop_sound [OF assms(1)] by blast
  then have "pool_runs w (gs', errs', w')"
  proof (rule go_steps_inv)
    show "pool_runs w (map Live ts, [], w)" using assms(2) by (auto simp: pool_runs_def)
  qed (rule go_step_runs)
  then show ?thesis by (simp add: pool_runs_def)
qed

subsection \<open>Stages\<close>

lemma register_runs: "register E b jobID name outs w = (r, w') \<Longrightarrow> runs w w'"
proof (induction outs arbitrary: w)
  case (Cons o1 outs)
  obtain i out where o1: "o1 = (i, out)" by (cases o1)
  obtain x a w1 where c: "ArtifactStore_Create E Ctx (new_artifact E b jobID i out) w = (x, a, w1)"
    by (metis prod_cases3)
  have "runs w w1" by (rule runs_one) (rule artifact [OF _ c])
  with Cons c o1 show ?case by (auto split: option.splits intro: runs_trans)
qed simp

lemma build_steps_runs:
  assumes "bld_step b = runStep E"
  shows "build_steps E b jobID steps i w = Some (r, w') \<Longrightarrow> runs w w'"
proof (induction steps arbitrary: i w)
  case (Cons s ss)
  let ?w1 = "w\<lparr>tick := tick w + length (BuildStep_Outputs s)\<rparr>"
  let ?ids = "fst (preallocate E (BuildStep_Outputs s) w)"
  obtain x w2 where step: "runStep E jobID (BuildStep_Name s) (int i) None (build_spec b s) ?w1 = Some (x, w2)"
    using Cons.prems by (auto simp: assms preallocate_eq split: option.splits)
  from runs_trans [OF runs_tick(2) runStep_runs [OF step]] have "runs w w2" .
  moreover obtain y w3 where reg: "register E b jobID (BuildStep_Name s) (zip ?ids (BuildStep_Outputs s)) w2 = (y, w3)"
    by fastforce
  moreover note register_runs [OF reg]
  ultimately show ?case
    using Cons.prems step reg Cons.IH
    by (auto simp: assms preallocate_eq split: option.splits intro: runs_trans)
qed simp

lemma runParallel_runs:
  assumes "runParallel E (Testinator_New (step_adv E) step_res spawn img) jobID steps n grp w = Some (r, w')"
  shows "runs w w'"
proof -
  let ?ts = "batch_threads (Testinator_New (step_adv E) step_res spawn img) jobID steps n grp"
  obtain gs errs where "par_loop (step_adv E) step_res (sched E) (map Live ?ts, [], w) = Some (gs, errs, w')"
    using assms by (auto simp: runParallel_def Testinator_New_def split: option.splits)
  then show ?thesis
    by (rule par_loop_runs) (auto simp: batch_threads_def Testinator_New_def ok_spawn)
qed

lemma test_steps_runs:
  assumes "t = Testinator_New (step_adv E) step_res spawn img"
  shows "test_steps E t jobID steps n w = Some (r, w') \<Longrightarrow> runs w w'"
proof (induction "length steps" arbitrary: steps n w rule: less_induct)
  case less
  show ?case
  proof (cases steps)
    case Nil
    with less.prems show ?thesis by simp
  next
    case (Cons s ss)
    show ?thesis
    proof (cases "TestStep_Parallel s")
      case False
      from less.prems [unfolded Cons assms orchestrator_threads.test_steps_sequential [OF False runs_on_New]] show ?thesis
      proof (cases rule: and_then_SomeE)
        case (stop e)
        then show ?thesis using call_runs by blast
      next
        case (go w1)
        then have "runs w w1" using call_runs by blast
        moreover have "runs w1 w'" using less.hyps [OF _ go(2) [folded assms]] by (simp add: Cons)
        ultimately show ?thesis by (rule runs_trans)
      qed
    next
      case True
      have shorter: "length (dropWhile TestStep_Parallel (s # ss)) < length steps"
        using True by (simp add: Cons less_Suc_eq_le length_dropWhile_le)
      from less.prems [unfolded Cons orchestrator_threads.test_steps_parallel [OF True]] show ?thesis
      proof (cases rule: and_then_SomeE)
        case (stop e)
        then show ?thesis using runParallel_runs assms by blast
      next
        case (go w1)
        then have "runs w w1" using runParallel_runs assms by blast
        with less.hyps [OF shorter go(2)] show ?thesis by (rule runs_trans [rotated])
      qed
    qed
  qed
qed

lemma ListByJob_runs: "ArtifactStore_ListByJob E c job w = (r, w') \<Longrightarrow> runs w w'"
  by (cases rule: ListByJob_cases [of E c job w]) (auto simp: runs_tick)

lemma Deployinator_runs:
  assumes "Deployinator_Run E (Deployinator_New (runStep E) img) jobID bj cfg w = Some (r, w')"
  shows "runs w w'"
proof -
  obtain x w1 where l: "ArtifactStore_ListByJob E Ctx bj w = (x, w1)" by fastforce
  note db = ListByJob_runs [OF l]
  show ?thesis
    using assms l db
    by (auto simp: Deployinator_Run_def Deployinator_New_def split: sum.splits option.splits
        intro: runs_trans runStep_runs)
qed

text \<open>The work of the three stages of an orchestrator.\<close>

lemma build_work_runs:
  "Buildinator_Run E (orc_build (Orchestrator_New E oc)) jobID steps w = Some (r, w') \<Longrightarrow> runs w w'"
  by (auto simp: Orchestrator_New_sel Buildinator_Run_def elim!: build_steps_runs [rotated])

lemma test_work_runs:
  "Testinator_Run E (orc_test (Orchestrator_New E oc)) jobID steps w = Some (r, w') \<Longrightarrow> runs w w'"
  by (auto simp: Orchestrator_New_sel Testinator_Run_def intro: test_steps_runs)

lemma deploy_work_runs:
  "Deployinator_Run E (orc_deploy (Orchestrator_New E oc)) jobID bj d w = Some (r, w') \<Longrightarrow> runs w w'"
  by (auto simp: Orchestrator_New_sel intro: Deployinator_runs)

end

text \<open>
  What a run calls besides: the creation of jobs of the three types, and updates of jobs and of its
  own row to the statuses it knows.
\<close>

locale run_client = step_client +
  assumes new_job: "inv w \<Longrightarrow> JobStore_Create E Ctx (new_job runID jobType) w = (e, j, w') \<Longrightarrow>
      jobType \<in> {JobTypeBuild, JobTypeTest, JobTypeDeploy} \<Longrightarrow> R w w'"
    and job_state: "inv w \<Longrightarrow> JobStore_UpdateStatus E c jk s w = (e, w') \<Longrightarrow>
      s \<in> {StageStateRunning, StageStateSucceeded, StageStateFailed} \<Longrightarrow> R w w'"
    and run_state: "inv w \<Longrightarrow> PipelineRunStore_UpdateStatus E c rk s w = (e, w') \<Longrightarrow>
      s \<in> {PipelineRunStateRunning, PipelineRunStateSuccess, PipelineRunStateFailed, PipelineRunStateCanceled} \<Longrightarrow>
      R w w'"
begin

lemma final_state_known: "final_state r \<in> {StageStateRunning, StageStateSucceeded, StageStateFailed}"
  by (simp add: final_state_def)


lemma runStage_runs:
  assumes "runStage E runID jobType fn w = Some (r, w')"
    and "\<And>jobID w r w'. fn jobID w = Some (r, w') \<Longrightarrow> runs w w'"
    and type: "jobType \<in> {JobTypeBuild, JobTypeTest, JobTypeDeploy}"
  shows "runs w w'"
proof -
  obtain x j w1 where c: "JobStore_Create E Ctx (new_job runID jobType) w = (x, j, w1)"
    by (metis prod_cases3)
  have one: "runs w w1" by (rule runs_one) (rule new_job [OF _ c type])
  show ?thesis
  proof (cases x)
    case (Some e)
    with assms(1) c one show ?thesis by (simp add: runStage_def)
  next
    case None
    obtain y w2 where s: "JobStore_UpdateStatus E Ctx (Job_ID j) StageStateRunning w1 = (y, w2)"
      by fastforce
    have "runs w1 w2" by (rule runs_one, rule job_state [OF _ s]) simp_all
    with one have two: "runs w w2" by (rule runs_trans)
    show ?thesis
    proof (cases y)
      case (Some e)
      with assms(1) c s two None show ?thesis by (simp add: runStage_def)
    next
      case y: None
      obtain z w3 where f: "fn (Job_ID j) w2 = Some (z, w3)"
        using assms(1) c s None y by (auto simp: runStage_def split: option.splits)
      obtain q w4 where u: "JobStore_UpdateStatus E WithoutCancel (Job_ID j) (final_state z) w3 = (q, w4)"
        by fastforce
      have "runs w3 w4" by (rule runs_one, rule job_state [OF _ u]) (simp, rule final_state_known)
      with runs_trans [OF two assms(2) [OF f]] have "runs w w4" by (rule runs_trans)
      with assms(1) c s f u None y show ?thesis by (simp add: runStage_def)
    qed
  qed
qed

lemma build_stage_runs:
  assumes "build_stage E (Orchestrator_New E oc) runID cfg w = Some (r, w')"
  shows "runs w w'"
proof (cases "Config_Build cfg")
  case (Some b)
  with assms show ?thesis
    by (auto simp: build_stage_def elim!: runStage_runs build_work_runs)
qed (use assms in \<open>simp add: build_stage_def\<close>)

lemma test_stage_runs:
  assumes "test_stage E (Orchestrator_New E oc) runID cfg w = Some (r, w')"
  shows "runs w w'"
proof (cases "Config_Test cfg")
  case (Some t)
  with assms obtain i where "runStage E runID JobTypeTest (\<lambda>jobID. Testinator_Run E
      (orc_test (Orchestrator_New E oc)) jobID (TestConfig_Steps t)) w = Some ((i, r), w')"
    by (auto simp: test_stage_def stage_err_Some)
  then show ?thesis
    by (rule runStage_runs) (auto intro: test_work_runs)
qed (use assms in \<open>simp add: test_stage_def\<close>)

lemma deploy_stage_runs:
  assumes "deploy_stage E (Orchestrator_New E oc) runID cfg bj w = Some (r, w')"
  shows "runs w w'"
proof (cases "Config_Deploy cfg")
  case (Some d)
  with assms obtain i where "runStage E runID JobTypeDeploy (\<lambda>jobID. Deployinator_Run E
      (orc_deploy (Orchestrator_New E oc)) jobID bj d) w = Some ((i, r), w')"
    by (auto simp: deploy_stage_def stage_err_Some)
  then show ?thesis
    by (rule runStage_runs) (auto intro: deploy_work_runs)
qed (use assms in \<open>simp add: deploy_stage_def\<close>)

lemma executeStages_runs:
  assumes "executeStages E (Orchestrator_New E oc) runID cfg w = Some (r, w')"
  shows "runs w w'"
  using assms
proof (cases rule: executeStages_SomeE)
  case (build_failed bj e)
  then show ?thesis by (blast intro: build_stage_runs)
next
  case (built bj w1)
  note b = build_stage_runs [OF built(1)]
  from built(2) show ?thesis
  proof (cases rule: and_then_SomeE)
    case (stop e)
    then show ?thesis using b by (blast intro: test_stage_runs runs_trans)
  next
    case (go w2)
    then show ?thesis using b by (blast intro: test_stage_runs deploy_stage_runs runs_trans)
  qed
qed

lemma Run_runs:
  assumes "Run E (Orchestrator_New E oc) runID cfg w = Some (r, w')"
  shows "runs w w'"
proof -
  obtain x w1 where s: "PipelineRunStore_UpdateStatus E Ctx runID PipelineRunStateRunning w = (x, w1)"
    by fastforce
  have one: "runs w w1" by (rule runs_one, rule run_state [OF _ s]) simp_all
  show ?thesis
  proof (cases x)
    case (Some e)
    with assms s one show ?thesis by (simp add: Run_def)
  next
    case None
    then obtain y w2 where e: "executeStages E (Orchestrator_New E oc) runID cfg w1 = Some (y, w2)"
      using assms s by (auto simp: Run_def split: option.splits)
    obtain st q where u: "PipelineRunStore_UpdateStatus E WithoutCancel runID st (tock w2) = (q, w')"
      and st: "st \<in> {PipelineRunStateRunning, PipelineRunStateSuccess, PipelineRunStateFailed, PipelineRunStateCanceled}"
      using assms s e None by (auto simp: Run_def Let_def split: prod.splits if_splits)
    have "runs (tock w2) w'" by (rule runs_one) (rule run_state [OF _ u st])
    then show ?thesis
      using one executeStages_runs [OF e] by (blast intro: runs_trans runs_tick)
  qed
qed

end

section \<open>The store operations\<close>

text \<open>One action of the step machine is one store operation or an action outside the tables.\<close>

lemma step_adv_db: "db_step E w (snd (step_adv E t w))"
proof (cases "th_pc t")
  case AtCreate
  then show ?thesis
    by (auto simp: step_adv_def pc_adv_def split: prod.split option.split intro: db_step.step_create)
next
  case (AtStart sid)
  then show ?thesis
    by (auto simp: step_adv_def pc_adv_def split: prod.split option.split intro: db_step.step_status)
next
  case (AtRecord sid h)
  then show ?thesis
    by (auto simp: step_adv_def pc_adv_def split: prod.split option.split intro: db_step.execution_create)
next
  case (AtUpdate sid eid h st)
  then show ?thesis
    by (auto simp: step_adv_def pc_adv_def split: prod.split intro: db_step.execution_status)
next
  case (AtFinal sid r)
  then show ?thesis
    by (auto simp: step_adv_def pc_adv_def split: prod.split intro: db_step.step_status)
qed (auto simp: step_adv_cases outside_def split: sum.split intro!: db_step.elsewhere)

abbreviation db_run :: "env \<Rightarrow> world \<Rightarrow> world \<Rightarrow> bool" where
  "db_run E \<equiv> (db_step E)\<^sup>*\<^sup>*"

interpretation store_client: run_client E "\<lambda>_. True" "db_step E" "\<lambda>_. True" for E
  by unfold_locales (auto intro: db_step.intros step_adv_db)

lemma Run_db:
  assumes "Run E (Orchestrator_New E oc) runID cfg w = Some (r, w')"
  shows "db_run E w w'"
  using store_client.runs_steps [OF store_client.Run_runs [OF assms]] by simp

text \<open>
  What a run does to the data base is a sequence of calls of the store operations, with actions
  outside the tables in between. So whatever every operation keeps, a run keeps.
\<close>

lemma run_keeps_db:
  assumes "Run E (Orchestrator_New E oc) runID cfg w = Some (r, w')"
  shows "wf_db w \<longrightarrow> wf_db w'" "history_kept w w'"
  using Run_db [OF assms] integrity.steps_keep history.steps_keep history_kept_refl by blast+

text \<open>
  C30: a run that has ended is started again without a check. When \<open>Run\<close> is called with the
  identifier of a run in a final status, the row goes back to running: a transition that
  \<open>ValidateTransition\<close> rejects.
\<close>

theorem run_restart_unchecked:
  assumes "Run E (Orchestrator_New E oc) runID cfg w = Some (r, w')"
    and "db_up E Ctx (Suc (tick w))" and "get_row PipelineRun_ID runID (pipeline_runs w) = Some x"
    and "PipelineRun_Status x \<in> {stateSuccess, stateFailed, stateCanceled}"
  shows "RunStatus runID (PipelineRun_Status x) stateRunning \<in> set (log w') \<and>
    PipelineRunState_ValidateTransition (PipelineRun_Status x) stateRunning \<noteq> None"
proof -
  have x: "x \<in> set (pipeline_runs w)" "PipelineRun_ID x = runID"
    using get_row_Some [OF assms(3)] by simp_all
  obtain q w1 where u: "PipelineRunStore_UpdateStatus E Ctx runID PipelineRunStateRunning w = (q, w1)"
    by fastforce
  have started: "q = None" "RunStatus runID (PipelineRun_Status x) stateRunning \<in> set (log w1)"
    using u x assms(2)
    by (auto simp: PipelineRunStore_UpdateStatus_up update_pipeline_run_def PipelineRunStateRunning_def)
  then obtain y w2 where e: "executeStages E (Orchestrator_New E oc) runID cfg w1 = Some (y, w2)"
    using assms(1) u by (auto simp: Run_def split: option.splits)
  obtain st z where f: "PipelineRunStore_UpdateStatus E WithoutCancel runID st (tock w2) = (z, w')"
    using assms(1) u e started(1) by (auto simp: Run_def Let_def split: prod.splits)
  have "db_run E w1 w'"
    using store_client.runs_trans [OF store_client.executeStages_runs [OF e] store_client.runs_tick(1)]
      db_step.run_status [OF f] store_client.runs_steps
    by (meson rtranclp.rtrancl_into_rtrancl)
  from history.steps_keep [OF this history_kept_refl] have "prefix (log w1) (log w')"
    by (simp add: history_kept_def)
  then have "set (log w1) \<subseteq> set (log w')" by (rule set_mono_prefix)
  with started(2) have "RunStatus runID (PipelineRun_Status x) stateRunning \<in> set (log w')" by blast
  moreover have "PipelineRunState_ValidateTransition (PipelineRun_Status x) stateRunning \<noteq> None"
    using assms(4) by (elim insertE) (simp_all add: run_valid_cases state_defs)
  ultimately show ?thesis by blast
qed

end
