(* ===== verification/RunTypes.thy ===== *)
theory RunTypes
  imports RunRefinement
begin

text \<open>
  The statuses in the tables are plain text columns. This theory types them: the statuses of runs,
  jobs, steps and executions and the types of jobs are values of the lifecycle types of the code,
  and a run keeps it so, whatever fails, as long as the executor reports phases of its interface.
\<close>

definition run_states :: "string set" where
  "run_states = {PipelineRunStatePending, PipelineRunStateRunning, PipelineRunStateSuccess,
     PipelineRunStateFailed, PipelineRunStateCanceled}"

definition stage_states :: "string set" where
  "stage_states = {StageStatePending, StageStateRunning, StageStateSucceeded, StageStateFailed}"

definition phases :: "string set" where
  "phases = {ExecutionPhasePending, ExecutionPhaseRunning, ExecutionPhaseSucceeded, ExecutionPhaseFailed,
     ExecutionPhaseCanceled}"

definition job_types :: "string set" where
  "job_types = {JobTypeBuild, JobTypeTest, JobTypeDeploy}"

definition typed_db :: "world \<Rightarrow> bool" where
  "typed_db w \<longleftrightarrow> (\<forall>x\<in>set (pipeline_runs w). PipelineRun_Status x \<in> run_states) \<and>
     (\<forall>x\<in>set (jobs w). Job_Status x \<in> stage_states \<and> Job_JobType x \<in> job_types) \<and>
     (\<forall>x\<in>set (job_steps w). JobStep_Status x \<in> stage_states) \<and>
     (\<forall>x\<in>set (executions w). Execution_Status x \<in> phases)"

definition typed_executor :: "env \<Rightarrow> bool" where
  "typed_executor E \<longleftrightarrow> (\<forall>n h st. ex_status E n h = Inr st \<longrightarrow> Status_Phase st \<in> phases)"

lemma pending_typed [simp]: "''pending'' \<in> run_states" "''pending'' \<in> stage_states" "''pending'' \<in> phases"
  by (simp_all add: run_states_def stage_states_def phases_def PipelineRunStatePending_def
      StageStatePending_def ExecutionPhasePending_def state_defs)

lemma stage_states_simps [simp]: "StageStateRunning \<in> stage_states" "final_state r \<in> stage_states"
  by (simp_all add: stage_states_def final_state_def)

lemma execution_pending: "ExecutionPhasePending \<in> phases"
  by (simp add: phases_def)

text \<open>The updates and insertions of a run, one table each.\<close>

lemma typed_status:
  "JobStepStore_UpdateStatus E c k s w = (e, w') \<Longrightarrow> s \<in> stage_states \<Longrightarrow> typed_db w \<Longrightarrow> typed_db w'"
  "JobStore_UpdateStatus E c j s w = (e, w') \<Longrightarrow> s \<in> stage_states \<Longrightarrow> typed_db w \<Longrightarrow> typed_db w'"
  "PipelineRunStore_UpdateStatus E c i s w = (e, w') \<Longrightarrow> s \<in> run_states \<Longrightarrow> typed_db w \<Longrightarrow> typed_db w'"
  "ExecutionStore_UpdateStatus E c x s w = (e, w') \<Longrightarrow> s \<in> phases \<Longrightarrow> typed_db w \<Longrightarrow> typed_db w'"
     apply (cases rule: JobStepStore_UpdateStatus_cases [of E c k s w]; force simp: typed_db_def dest: set_row_memD)
    apply (cases rule: JobStore_UpdateStatus_cases [of E c j s w]; force simp: typed_db_def set_job_def dest: set_row_memD)
   apply (cases rule: PipelineRunStore_UpdateStatus_cases [of E c i s w]; force simp: typed_db_def dest: set_row_memD)
  apply (cases rule: ExecutionStore_UpdateStatus_cases [of E c x s w]; force simp: typed_db_def dest: set_row_memD)
  done

lemma typed_create:
  "JobStepStore_Create E c t w = (e, t', w') \<Longrightarrow> JobStep_Status t = '''' \<Longrightarrow> typed_db w \<Longrightarrow> typed_db w'"
  "JobStore_Create E c j w = (e, j', w') \<Longrightarrow> Job_Status j = '''' \<Longrightarrow> Job_JobType j \<in> job_types \<Longrightarrow>
     typed_db w \<Longrightarrow> typed_db w'"
  "ExecutionStore_Create E c x w = (e, x', w') \<Longrightarrow> Execution_Status x \<in> phases \<Longrightarrow> Execution_Status x \<noteq> '''' \<Longrightarrow>
     typed_db w \<Longrightarrow> typed_db w'"
  "ArtifactStore_Create E c a w = (e, a', w') \<Longrightarrow> typed_db w \<Longrightarrow> typed_db w'"
     apply (cases rule: JobStepStore_Create_cases [of E c t w]; auto simp: typed_db_def)
    apply (cases rule: JobStore_Create_cases [of E c j w]; auto simp: typed_db_def)
   apply (cases rule: ExecutionStore_Create_cases [of E c x w]; auto simp: typed_db_def)
  apply (cases rule: ArtifactStore_Create_cases [of E c a w]; auto simp: typed_db_def)
  done

text \<open>
  An action of a step. The phase that a step is about to record is one that it has read from the
  executor.
\<close>

definition typed_thread :: "step_thread \<Rightarrow> bool" where
  "typed_thread t \<longleftrightarrow> (\<forall>sid eid h st. th_pc t = AtUpdate sid eid h st \<longrightarrow> Status_Phase st \<in> phases)"

lemma typed_thread_adv:
  assumes "typed_executor E"
  shows "typed_thread (fst (step_adv E t w))"
proof (cases "th_pc t")
  case (AtStatus sid eid h)
  with assms show ?thesis
    by (auto simp: typed_thread_def typed_executor_def step_adv_cases split: sum.splits)
qed (auto simp: typed_thread_def step_adv_cases split: prod.splits option.splits sum.splits)

lemma typed_advance:
  assumes "typed_thread t" and "typed_db w"
  shows "typed_db (snd (step_adv E t w))"
proof (cases "th_pc t")
  case AtCreate
  have "JobStep_Status (new_step (th_job t) (th_name t) (th_order t) (th_group t)) = ''''"
    by (simp add: new_step_def)
  with AtCreate assms(2) show ?thesis
    by (auto simp: step_adv_def pc_adv_def split: prod.splits option.splits dest: typed_create(1))
next
  case (AtStart sid)
  with assms(2) show ?thesis
    by (auto simp: step_adv_def pc_adv_def split: prod.splits option.splits dest: typed_status(1))
next
  case (AtRecord sid h)
  have "Execution_Status (new_execution sid h) \<in> phases" "Execution_Status (new_execution sid h) \<noteq> ''''"
    by (simp_all add: new_execution_def phases_def ExecutionPhasePending_def)
  with AtRecord assms(2) show ?thesis
    by (auto simp: step_adv_def pc_adv_def split: prod.splits option.splits dest: typed_create(3))
next
  case (AtUpdate sid eid h st)
  with assms show ?thesis
    by (auto simp: step_adv_def pc_adv_def typed_thread_def split: prod.splits dest: typed_status(4))
next
  case (AtFinal sid r)
  with assms(2) show ?thesis
    by (auto simp: step_adv_def pc_adv_def split: prod.splits dest: typed_status(1))
qed (use assms(2) in \<open>auto simp: step_adv_cases typed_db_def split: sum.splits\<close>)

definition keeps_types :: "env \<Rightarrow> world \<Rightarrow> world \<Rightarrow> bool" where
  "keeps_types E w w' \<longleftrightarrow> typed_executor E \<longrightarrow> typed_db w \<longrightarrow> typed_db w'"

interpretation typed_client: run_client E "\<lambda>_. True" "keeps_types E" "\<lambda>t. typed_executor E \<longrightarrow> typed_thread t" for E
proof unfold_locales
  fix t w
  assume t: "typed_executor E \<longrightarrow> typed_thread t"
  show "keeps_types E w (snd (step_adv E t w))"
    using t typed_advance by (simp add: keeps_types_def)
  show "typed_executor E \<longrightarrow> typed_thread (fst (step_adv E t w))"
    using typed_thread_adv by blast
next
  fix jobID name order grp spec
  show "typed_executor E \<longrightarrow> typed_thread (spawn jobID name order grp spec)"
    by (simp add: typed_thread_def spawn_def)
next
  fix w n
  show "keeps_types E w (w\<lparr>tick := n\<rparr>)" by (simp add: keeps_types_def typed_db_def)
next
  fix a e a' w w' assume "ArtifactStore_Create E Ctx a w = (e, a', w')"
  then show "keeps_types E w w'" unfolding keeps_types_def using typed_create(4) by blast
next
  fix runID jobType w e j w'
  assume "JobStore_Create E Ctx (new_job runID jobType) w = (e, j, w')"
    and "jobType \<in> {JobTypeBuild, JobTypeTest, JobTypeDeploy}"
  moreover from this(2) have "Job_Status (new_job runID jobType) = ''''"
    "Job_JobType (new_job runID jobType) \<in> job_types"
    by (simp_all add: new_job_def job_types_def)
  ultimately show "keeps_types E w w'" unfolding keeps_types_def using typed_create(2) by blast
next
  fix c jk s w e w'
  assume "JobStore_UpdateStatus E c jk s w = (e, w')"
    and "s \<in> {StageStateRunning, StageStateSucceeded, StageStateFailed}"
  moreover from this(2) have "s \<in> stage_states" by (auto simp: stage_states_def)
  ultimately show "keeps_types E w w'" unfolding keeps_types_def using typed_status(2) by blast
next
  fix c rk s w e w'
  assume "PipelineRunStore_UpdateStatus E c rk s w = (e, w')"
    and "s \<in> {PipelineRunStateRunning, PipelineRunStateSuccess, PipelineRunStateFailed, PipelineRunStateCanceled}"
  moreover from this(2) have "s \<in> run_states" by (auto simp: run_states_def)
  ultimately show "keeps_types E w w'" unfolding keeps_types_def using typed_status(3) by blast
qed

text \<open>
  C10: with an executor that reports phases of its interface, a run leaves every status column
  with a value of its lifecycle type (runs, jobs, steps, executions) and every job with one of
  the three job types, whatever fails on the way; the rows of other runs included.
\<close>

theorem run_keeps_types:
  assumes "Run E (Orchestrator_New E oc) runID cfg w = Some (r, w')" and "typed_executor E"
    and "typed_db w"
  shows "typed_db w'"
proof -
  have "(keeps_types E)\<^sup>*\<^sup>* w w'" by (rule typed_client.runs_steps [OF typed_client.Run_runs [OF assms(1)] TrueI])
  then show ?thesis
    by (induction rule: rtranclp_induct) (use assms(2,3) in \<open>auto simp: keeps_types_def\<close>)
qed

end
