(* ===== verification/RunControl.thy ===== *)
theory RunControl
  imports RunLifecycle RunRefinement
begin

text \<open>
  What a run leaves alone, and what it does to its own row and to its jobs, in order. Both are
  shown of every action a run performs, with the contracts of a run as a client of the data base.
\<close>

section \<open>Rows that were there before\<close>

lemma prefix_set_row:
  assumes "prefix xs rows" and "k \<notin> key ` set xs"
  shows "prefix xs (set_row key k f rows)"
proof -
  have "set_row key k f xs = xs" using assms(2) by (induction xs) auto
  with assms(1) show ?thesis by (auto simp: prefix_def set_row_def)
qed

text \<open>The steps \<open>S\<close> and the executions \<open>X\<close> are the first rows of their tables.\<close>

definition older :: "JobStep list \<Rightarrow> Execution list \<Rightarrow> world \<Rightarrow> bool" where
  "older S X w \<longleftrightarrow> prefix S (job_steps w) \<and> prefix X (executions w)"

text \<open>The identifiers that a thread of a step works with are none of theirs.\<close>

definition apart :: "JobStep list \<Rightarrow> Execution list \<Rightarrow> step_thread \<Rightarrow> bool" where
  "apart S X t \<longleftrightarrow> (case th_pc t of
     AtCreate \<Rightarrow> True
   | AtStart sid \<Rightarrow> sid \<notin> JobStep_ID ` set S
   | AtSubmit sid \<Rightarrow> sid \<notin> JobStep_ID ` set S
   | AtRecord sid h \<Rightarrow> sid \<notin> JobStep_ID ` set S
   | AtSelect sid eid h \<Rightarrow> sid \<notin> JobStep_ID ` set S \<and> eid \<notin> Execution_ID ` set X
   | AtCancel sid h \<Rightarrow> sid \<notin> JobStep_ID ` set S
   | AtStatus sid eid h \<Rightarrow> sid \<notin> JobStep_ID ` set S \<and> eid \<notin> Execution_ID ` set X
   | AtUpdate sid eid h st \<Rightarrow> sid \<notin> JobStep_ID ` set S \<and> eid \<notin> Execution_ID ` set X
   | AtFinal sid r \<Rightarrow> sid \<notin> JobStep_ID ` set S
   | Returned r \<Rightarrow> True)"

lemma prefix_fresh: "prefix xs rows \<Longrightarrow> k \<notin> key ` set rows \<Longrightarrow> k \<notin> key ` set xs"
  by (auto dest: set_mono_prefix)

lemma older_create_step:
  assumes "JobStepStore_Create E c s w = (e, s', w')" and "older S X w"
  shows "older S X w' \<and> (e = None \<longrightarrow> JobStep_ID s' \<notin> JobStep_ID ` set S)"
proof (cases rule: JobStepStore_Create_cases [of E c s w])
  case (created s2 i t n)
  then have "JobStep_ID s2 = i" by simp
  moreover have "i \<notin> JobStep_ID ` set S"
    using assms(2) prefix_fresh [OF _ created(4)] by (simp add: older_def)
  ultimately show ?thesis using created(1) assms by (auto simp: older_def intro: prefix_prefix)
qed (use assms in \<open>simp add: older_def\<close>)

lemma older_create_execution:
  assumes "ExecutionStore_Create E c x w = (e, x', w')" and "older S X w"
  shows "older S X w' \<and> (e = None \<longrightarrow> Execution_ID x' \<notin> Execution_ID ` set X)"
proof (cases rule: ExecutionStore_Create_cases [of E c x w])
  case (created x2 i t n)
  then have "Execution_ID x2 = i" by simp
  moreover have "i \<notin> Execution_ID ` set X"
    using assms(2) prefix_fresh [OF _ created(4)] by (simp add: older_def)
  ultimately show ?thesis using created(1) assms by (auto simp: older_def intro: prefix_prefix)
qed (use assms in \<open>simp add: older_def\<close>)

lemmas older_create = older_create_step older_create_execution

lemma older_status:
  "JobStepStore_UpdateStatus E c sid s w = (e, w') \<Longrightarrow> sid \<notin> JobStep_ID ` set S \<Longrightarrow> older S X w \<Longrightarrow> older S X w'"
  "ExecutionStore_UpdateStatus E c eid s w = (e, w') \<Longrightarrow> eid \<notin> Execution_ID ` set X \<Longrightarrow> older S X w \<Longrightarrow> older S X w'"
   apply (cases rule: JobStepStore_UpdateStatus_cases [of E c sid s w]; auto simp: older_def intro: prefix_set_row)
  apply (cases rule: ExecutionStore_UpdateStatus_cases [of E c eid s w]; auto simp: older_def intro: prefix_set_row)
  done

lemma older_outside_tables:
  "ArtifactStore_Create E c a w = (e, a', w') \<Longrightarrow> older S X w \<Longrightarrow> older S X w'"
  "JobStore_Create E c j w = (e, j', w') \<Longrightarrow> older S X w \<Longrightarrow> older S X w'"
  "JobStore_UpdateStatus E c jk s w = (e, w') \<Longrightarrow> older S X w \<Longrightarrow> older S X w'"
  "PipelineRunStore_UpdateStatus E c rk s w = (e, w') \<Longrightarrow> older S X w \<Longrightarrow> older S X w'"
     apply (cases rule: ArtifactStore_Create_cases [of E c a w]; auto simp: older_def)
    apply (cases rule: JobStore_Create_cases [of E c j w]; auto simp: older_def)
   apply (cases rule: JobStore_UpdateStatus_cases [of E c jk s w]; auto simp: older_def)
  apply (cases rule: PipelineRunStore_UpdateStatus_cases [of E c rk s w]; auto simp: older_def)
  done

lemma older_advance:
  assumes "older S X w" and "apart S X t"
  shows "older S X (snd (step_adv E t w)) \<and> apart S X (fst (step_adv E t w))"
proof (cases "th_pc t")
  case AtCreate
  with assms show ?thesis
    by (auto simp: step_adv_def pc_adv_def apart_def split: prod.splits option.splits dest: older_create(1))
next
  case (AtStart sid)
  with assms show ?thesis
    by (auto simp: step_adv_def pc_adv_def apart_def split: prod.splits option.splits dest: older_status(1))
next
  case (AtRecord sid h)
  with assms show ?thesis
    by (auto simp: step_adv_def pc_adv_def apart_def split: prod.splits option.splits dest: older_create(2))
next
  case (AtUpdate sid eid h st)
  with assms show ?thesis
    by (auto simp: step_adv_def pc_adv_def apart_def split: prod.splits dest: older_status(2))
next
  case (AtFinal sid r)
  with assms show ?thesis
    by (auto simp: step_adv_def pc_adv_def apart_def split: prod.splits dest: older_status(1))
qed (use assms in \<open>auto simp: step_adv_cases apart_def older_def split: sum.split\<close>)

interpretation old_rows: run_client E "older S X" "\<lambda>_. older S X" "apart S X" for E S X
  by unfold_locales (use older_advance older_outside_tables in
      \<open>auto simp: older_def apart_def spawn_def\<close>)

text \<open>
  C11: a run touches nothing of others. Projects, repositories and pipelines stay as they are, so
  do the rows of the other runs. The jobs, the steps, the artifacts and the executions that existed
  keep their rows, with every column, and their order; new rows are only added after them.
\<close>

theorem run_frame:
  assumes "Run E (Orchestrator_New E oc) runID cfg w = Some (r, w')" and "run_can_start runID w"
  shows "projects w' = projects w \<and> repositories w' = repositories w \<and> pipelines w' = pipelines w \<and>
    map PipelineRun_ID (pipeline_runs w') = map PipelineRun_ID (pipeline_runs w) \<and>
    (\<forall>k. k \<noteq> runID \<longrightarrow> get_row PipelineRun_ID k (pipeline_runs w') = get_row PipelineRun_ID k (pipeline_runs w)) \<and>
    prefix (jobs w) (jobs w') \<and> prefix (artifacts w) (artifacts w') \<and>
    prefix (job_steps w) (job_steps w') \<and> prefix (executions w) (executions w')"
proof -
  have "older (job_steps w) (executions w) w'"
    by (rule old_rows.runs_inv [OF old_rows.Run_runs [OF assms(1)]]) (simp add: older_def)
  with Run_summary [OF assms] show ?thesis
    by (auto simp: run_summary_def steps_ran_def same_but_steps_def older_def prefix_def)
qed


section \<open>The status changes of a run and its jobs\<close>

lemma filter_get_row:
  "distinct (map key rows) \<Longrightarrow> get_row key k rows = Some r \<Longrightarrow> filter (\<lambda>r. key r = k) rows = [r]"
  by (induction rows) (auto simp: filter_empty_conv rev_image_eqI split: if_splits)

fun is_control :: "event \<Rightarrow> bool" where
  "is_control (RunStatus _ _ _) = True"
| "is_control (JobStatus _ _ _) = True"
| "is_control _ = False"

abbreviation control :: "event list \<Rightarrow> event list" where
  "control \<equiv> filter is_control"

text \<open>
  The specification: a job that was started went to running and from there to the status it has
  now, with nothing in between; one that could not be started is pending still.
\<close>

definition job_trace :: "Job \<Rightarrow> event list" where
  "job_trace j = (if Job_Status j = statePending then []
     else [JobStatus (Job_ID j) statePending stateRunning, JobStatus (Job_ID j) stateRunning (Job_Status j)])"

definition run_trace :: "PipelineRunID \<Rightarrow> string \<Rightarrow> Job list \<Rightarrow> string \<Rightarrow> event list" where
  "run_trace runID s js t =
     RunStatus runID s stateRunning # concat (map job_trace js) @ [RunStatus runID stateRunning t]"

text \<open>The work of a stage leaves runs and jobs alone.\<close>

definition quiet :: "world \<Rightarrow> world \<Rightarrow> bool" where
  "quiet w w' \<longleftrightarrow> jobs w' = jobs w \<and> control (log w') = control (log w)"

lemma control_other [simp]:
  "control (map (\<lambda>x. StepStatus k (f x) s) xs) = []" "control (map (\<lambda>x. ExecStatus e (g x) s) ys) = []"
  by (simp_all add: filter_map comp_def)

lemma quiet_create:
  "JobStepStore_Create E c s w = (e, s', w') \<Longrightarrow> quiet w w'"
  "ExecutionStore_Create E c x w = (e, x', w') \<Longrightarrow> quiet w w'"
  "ArtifactStore_Create E c a w = (e, a', w') \<Longrightarrow> quiet w w'"
    apply (cases rule: JobStepStore_Create_cases [of E c s w]; auto simp: quiet_def)
   apply (cases rule: ExecutionStore_Create_cases [of E c x w]; auto simp: quiet_def)
  apply (cases rule: ArtifactStore_Create_cases [of E c a w]; auto simp: quiet_def)
  done

lemma quiet_status:
  "JobStepStore_UpdateStatus E c sid s w = (e, w') \<Longrightarrow> quiet w w'"
  "ExecutionStore_UpdateStatus E c eid s w = (e, w') \<Longrightarrow> quiet w w'"
   apply (cases rule: JobStepStore_UpdateStatus_cases [of E c sid s w]; auto simp: quiet_def)
  apply (cases rule: ExecutionStore_UpdateStatus_cases [of E c eid s w]; auto simp: quiet_def)
  done

lemma quiet_advance: "quiet w (snd (step_adv E t w))"
proof (cases "th_pc t")
  case AtCreate
  then show ?thesis
    by (auto simp: step_adv_def pc_adv_def split: prod.split option.split dest: quiet_create(1))
next
  case (AtStart sid)
  then show ?thesis
    by (auto simp: step_adv_def pc_adv_def split: prod.split option.split dest: quiet_status(1))
next
  case (AtRecord sid h)
  then show ?thesis
    by (auto simp: step_adv_def pc_adv_def split: prod.split option.split dest: quiet_create(2))
next
  case (AtUpdate sid eid h st)
  then show ?thesis
    by (auto simp: step_adv_def pc_adv_def split: prod.split dest: quiet_status(2))
next
  case (AtFinal sid r)
  then show ?thesis
    by (auto simp: step_adv_def pc_adv_def split: prod.split dest: quiet_status(1))
qed (auto simp: step_adv_cases quiet_def split: sum.split)

interpretation stage_control: step_client E "\<lambda>_. True" quiet "\<lambda>_. True" for E
  by unfold_locales (auto intro: quiet_advance quiet_create(3) simp: quiet_def [where w' = "_\<lparr>tick := _\<rparr>"])

lemma quiet_runs: "stage_control.runs w w' \<Longrightarrow> quiet w w'"
proof -
  assume "stage_control.runs w w'"
  then have "quiet\<^sup>*\<^sup>* w w'" by (rule stage_control.runs_steps) simp
  then show "quiet w w'" by (induction rule: rtranclp_induct) (auto simp: quiet_def)
qed

text \<open>
  Stages: \<open>js\<close> are the job rows added, none of which is left between two statuses, and the log has
  their traces.
\<close>

definition logged :: "world \<Rightarrow> world \<Rightarrow> Job list \<Rightarrow> bool" where
  "logged w w' js \<longleftrightarrow> jobs w' = jobs w @ js \<and>
     list_all (\<lambda>j. Job_Status j \<in> {statePending, stateSucceeded, stateFailed}) js \<and> control (log w') = control (log w) @ concat (map job_trace js)"

lemma logged_refl: "logged w w []"
  by (simp add: logged_def)

lemma logged_trans: "logged u v js \<Longrightarrow> logged v w ks \<Longrightarrow> logged u w (js @ ks)"
  by (simp add: logged_def)

lemma runStage_logged:
  assumes run: "runStage E runID jobType fn w = Some ((i, r), w')" and "db_reliable E"
    and work: "\<And>jobID w r w'. fn jobID w = Some (r, w') \<Longrightarrow> quiet w w'"
  shows "\<exists>js. logged w w' js"
proof (cases rule: runStage_cases [of E runID jobType fn w])
  case (not_created e n)
  with run show ?thesis by (auto simp: logged_def intro: exI [of _ "[]"])
next
  case (not_started e j n)
  with run show ?thesis by (auto simp: logged_def job_trace_def intro!: exI [of _ "[j]"])
next
  case (ran j n)
  let ?w2 = "w\<lparr>tick := n, jobs := jobs w @ [j], log := log w @ [JobStatus (Job_ID j) statePending stateRunning]\<rparr>"
  obtain w3 where fn: "fn (Job_ID j) ?w2 = Some (r, w3)"
    and w': "w' = snd (JobStore_UpdateStatus E WithoutCancel (Job_ID j) (final_state r) w3)"
    using run ran(1) by (auto split: option.splits)
  have w3: "jobs w3 = jobs w @ [j]"
    "control (log w3) = control (log w) @ [JobStatus (Job_ID j) statePending stateRunning]"
    using work [OF fn] by (simp_all add: quiet_def)
  have "Job_ID j \<notin> Job_ID ` set (jobs w)" using ran(2) by (simp add: stage_job_def)
  from w3(1) this ran(3) show ?thesis
  proof (cases rule: finish_job_cases [where E = E and r = r, consumes 3, case_names lost finished])
    case lost
    with assms(2) show ?thesis by simp
  next
    case (finished j')
    have "final_state r \<noteq> statePending" "final_state r \<in> {statePending, stateSucceeded, stateFailed}"
      by (simp_all add: final_state_def state_defs StageStateSucceeded_def StageStateFailed_def)
    with finished w3 show ?thesis
      by (intro exI [of _ "[j']"]) (simp add: w' logged_def job_trace_def)
  qed
qed

lemma executeStages_logged:
  assumes "executeStages E (Orchestrator_New E oc) runID cfg w = Some (r, w')" and "db_reliable E"
  shows "\<exists>js. logged w w' js"
proof -
  have build: "\<exists>js. logged u v js" if "build_stage E (Orchestrator_New E oc) runID cfg u = Some (x, v)" for u v x
    using that runStage_logged [OF _ assms(2)] quiet_runs [OF stage_control.build_work_runs]
    by (cases x) (fastforce simp: build_stage_def intro: logged_refl split: option.splits)
  have test: "\<exists>js. logged u v js" if "test_stage E (Orchestrator_New E oc) runID cfg u = Some (x, v)" for u v x
    using that runStage_logged [OF _ assms(2)] quiet_runs [OF stage_control.test_work_runs]
    by (fastforce simp: test_stage_def stage_err_Some intro: logged_refl split: option.splits)
  have deploy: "\<exists>js. logged u v js" if "deploy_stage E (Orchestrator_New E oc) runID cfg bj u = Some (x, v)" for u v x bj
    using that runStage_logged [OF _ assms(2)] quiet_runs [OF stage_control.deploy_work_runs]
    by (fastforce simp: deploy_stage_def stage_err_Some intro: logged_refl split: option.splits)
  from assms(1) show ?thesis
  proof (cases rule: executeStages_SomeE)
    case (build_failed bj e)
    then show ?thesis using build by blast
  next
    case (built bj w1)
    from built(2) show ?thesis
    proof (cases rule: and_then_SomeE)
      case (stop e)
      then show ?thesis using build [OF built(1)] test by (blast intro: logged_trans)
    next
      case (go w2)
      then show ?thesis using build [OF built(1)] test deploy by (blast intro: logged_trans)
    qed
  qed
qed

text \<open>
  C7: what the log of status changes shows of a run, with a database that works and a context that
  is not done when the run starts. The run goes to running first and to its final status last;
  between the two, its jobs follow each other in the order of their rows, each from pending to
  running and on to succeeded or failed, one before the next is started; a job that could not be
  started stays pending and has no entry, and a job that did not succeed is the last one. Nothing else of any run or job is changed: no other run, no job that
  was there before, no status written twice.
\<close>

theorem run_control_log:
  assumes "Run E (Orchestrator_New E oc) runID cfg w = Some (r, w')" and "run_can_start runID w"
    and "db_reliable E" and "\<not> ctx_done E (Suc (tick w))"
    and "get_row PipelineRun_ID runID (pipeline_runs w) = Some x"
  shows "\<exists>js y. jobs w' = jobs w @ js \<and> prefix (map Job_JobType js) (planned_stages cfg) \<and>
    list_all (\<lambda>j. Job_Status j = stateSucceeded) (butlast js) \<and>
    list_all (\<lambda>j. Job_Status j \<in> {statePending, stateSucceeded, stateFailed}) js \<and>
    get_row PipelineRun_ID runID (pipeline_runs w') = Some y \<and>
    PipelineRun_Status y \<in> {stateSuccess, stateFailed, stateCanceled} \<and>
    control (log w') = control (log w) @ run_trace runID (PipelineRun_Status x) js (PipelineRun_Status y)"
proof -
  have up: "db_up E Ctx (Suc (tick w))"
    using assms(3,4) by (simp add: db_reliable_def db_up_def ctx_Err_def)
  have dist: "distinct (map PipelineRun_ID (pipeline_runs w))" using assms(2) by (simp add: run_can_start_def)
  have only: "filter (\<lambda>r. PipelineRun_ID r = runID) (pipeline_runs w) = [x]"
    using filter_get_row [OF dist assms(5)] .
  obtain w1 w2 where w1: "w1 = w\<lparr>tick := tick w + 2,
       pipeline_runs := set_row PipelineRun_ID runID (start_run (time_now E (tick w))) (pipeline_runs w),
       log := log w @ map (\<lambda>r. RunStatus runID (PipelineRun_Status r) stateRunning)
                (filter (\<lambda>r. PipelineRun_ID r = runID) (pipeline_runs w))\<rparr>"
    and ex: "executeStages E (Orchestrator_New E oc) runID cfg w1 = Some (r, w2)"
    and w': "w' = finish_run E runID r w2"
    by (rule Run_started [OF assms(1) up get_row_Some_key [OF assms(5)]])
  obtain js where js: "logged w1 w2 js" using executeStages_logged [OF ex assms(3)] by blast
  obtain ks where "stage_ran E w1 w2 ks"
    using executeStages_ran [OF ex started_ready [OF assms(2) w1]] by (auto simp: stages_ran_def)
  then have runs: "pipeline_runs w2 =
      set_row PipelineRun_ID runID (start_run (time_now E (tick w))) (pipeline_runs w)"
    using stage_ran_frame by (simp add: w1)
  have row: "get_row PipelineRun_ID runID (pipeline_runs w2) = Some (start_run (time_now E (tick w)) x)"
    by (simp add: runs get_row_set_row assms(5))
  have "distinct (map PipelineRun_ID (pipeline_runs w2))" using dist by (simp add: runs)
  note only2 = filter_get_row [OF this row]
  obtain ls where ls: "jobs w' = jobs w @ ls" "prefix (map Job_JobType ls) (planned_stages cfg)"
      "list_all (\<lambda>j. Job_Status j = stateSucceeded) (butlast ls)"
    using Run_summary [OF assms(1,2)] assms(3)
    by (auto simp: run_summary_def jobs_outcome_def progress_def list_all_iff split: if_splits dest: in_set_butlastD)
  have jobs: "jobs w' = jobs w @ js" using js by (simp add: w' finish_run_frame logged_def w1)
  with ls have types: "prefix (map Job_JobType js) (planned_stages cfg)"
    "list_all (\<lambda>j. Job_Status j = stateSucceeded) (butlast js)" by simp_all
  have js': "list_all (\<lambda>j. Job_Status j \<in> {statePending, stateSucceeded, stateFailed}) js"
    using js unfolding logged_def by blast
  show ?thesis
  proof (cases rule: finish_run_cases [of E runID r w2])
    case lost
    with assms(3) show ?thesis by simp
  next
    case finished
    have "control (log w') = control (log w) @ run_trace runID (PipelineRun_Status x) js (final_run_state E r (tick w2))"
      using js by (simp add: w' finished only2 logged_def w1 only run_trace_def)
    moreover have "get_row PipelineRun_ID runID (pipeline_runs w') = Some (set_run (final_run_state E r (tick w2)) None
        (Some (time_now E (Suc (tick w2)))) (start_run (time_now E (tick w)) x))"
      by (simp add: w' finished get_row_set_row row)
    moreover have "final_run_state E r (tick w2) \<in> {stateSuccess, stateFailed, stateCanceled}"
      by (simp add: final_run_state_def state_defs PipelineRunStateSuccess_def PipelineRunStateFailed_def
          PipelineRunStateCanceled_def)
    ultimately show ?thesis using jobs types js'
      by (intro exI [of _ js] exI [of _ "set_run (final_run_state E r (tick w2)) None
        (Some (time_now E (Suc (tick w2)))) (start_run (time_now E (tick w)) x)"]) (simp add: set_run_record)
  qed
qed

end
