(* ===== verification/RunWitnesses.thy ===== *)
theory RunWitnesses
  imports RunLiveness RunTypes RunControl Samples
begin

text \<open>
  The properties of runs at a concrete run: the sample environment and tables, a configuration
  with a build and a deploy stage, and variants of them with a context that is done from the start
  and with no build stage.
\<close>

definition sample_orc :: OrchestratorConfig where
  "sample_orc = \<lparr>BuilderImage = ''builder'', PollInterval = 0, ArtifactBackend = ''nfs'',
     ArtifactBasePath = ''/mnt/artifacts''\<rparr>"

definition deploy_only :: ShipinatorConfig where
  "deploy_only = sample_config\<lparr>Config_Build := None\<rparr>"

definition done_env :: env where
  "done_env = calm_env\<lparr>ctx_done_from := Some 0\<rparr>"

lemma sample_can_start: "run_can_start (PipelineRunID 4) sample_world"
  using sample_ready by (simp add: run_can_start_def run_ready_def sample_run_def statePending_def)

lemma calm_reliable: "db_reliable calm_env" "db_reliable done_env"
  by (simp_all add: db_reliable_def done_env_def)

lemma sample_artifacts: "artifacts_have_jobs sample_world"
  by (simp add: artifacts_have_jobs_def)

lemma sample_returns:
  obtains r w' where "Run calm_env (Orchestrator_New calm_env sample_orc) (PipelineRunID 4) cfg sample_world =
    Some (r, w')"
  using Run_returns [OF calm_settled] by blast

lemma sample_succeeds:
  "map_option fst (Run calm_env (Orchestrator_New calm_env sample_orc) (PipelineRunID 4) sample_config
     sample_world) = Some None"
  by code_simp

lemma sample_result:
  obtains w' where "Run calm_env (Orchestrator_New calm_env sample_orc) (PipelineRunID 4) sample_config
    sample_world = Some (None, w')"
  using sample_succeeds by auto

theorem run_final_status_witness:
  "\<exists>w'. Run calm_env (Orchestrator_New calm_env sample_orc) (PipelineRunID 4) sample_config sample_world =
      Some (None, w') \<and>
    (\<exists>m. get_row PipelineRun_ID (PipelineRunID 4) (pipeline_runs w') = Some (sample_run\<lparr>
      PipelineRun_Status := PipelineRunStateSuccess, PipelineRun_StartedAt := Some 10,
      PipelineRun_FinishedAt := Some m\<rparr>))"
proof (rule sample_result)
  fix w'
  assume run: "Run calm_env (Orchestrator_New calm_env sample_orc) (PipelineRunID 4) sample_config
    sample_world = Some (None, w')"
  have "get_row PipelineRun_ID (PipelineRunID 4) (pipeline_runs sample_world) = Some sample_run"
    by (simp add: sample_run_def)
  from run_final_status [OF run sample_can_start calm_reliable(1) _ this] run
  show ?thesis by auto
qed

theorem run_respects_fsm_witness:
  "\<exists>w'. Run calm_env (Orchestrator_New calm_env sample_orc) (PipelineRunID 4) sample_config sample_world =
      Some (None, w') \<and> list_all event_ok (log w')"
  by (rule sample_result) (use run_respects_fsm [OF _ sample_can_start] in blast)

theorem run_leaves_nothing_running_witness:
  "\<exists>w'. Run calm_env (Orchestrator_New calm_env sample_orc) (PipelineRunID 4) sample_config sample_world =
      Some (None, w') \<and>
    (\<forall>j\<in>set (jobs w'). Job_Status j = stateRunning \<longrightarrow> j = sample_job)"
proof (rule sample_result)
  fix w'
  assume run: "Run calm_env (Orchestrator_New calm_env sample_orc) (PipelineRunID 4) sample_config
    sample_world = Some (None, w')"
  from run_leaves_nothing_running [OF run sample_can_start calm_reliable(1)] run
  show ?thesis by auto
qed

theorem run_stage_order_witness:
  "\<exists>w' js. Run calm_env (Orchestrator_New calm_env sample_orc) (PipelineRunID 4) sample_config sample_world =
      Some (None, w') \<and> jobs w' = sample_job # js \<and> map Job_JobType js = [JobTypeBuild, JobTypeDeploy]"
proof (rule sample_result)
  fix w'
  assume run: "Run calm_env (Orchestrator_New calm_env sample_orc) (PipelineRunID 4) sample_config
    sample_world = Some (None, w')"
  have "planned_stages sample_config = [JobTypeBuild, JobTypeDeploy]"
    by (simp add: planned_stages_def stage_plan_def sample_config_def)
  with run_stage_order [OF run sample_can_start] run show ?thesis by auto
qed

theorem run_frame_witness:
  "\<exists>w'. Run calm_env (Orchestrator_New calm_env sample_orc) (PipelineRunID 4) sample_config sample_world =
      Some (None, w') \<and> prefix [sample_job] (jobs w') \<and> projects w' = projects sample_world"
proof (rule sample_result)
  fix w'
  assume run: "Run calm_env (Orchestrator_New calm_env sample_orc) (PipelineRunID 4) sample_config
    sample_world = Some (None, w')"
  from run_frame [OF run sample_can_start] run show ?thesis by auto
qed

theorem run_returns_witness:
  "\<exists>r w'. Run calm_env (Orchestrator_New calm_env sample_orc) (PipelineRunID 4) sample_config sample_world =
      Some (r, w')"
  by (rule run_returns) simp

theorem run_deploys_own_build_witness:
  "\<exists>w' a. Run calm_env (Orchestrator_New calm_env sample_orc) (PipelineRunID 4) sample_config sample_world =
      Some (None, w') \<and> a \<in> set (artifacts w') \<and> Artifact_ArtifactType a = ''binary''"
proof (rule sample_result)
  fix w'
  assume run: "Run calm_env (Orchestrator_New calm_env sample_orc) (PipelineRunID 4) sample_config
    sample_world = Some (None, w')"
  obtain b d where "Config_Build sample_config = Some b" and d: "Config_Deploy sample_config = Some d"
    by (simp add: sample_config_def)
  from run_deploys_own_build [OF run sample_can_start this sample_artifacts calm_fresh] run
  show ?thesis using d by (auto simp: sample_config_def)
qed

theorem deploy_needs_build_witness:
  "\<exists>e w'. Run calm_env (Orchestrator_New calm_env sample_orc) (PipelineRunID 4) deploy_only sample_world =
      Some (Some e, w')"
proof (rule sample_returns [of deploy_only])
  fix r w'
  assume run: "Run calm_env (Orchestrator_New calm_env sample_orc) (PipelineRunID 4) deploy_only
    sample_world = Some (r, w')"
  obtain d where "Config_Build deploy_only = None" "Config_Deploy deploy_only = Some d"
    by (simp add: deploy_only_def sample_config_def)
  from deploy_needs_build [OF run sample_can_start this] run show ?thesis by auto
qed

theorem run_precancelled_witness:
  "Run done_env (Orchestrator_New done_env sample_orc) (PipelineRunID 4) sample_config sample_world =
    Some (Some (Wrapf ''start pipeline run: %w'' [] CtxCanceled), sample_world\<lparr>tick := 12\<rparr>)"
proof -
  have "ctx_done done_env (Suc (tick sample_world))" by (simp add: ctx_done_def done_env_def)
  from run_precancelled [OF calm_reliable(2) this] show ?thesis by (simp add: done_env_def)
qed

theorem run_control_log_witness:
  "\<exists>w' js t. Run calm_env (Orchestrator_New calm_env sample_orc) (PipelineRunID 4) sample_config sample_world =
      Some (None, w') \<and> jobs w' = sample_job # js \<and>
    control (log w') = run_trace (PipelineRunID 4) ''pending'' js t"
proof (rule sample_result)
  fix w'
  assume run: "Run calm_env (Orchestrator_New calm_env sample_orc) (PipelineRunID 4) sample_config
    sample_world = Some (None, w')"
  have row: "get_row PipelineRun_ID (PipelineRunID 4) (pipeline_runs sample_world) = Some sample_run"
    and status: "PipelineRun_Status sample_run = ''pending''"
    by (simp_all add: sample_run_def)
  from run_control_log [OF run sample_can_start calm_reliable(1) _ row] run
  show ?thesis by (auto simp: status)
qed

definition ended_world :: world where
  "ended_world = sample_world\<lparr>pipeline_runs := [sample_run\<lparr>PipelineRun_Status := ''success''\<rparr>]\<rparr>"

theorem run_restart_unchecked_witness:
  "\<exists>r w'. Run calm_env (Orchestrator_New calm_env sample_orc) (PipelineRunID 4) deploy_only ended_world =
      Some (r, w') \<and> RunStatus (PipelineRunID 4) ''success'' ''running'' \<in> set (log w')"
proof -
  obtain r w' where run: "Run calm_env (Orchestrator_New calm_env sample_orc) (PipelineRunID 4) deploy_only
      ended_world = Some (r, w')"
    using Run_returns [OF calm_settled] by blast
  have row: "get_row PipelineRun_ID (PipelineRunID 4) (pipeline_runs ended_world) =
      Some (sample_run\<lparr>PipelineRun_Status := ''success''\<rparr>)"
    by (simp add: ended_world_def sample_run_def)
  from run_restart_unchecked [OF run _ row] run show ?thesis by (auto simp: state_defs)
qed

lemma calm_healthy: "healthy calm_env"
  by (auto simp: healthy_def calm_reliable calm_fresh verdict_settled_def)

lemma sample_can_succeed: "can_succeed sample_config"
  by (simp add: can_succeed_def sample_config_def declared_types_def)

lemma sample_ticks:
  "map_option (tick \<circ> snd) (Run calm_env (Orchestrator_New calm_env sample_orc) (PipelineRunID 4)
     sample_config sample_world) = Some 63"
  by code_simp

lemma uuids_new_code:
  "uuids_new E w n \<longleftrightarrow> distinct (map (uuid_new E) [tick w..<n]) \<and>
     list_all (\<lambda>k. uuid_new E k \<notin> used_ids w) [tick w..<n]"
  by (simp add: uuids_new_def distinct_map list_all_iff)

lemma sample_uuids_new: "uuids_new calm_env sample_world 63"
  unfolding uuids_new_code by code_simp

theorem healthy_run_succeeds_witness:
  "\<exists>w'. Run calm_env (Orchestrator_New calm_env sample_orc) (PipelineRunID 4) sample_config sample_world =
      Some (None, w') \<and>
    (\<exists>x. get_row PipelineRun_ID (PipelineRunID 4) (pipeline_runs w') = Some x \<and>
       PipelineRun_Status x = PipelineRunStateSuccess)"
proof -
  have row: "PipelineRunID 4 \<in> PipelineRun_ID ` set (pipeline_runs sample_world)"
    by (simp add: sample_run_def)
  obtain r w' where "Run calm_env (Orchestrator_New calm_env sample_orc) (PipelineRunID 4) sample_config
      sample_world = Some (r, w')"
    "uuids_new calm_env sample_world (tick w') \<longrightarrow> r = None \<and>
      (\<exists>x. get_row PipelineRun_ID (PipelineRunID 4) (pipeline_runs w') = Some x \<and>
        PipelineRun_Status x = PipelineRunStateSuccess)"
    using healthy_run_succeeds [OF calm_healthy sample_can_start row sample_can_succeed, of sample_orc] by blast
  with sample_ticks sample_uuids_new show ?thesis by auto
qed

lemma calm_typed: "typed_executor calm_env" "typed_db sample_world"
  by (simp_all add: typed_executor_def phases_def typed_db_def sample_run_def sample_job_def job_types_def
      JobTypeBuild_def stage_states_def StageStateRunning_def stateRunning_def)

theorem run_keeps_types_witness:
  "\<exists>w'. Run calm_env (Orchestrator_New calm_env sample_orc) (PipelineRunID 4) sample_config sample_world =
      Some (None, w') \<and> typed_db w'"
proof (rule sample_result)
  fix w'
  assume run: "Run calm_env (Orchestrator_New calm_env sample_orc) (PipelineRunID 4) sample_config
    sample_world = Some (None, w')"
  from run_keeps_types [OF this calm_typed] run show ?thesis by blast
qed

end
