(* ===== verification/Durations.thy ===== *)
theory Durations
  imports Complex_Main Prelude
begin

text \<open>
  \<open>time.Duration.Seconds\<close> and its conversion to a whole number. The result of \<open>Seconds\<close> is a
  64-bit floating-point number: the sum of the whole seconds and of the remaining nanoseconds
  divided by \<open>1e9\<close>, each operation rounded.
\<close>

section \<open>Rounding to 53 binary digits\<close>

text \<open>
  \<open>binade\<close> is the binary exponent of a number between \<open>2 ^ -30\<close> and \<open>2 ^ 35\<close>, which a positive
  duration in seconds always is, and \<open>round64\<close> rounds to the nearest number with 53 binary digits,
  to the even one of two.
\<close>

definition round_even :: "rat \<Rightarrow> int" where
  "round_even q = (let r = \<lfloor>q\<rfloor>; d = q - of_int r in
     if d < 1 / 2 then r else if d > 1 / 2 then r + 1 else if even r then r else r + 1)"

definition exponents :: "int list" where "exponents = [-30..34]"

definition binade :: "rat \<Rightarrow> int" where
  "binade x = (case List.find (\<lambda>e. x < 2 powi (e + 1)) exponents of Some e \<Rightarrow> e | None \<Rightarrow> 34)"

definition ulp64 :: "rat \<Rightarrow> rat" where
  "ulp64 x = 2 powi (binade x - 52)"

definition round64 :: "rat \<Rightarrow> rat" where
  "round64 x = of_int (round_even (x / ulp64 x)) * ulp64 x"

text \<open>\<open>d.Seconds()\<close> and \<open>int64(d.Seconds())\<close> of a positive number of nanoseconds.\<close>

definition Seconds :: "int \<Rightarrow> rat" where
  "Seconds d = round64 (of_int (d div 1000000000) + round64 (of_int (d mod 1000000000) / 1000000000))"

definition int64_Seconds :: "int \<Rightarrow> int" where
  "int64_Seconds d = \<lfloor>Seconds d\<rfloor>"

section \<open>How far rounding goes\<close>

lemma round_even_le: "q \<le> of_int m \<Longrightarrow> round_even q \<le> m"
proof -
  assume le: "q \<le> of_int m"
  show ?thesis
  proof (cases "q = of_int m")
    case True
    then show ?thesis by (simp add: round_even_def Let_def)
  next
    case False
    with le have "\<lfloor>q\<rfloor> < m" by (simp add: floor_less_iff)
    then show ?thesis by (simp add: round_even_def Let_def)
  qed
qed

lemma round_even_ge: "of_int m \<le> q \<Longrightarrow> m \<le> round_even q"
  using le_floor_iff [of m q] by (auto simp: round_even_def Let_def)

lemma ulp64_pos [simp]: "0 < ulp64 x"
  by (simp add: ulp64_def)

lemma round64_le: "x \<le> y \<Longrightarrow> y = of_int m * ulp64 x \<Longrightarrow> round64 x \<le> y"
  unfolding round64_def
  by (simp add: round_even_le pos_divide_le_eq)

lemma round64_ge: "y \<le> x \<Longrightarrow> y = of_int m * ulp64 x \<Longrightarrow> y \<le> round64 x"
  unfolding round64_def
  by (simp add: round_even_ge pos_le_divide_eq)

lemma binade_le:
  assumes "x < 2 powi (k + 1)" and "-30 \<le> k" and "k \<le> 34"
  shows "binade x \<le> k"
proof -
  have k: "k \<in> set exponents" using assms by (simp only: exponents_def set_upto atLeastAtMost_iff)
  then obtain e where e: "List.find (\<lambda>e. x < 2 powi (e + 1)) exponents = Some e"
    using assms(1) by (cases "List.find (\<lambda>e. x < 2 powi (e + 1)) exponents") (auto simp: find_None_iff)
  have "sorted (map (\<lambda>e. e) exponents)" by (simp only: exponents_def list.map_ident sorted_upto)
  from find_sorted [OF this e] k assms(1) show ?thesis by (simp add: binade_def e)
qed

text \<open>A multiple of a power of two above the spacing is a multiple of the spacing.\<close>

lemma ulp64_multiple:
  assumes "binade x - 52 \<le> j"
  shows "\<exists>m. of_int k * 2 powi j = of_int m * ulp64 x"
proof -
  have "(2 :: rat) powi j = 2 powi (j - (binade x - 52)) * 2 powi (binade x - 52)"
    by (simp flip: power_int_add)
  also have "(2 :: rat) powi (j - (binade x - 52)) = of_int (2 ^ nat (j - (binade x - 52)))"
    using assms by (simp add: power_int_def)
  finally have "of_int k * 2 powi j = of_int (k * 2 ^ nat (j - (binade x - 52))) * ulp64 x"
    by (simp add: ulp64_def)
  then show ?thesis by blast
qed

section \<open>Whole seconds\<close>

lemma fraction_bounds:
  fixes n :: int
  assumes "0 \<le> n" and "n < 1000000000"
  shows "0 \<le> round64 (of_int n / 1000000000)"
    and "round64 (of_int n / 1000000000) \<le> 1 - 1 / 2 ^ 30"
proof -
  let ?x = "of_int n / 1000000000 :: rat"
  show "0 \<le> round64 ?x" using assms by (intro round64_ge [where m = 0]) simp_all
  have "n \<le> 999999999" using assms by simp
  then have le: "?x \<le> 999999999 / 1000000000" by (simp add: divide_right_mono)
  then have "binade ?x \<le> -1" by (intro binade_le) simp_all
  then obtain m where "of_int (2 ^ 30 - 1) * 2 powi (-30) = of_int m * ulp64 ?x"
    using ulp64_multiple [of ?x "-30" "2 ^ 30 - 1"] by auto
  moreover have "of_int (2 ^ 30 - 1) * 2 powi (-30) = (1 - 1 / 2 ^ 30 :: rat)"
    by (simp add: power_int_minus field_simps)
  ultimately show "round64 ?x \<le> 1 - 1 / 2 ^ 30"
    using le by (intro round64_le [where m = m]) simp_all
qed

lemma Seconds_bounds:
  assumes "0 \<le> d" and "d < 2 ^ 63"
  shows "of_int (d div 1000000000) \<le> Seconds d" and "Seconds d \<le> of_int (d div 1000000000) + 1"
    and "d < 2 ^ 23 * 1000000000 \<Longrightarrow> Seconds d < of_int (d div 1000000000) + 1"
proof -
  let ?s = "d div 1000000000" and ?n = "d mod 1000000000"
  define f where "f = round64 (of_int ?n / 1000000000)"
  define x where "x = of_int ?s + f"
  have f: "0 \<le> f" "f \<le> 1 - 1 / 2 ^ 30" unfolding f_def by (intro fraction_bounds; simp)+
  have S: "Seconds d = round64 x" by (simp add: Seconds_def x_def f_def)
  have "?s < 2 ^ 34" using assms(2) by (simp add: div_less_iff_less_mult)
  then have "(of_int ?s :: rat) < of_int (2 ^ 34)" by (simp only: of_int_less_iff)
  then have x: "of_int ?s \<le> x" "x \<le> of_int ?s + (1 - 1 / 2 ^ 30)" "x < 2 powi 35"
    using f by (simp_all add: x_def)
  then have "binade x \<le> 34" by (intro binade_le) simp_all
  then have mult: "\<exists>m. of_int k = of_int m * ulp64 x" for k
    using ulp64_multiple [of x 0 k] by simp
  obtain m1 m2 where m: "of_int ?s = of_int m1 * ulp64 x" "of_int (?s + 1) = of_int m2 * ulp64 x"
    using mult by blast
  show "of_int ?s \<le> Seconds d" unfolding S by (rule round64_ge [OF x(1) m(1)])
  have "x \<le> of_int (?s + 1)" using x(2) by simp
  from round64_le [OF this m(2)] show "Seconds d \<le> of_int ?s + 1" unfolding S by simp
  assume "d < 2 ^ 23 * 1000000000"
  then have "?s < 2 ^ 23" by (simp add: div_less_iff_less_mult)
  then have "?s + 1 \<le> 2 ^ 23" by simp
  then have "(of_int (?s + 1) :: rat) \<le> of_int (2 ^ 23)" by (simp only: of_int_le_iff)
  then have "x < 2 powi 23" using x(2) by simp
  then have "binade x \<le> 22" by (intro binade_le) simp_all
  then obtain m3 where "of_int ((?s + 1) * 2 ^ 30 - 1) * 2 powi (-30) = of_int m3 * ulp64 x"
    using ulp64_multiple [of x "-30" "(?s + 1) * 2 ^ 30 - 1"] by auto
  moreover have "of_int ((?s + 1) * 2 ^ 30 - 1) * 2 powi (-30) = (of_int ?s + (1 - 1 / 2 ^ 30) :: rat)"
    by (simp add: power_int_minus field_simps)
  ultimately have "round64 x \<le> of_int ?s + (1 - 1 / 2 ^ 30)"
    using x(2) by (intro round64_le [where m = m3]) simp_all
  then show "Seconds d < of_int ?s + 1" unfolding S by simp
qed

text \<open>
  The whole seconds are those of the duration, except that a duration of more than \<open>2 ^ 23\<close> seconds
  (97 days) may be rounded up.
\<close>

lemma int64_Seconds_bounds:
  assumes "0 \<le> d" and "d < 2 ^ 63"
  shows "d div 1000000000 \<le> int64_Seconds d" and "int64_Seconds d \<le> d div 1000000000 + 1"
    and "d < 2 ^ 23 * 1000000000 \<Longrightarrow> int64_Seconds d = d div 1000000000"
proof -
  note b = Seconds_bounds [OF assms]
  show le: "d div 1000000000 \<le> int64_Seconds d" unfolding int64_Seconds_def using b(1) by (simp add: le_floor_iff)
  show "int64_Seconds d \<le> d div 1000000000 + 1" unfolding int64_Seconds_def using b(2) by (simp add: floor_le_iff)
  assume "d < 2 ^ 23 * 1000000000"
  then have "Seconds d < of_int (d div 1000000000 + 1)" using b(3) by simp
  then have "int64_Seconds d < d div 1000000000 + 1"
    unfolding int64_Seconds_def by (simp only: floor_less_iff)
  with le show "int64_Seconds d = d div 1000000000" by simp
qed

lemma Seconds_rounds_up: "int64_Seconds (2 ^ 24 * 1000000000 + 999999999) = 2 ^ 24 + 1"
  by code_simp

end
