(* ===== verification/Kubernetes.thy ===== *)
theory Kubernetes
  imports Buildinator Durations
begin

text \<open>
  \<open>internal/executor/kubernetes/executor.go\<close>: executions as Kubernetes Jobs. The API server
  behind the typed client is a parameter; the objects sent to it and returned by it are records
  with the fields the code writes or reads. \<open>kube_env\<close> puts the executor behind the interface that
  the orchestrator calls.
\<close>

section \<open>Objects of the API\<close>

datatype RestartPolicy = RestartPolicyNever | RestartPolicyOther string
datatype JobConditionType = JobComplete | JobFailed | JobConditionOther string
datatype ConditionStatus = ConditionTrue | ConditionFalse | ConditionUnknown
datatype DeletionPropagation = DeletePropagationForeground | DeletePropagationOther string

record JobCondition =
  Condition_Type :: JobConditionType
  Condition_Status :: ConditionStatus

record Container =
  Container_Name :: string
  Container_Image :: string
  Container_Command :: "string list"
  Container_Env :: "(string \<times> string) list"

record JobSpec =
  BackoffLimit :: "32 word option"
  ActiveDeadlineSeconds :: "64 word option"
  Pod_RestartPolicy :: RestartPolicy
  Pod_Containers :: "Container list"

record JobStatus =
  StartTime :: "time option"
  CompletionTime :: "time option"
  Active :: "32 word"
  Conditions :: "JobCondition list"

record batch_Job =
  Meta_Name :: string
  Meta_Namespace :: string
  Job_Spec :: JobSpec
  KJob_Status :: JobStatus

text \<open>
  The client: what the server answers, at each moment, to \<open>Create\<close>, \<open>Get\<close> and \<open>Delete\<close> in a
  namespace.
\<close>

record kube_client =
  Jobs_Create :: "nat \<Rightarrow> string \<Rightarrow> batch_Job \<Rightarrow> error + batch_Job"
  Jobs_Get :: "nat \<Rightarrow> string \<Rightarrow> string \<Rightarrow> error + batch_Job"
  Jobs_Delete :: "nat \<Rightarrow> string \<Rightarrow> string \<Rightarrow> DeletionPropagation \<Rightarrow> error option"

section \<open>The code\<close>

record KubeExecutor =
  kube_client :: kube_client
  kube_namespace :: string

definition Kubernetes_New :: "kube_client \<Rightarrow> string \<Rightarrow> KubeExecutor" where
  "Kubernetes_New client namespace = \<lparr>kube_client = client, kube_namespace = namespace\<rparr>"

definition activeDeadline :: "64 word \<Rightarrow> 64 word option" where
  "activeDeadline timeout =
    (if 0 < sint timeout then Some (word_of_int (int64_Seconds (sint timeout))) else None)"

text \<open>
  The object that \<open>Submit\<close> creates; \<open>n\<close> is the moment of the call, at which \<open>uuid.New()\<close> is asked
  for the suffix of the name.
\<close>

definition submit_job :: "env \<Rightarrow> KubeExecutor \<Rightarrow> nat \<Rightarrow> ExecutionSpec \<Rightarrow> batch_Job" where
  "submit_job E e n spec = \<lparr>Meta_Name = ''shipinator-'' @ uuid_str E (uuid_new E n),
     Meta_Namespace = kube_namespace e,
     Job_Spec = \<lparr>BackoffLimit = Some 0, ActiveDeadlineSeconds = activeDeadline (Spec_Timeout spec),
       Pod_RestartPolicy = RestartPolicyNever,
       Pod_Containers = [\<lparr>Container_Name = ''main'', Container_Image = Spec_Image spec,
         Container_Command = Spec_Command spec, Container_Env = Spec_Env spec\<rparr>]\<rparr>,
     KJob_Status = \<lparr>StartTime = None, CompletionTime = None, Active = 0, Conditions = []\<rparr>\<rparr>"

definition Kubernetes_Submit :: "env \<Rightarrow> KubeExecutor \<Rightarrow> nat \<Rightarrow> ExecutionSpec \<Rightarrow>
    error + ExecutionHandle" where
  "Kubernetes_Submit E e n spec =
    (case Jobs_Create (kube_client e) n (kube_namespace e) (submit_job E e n spec) of
       Inl err \<Rightarrow> Inl (Wrapf ''create job: %w'' [] err)
     | Inr created \<Rightarrow> Inr (ExecutionHandle (Meta_Name created)))"

text \<open>The loop over the conditions: \<open>st\<close> is the status filled in so far.\<close>

fun scan_conditions :: "time option \<Rightarrow> JobCondition list \<Rightarrow> ExecutionStatus \<Rightarrow> ExecutionStatus" where
  "scan_conditions completion [] st = st"
| "scan_conditions completion (c # cs) st =
    (if Condition_Type c = JobComplete \<and> Condition_Status c = ConditionTrue
     then st\<lparr>Status_Phase := ExecutionPhaseSucceeded, Status_FinishedAt := completion\<rparr>
     else if Condition_Type c = JobFailed \<and> Condition_Status c = ConditionTrue
     then st\<lparr>Status_Phase := ExecutionPhaseFailed, Status_FinishedAt := completion\<rparr>
     else scan_conditions completion cs st)"

definition jobToStatus :: "batch_Job \<Rightarrow> ExecutionStatus" where
  "jobToStatus job =
    (let st = \<lparr>Status_Phase = ExecutionPhasePending, Status_StartedAt = StartTime (KJob_Status job),
         Status_FinishedAt = None, Status_ExitCode = None, Status_Message = ''''\<rparr> in
     if 0 < sint (Active (KJob_Status job)) then st\<lparr>Status_Phase := ExecutionPhaseRunning\<rparr>
     else scan_conditions (CompletionTime (KJob_Status job)) (Conditions (KJob_Status job)) st)"

definition Kubernetes_Status :: "KubeExecutor \<Rightarrow> nat \<Rightarrow> ExecutionHandle \<Rightarrow> error + ExecutionStatus" where
  "Kubernetes_Status e n h =
    (case Jobs_Get (kube_client e) n (kube_namespace e) (Handle_ID h) of
       Inl err \<Rightarrow> Inl (Wrapf ''get job %q: %w'' [AStr (Handle_ID h)] err)
     | Inr job \<Rightarrow> Inr (jobToStatus job))"

definition Kubernetes_Cancel :: "KubeExecutor \<Rightarrow> nat \<Rightarrow> ExecutionHandle \<Rightarrow> error option" where
  "Kubernetes_Cancel e n h =
    (case Jobs_Delete (kube_client e) n (kube_namespace e) (Handle_ID h) DeletePropagationForeground of
       Some err \<Rightarrow> Some (Wrapf ''delete job %q: %w'' [AStr (Handle_ID h)] err)
     | None \<Rightarrow> None)"

text \<open>The executor behind the interface of the orchestrator.\<close>

definition kube_env :: "KubeExecutor \<Rightarrow> env \<Rightarrow> env" where
  "kube_env e E = E\<lparr>ex_submit := Kubernetes_Submit E e, ex_status := Kubernetes_Status e,
     ex_cancel := Kubernetes_Cancel e\<rparr>"

section \<open>What a Job says of an execution\<close>

text \<open>The conditions that decide, and the phase each stands for.\<close>

definition verdict_of :: "JobCondition \<Rightarrow> ExecutionPhase option" where
  "verdict_of c = (if Condition_Status c \<noteq> ConditionTrue then None
     else case Condition_Type c of
         JobComplete \<Rightarrow> Some ExecutionPhaseSucceeded
       | JobFailed \<Rightarrow> Some ExecutionPhaseFailed
       | JobConditionOther _ \<Rightarrow> None)"

lemma scan_conditions_eq:
  "scan_conditions completion cs st = (case List.map_filter verdict_of cs of
     [] \<Rightarrow> st
   | p # _ \<Rightarrow> st\<lparr>Status_Phase := p, Status_FinishedAt := completion\<rparr>)"
  by (induction cs)
    (auto simp: verdict_of_def map_filter_simps split: JobConditionType.splits list.splits)

lemma jobToStatus_eq:
  "jobToStatus job = \<lparr>Status_Phase = (if 0 < sint (Active (KJob_Status job)) then ExecutionPhaseRunning
       else case List.map_filter verdict_of (Conditions (KJob_Status job)) of
         [] \<Rightarrow> ExecutionPhasePending | p # _ \<Rightarrow> p),
     Status_StartedAt = StartTime (KJob_Status job),
     Status_FinishedAt = (if 0 < sint (Active (KJob_Status job)) \<or>
         List.map_filter verdict_of (Conditions (KJob_Status job)) = [] then None
       else CompletionTime (KJob_Status job)),
     Status_ExitCode = None, Status_Message = ''''\<rparr>"
  by (simp add: jobToStatus_def scan_conditions_eq Let_def split: list.split)

lemma verdict_of_range: "p \<in> set (List.map_filter verdict_of cs) \<Longrightarrow>
    p = ExecutionPhaseSucceeded \<or> p = ExecutionPhaseFailed"
  by (auto simp: List.map_filter_def verdict_of_def split: if_splits JobConditionType.splits)

lemma jobToStatus_phase:
  "Status_Phase (jobToStatus job) \<in>
     {ExecutionPhasePending, ExecutionPhaseRunning, ExecutionPhaseSucceeded, ExecutionPhaseFailed}"
  using verdict_of_range [of _ "Conditions (KJob_Status job)"]
  by (auto simp: jobToStatus_eq split: list.split)

text \<open>
  C25: the status read off a Job. Active pods make it running whatever the conditions say;
  otherwise the first condition that is true and is Complete or Failed decides, and a Job with none
  is pending. It is terminal exactly when such a condition decides, and never canceled. The start
  time is always that of the Job; the end time is the completion time of the Job when the status is
  terminal, and not given otherwise. An exit code and a message are never given.
\<close>

theorem job_phase:
  shows "Status_Phase (jobToStatus job) =
      (if 0 < sint (Active (KJob_Status job)) then ExecutionPhaseRunning
       else case List.map_filter verdict_of (Conditions (KJob_Status job)) of
         [] \<Rightarrow> ExecutionPhasePending | p # _ \<Rightarrow> p) \<and>
    (ExecutionStatus_IsTerminal (jobToStatus job) \<longleftrightarrow> sint (Active (KJob_Status job)) \<le> 0 \<and>
       (\<exists>c\<in>set (Conditions (KJob_Status job)). Condition_Status c = ConditionTrue \<and>
          (Condition_Type c = JobComplete \<or> Condition_Type c = JobFailed))) \<and>
    Status_Phase (jobToStatus job) \<noteq> ExecutionPhaseCanceled \<and>
    Status_StartedAt (jobToStatus job) = StartTime (KJob_Status job) \<and>
    Status_FinishedAt (jobToStatus job) =
      (if ExecutionStatus_IsTerminal (jobToStatus job) then CompletionTime (KJob_Status job) else None) \<and>
    Status_ExitCode (jobToStatus job) = None \<and> Status_Message (jobToStatus job) = ''''"
proof -
  let ?cs = "Conditions (KJob_Status job)" and ?a = "0 < sint (Active (KJob_Status job))"
  have none: "List.map_filter verdict_of ?cs = [] \<longleftrightarrow> \<not> (\<exists>c\<in>set ?cs. Condition_Status c = ConditionTrue \<and>
      (Condition_Type c = JobComplete \<or> Condition_Type c = JobFailed))"
    by (auto simp: List.map_filter_def filter_empty_conv verdict_of_def split: JobConditionType.splits)
  have decided: "p = ExecutionPhaseSucceeded \<or> p = ExecutionPhaseFailed"
    if "List.map_filter verdict_of ?cs = p # ps" for p ps
    using that by (intro verdict_of_range [of p ?cs]) simp
  have terminal: "ExecutionStatus_IsTerminal (jobToStatus job) \<longleftrightarrow>
      \<not> ?a \<and> List.map_filter verdict_of ?cs \<noteq> []"
    by (auto simp: IsTerminal_cases jobToStatus_eq state_defs split: list.split dest!: decided)
  show ?thesis
  proof (intro conjI)
    show "Status_Phase (jobToStatus job) \<noteq> ExecutionPhaseCanceled"
      using jobToStatus_phase [of job] by (auto simp: state_defs)
    show "Status_FinishedAt (jobToStatus job) =
        (if ExecutionStatus_IsTerminal (jobToStatus job) then CompletionTime (KJob_Status job) else None)"
      unfolding terminal by (simp add: jobToStatus_eq)
    show "ExecutionStatus_IsTerminal (jobToStatus job) \<longleftrightarrow> sint (Active (KJob_Status job)) \<le> 0 \<and>
       (\<exists>c\<in>set ?cs. Condition_Status c = ConditionTrue \<and>
          (Condition_Type c = JobComplete \<or> Condition_Type c = JobFailed))"
      unfolding terminal none by (simp add: not_less)
  qed (simp_all add: jobToStatus_eq)
qed

definition sample_job_status :: batch_Job where
  "sample_job_status = \<lparr>Meta_Name = ''shipinator-1'', Meta_Namespace = ''ci'',
     Job_Spec = \<lparr>BackoffLimit = Some 0, ActiveDeadlineSeconds = None,
       Pod_RestartPolicy = RestartPolicyNever, Pod_Containers = []\<rparr>,
     KJob_Status = \<lparr>StartTime = Some 1, CompletionTime = Some 2, Active = 0,
       Conditions = [\<lparr>Condition_Type = JobConditionOther ''SuccessCriteriaMet'', Condition_Status = ConditionTrue\<rparr>,
         \<lparr>Condition_Type = JobComplete, Condition_Status = ConditionTrue\<rparr>]\<rparr>\<rparr>"

theorem job_phase_witness:
  "ExecutionStatus_IsTerminal (jobToStatus sample_job_status) \<and>
   Status_StartedAt (jobToStatus sample_job_status) = Some 1 \<and>
   Status_FinishedAt (jobToStatus sample_job_status) = Some 2"
  using job_phase [of sample_job_status] by (simp add: sample_job_status_def)

section \<open>What is submitted\<close>

lemma sint_64: "sint (t :: 64 word) < 2 ^ 63"
  using sint_lt [of t] by simp

lemma sint_word_of_int: "- (2 ^ 63) \<le> k \<Longrightarrow> k < 2 ^ 63 \<Longrightarrow> sint (word_of_int k :: 64 word) = k"
  by transfer (simp add: signed_take_bit_int_eq_self)

text \<open>
  C26: what an accepted submission has asked the server for: a Job in the namespace of the executor
  under a name of its own, with one container \<open>main\<close> that has the image, the command and the whole
  environment of the specification and is never restarted; and no deadline when the timeout is not positive, otherwise the whole seconds of the timeout (exact
  below 97 days, and at most one more above). A positive timeout below a second asks for a
  deadline of zero.
\<close>

theorem submit_deadline:
  assumes "Kubernetes_Submit E e n spec = Inr h"
  shows "\<exists>job created. Jobs_Create (kube_client e) n (kube_namespace e) job = Inr created \<and>
    Handle_ID h = Meta_Name created \<and> Meta_Name job = ''shipinator-'' @ uuid_str E (uuid_new E n) \<and>
    Meta_Namespace job = kube_namespace e \<and> BackoffLimit (Job_Spec job) = Some 0 \<and> Pod_RestartPolicy (Job_Spec job) = RestartPolicyNever \<and>
    (\<exists>c. Pod_Containers (Job_Spec job) = [c] \<and> Container_Name c = ''main'' \<and>
       Container_Image c = Spec_Image spec \<and> Container_Command c = Spec_Command spec \<and>
       Container_Env c = Spec_Env spec) \<and>
    (ActiveDeadlineSeconds (Job_Spec job) = None \<longleftrightarrow> sint (Spec_Timeout spec) \<le> 0) \<and>
    (\<forall>d. ActiveDeadlineSeconds (Job_Spec job) = Some d \<longrightarrow>
       sint (Spec_Timeout spec) div 1000000000 \<le> sint d \<and>
       sint d \<le> sint (Spec_Timeout spec) div 1000000000 + 1 \<and>
       (sint (Spec_Timeout spec) < 2 ^ 23 * 1000000000 \<longrightarrow>
          sint d = sint (Spec_Timeout spec) div 1000000000))"
proof -
  let ?t = "sint (Spec_Timeout spec)" and ?job = "submit_job E e n spec"
  obtain created where c: "Jobs_Create (kube_client e) n (kube_namespace e) ?job = Inr created"
    "h = ExecutionHandle (Meta_Name created)"
    using assms by (auto simp: Kubernetes_Submit_def split: sum.splits)
  have deadline: "?t div 1000000000 \<le> sint d \<and> sint d \<le> ?t div 1000000000 + 1 \<and>
      (?t < 2 ^ 23 * 1000000000 \<longrightarrow> sint d = ?t div 1000000000)"
    if "activeDeadline (Spec_Timeout spec) = Some d" for d
  proof -
    from that have t: "0 \<le> ?t" and d: "d = word_of_int (int64_Seconds ?t)"
      by (simp_all add: activeDeadline_def split: if_splits)
    note b = int64_Seconds_bounds [OF t sint_64]
    have "?t div 1000000000 < 2 ^ 62" using sint_64 [of "Spec_Timeout spec"] by simp
    then have "- (2 ^ 63) \<le> int64_Seconds ?t" "int64_Seconds ?t < 2 ^ 63"
      using b(1,2) t pos_imp_zdiv_nonneg_iff [of 1000000000 ?t] by simp_all
    then have "sint d = int64_Seconds ?t" unfolding d by (rule sint_word_of_int)
    with b show ?thesis by simp
  qed
  have D: "ActiveDeadlineSeconds (Job_Spec ?job) = activeDeadline (Spec_Timeout spec)"
    by (simp add: submit_job_def)
  show ?thesis
  proof (rule exI [of _ ?job], rule exI [of _ created], intro conjI)
    show "Jobs_Create (kube_client e) n (kube_namespace e) ?job = Inr created" by (rule c(1))
    show "(ActiveDeadlineSeconds (Job_Spec ?job) = None) \<longleftrightarrow> ?t \<le> 0"
      unfolding D by (simp add: activeDeadline_def not_less)
    show "\<forall>d. ActiveDeadlineSeconds (Job_Spec ?job) = Some d \<longrightarrow>
        ?t div 1000000000 \<le> sint d \<and> sint d \<le> ?t div 1000000000 + 1 \<and>
        (?t < 2 ^ 23 * 1000000000 \<longrightarrow> sint d = ?t div 1000000000)"
      unfolding D using deadline by blast
  qed (simp_all add: c(2) submit_job_def)
qed

definition sample_kube :: KubeExecutor where
  "sample_kube = Kubernetes_New \<lparr>Jobs_Create = (\<lambda>_ _ job. Inr job),
     Jobs_Get = (\<lambda>_ _ name. Inr (sample_job_status\<lparr>Meta_Name := name\<rparr>)),
     Jobs_Delete = (\<lambda>_ _ _ _. None)\<rparr> ''ci''"

theorem submit_deadline_witness:
  "\<exists>h (job :: batch_Job) d. Kubernetes_Submit calm_env sample_kube 3 (sample_spec\<lparr>Spec_Timeout := 500000000,
       Spec_Env := [(''FOO'', ''bar'')]\<rparr>) = Inr h \<and> Handle_ID h = Meta_Name job \<and>
     map Container_Env (Pod_Containers (Job_Spec job)) = [[(''FOO'', ''bar'')]] \<and>
     ActiveDeadlineSeconds (Job_Spec job) = Some d \<and> sint d = 0"
proof -
  let ?spec = "sample_spec\<lparr>Spec_Timeout := 500000000, Spec_Env := [(''FOO'', ''bar'')]\<rparr>"
  obtain h where h: "Kubernetes_Submit calm_env sample_kube 3 ?spec = Inr h"
    by (simp add: Kubernetes_Submit_def sample_kube_def Kubernetes_New_def)
  from submit_deadline [OF h] obtain job created where
    j: "Jobs_Create (kube_client sample_kube) 3 (kube_namespace sample_kube) job = Inr created"
      "Handle_ID h = Meta_Name created" "map Container_Env (Pod_Containers (Job_Spec job)) = [Spec_Env ?spec]"
      "(ActiveDeadlineSeconds (Job_Spec job) = None) \<longleftrightarrow> sint (Spec_Timeout ?spec) \<le> 0"
      "\<forall>d. ActiveDeadlineSeconds (Job_Spec job) = Some d \<longrightarrow>
         sint (Spec_Timeout ?spec) < 2 ^ 23 * 1000000000 \<longrightarrow> sint d = sint (Spec_Timeout ?spec) div 1000000000"
    by fastforce
  have "created = job" using j(1) by (simp add: sample_kube_def Kubernetes_New_def)
  moreover have t: "sint (Spec_Timeout ?spec) = 500000000" by simp
  obtain d where "ActiveDeadlineSeconds (Job_Spec job) = Some d" using j(4) unfolding t by fastforce
  moreover from this have "sint d = 0" using j(5) unfolding t by simp
  ultimately show ?thesis using h j(2,3)
    by (intro exI [of _ h] exI [of _ job] exI [of _ d]) simp
qed

text \<open>
  The outputs that a build step declares never reach the server: two specifications that
  differ only in their artifacts are submitted as the same Job, with the same answer. Nothing in
  the repository copies an output from the container to the path that is registered for it.
\<close>

theorem submit_ignores_artifacts:
  "Kubernetes_Submit E e n (spec\<lparr>Spec_Artifacts := as\<rparr>) = Kubernetes_Submit E e n spec \<and>
   (\<forall>out. Kubernetes_Submit E e n (build_spec b (s\<lparr>BuildStep_Outputs := out\<rparr>)) =
     Kubernetes_Submit E e n (build_spec b s))"
  by (simp add: Kubernetes_Submit_def submit_job_def build_spec_def)

section \<open>Polling a Job\<close>

lemma kube_env_sel [simp]:
  "ex_status (kube_env e E) = Kubernetes_Status e" "ctx_error (kube_env e E) = ctx_error E"
  "ctx_done (kube_env e E) n = ctx_done E n"
  by (simp_all add: kube_env_def ctx_done_def)

text \<open>
  C27: a poll against Kubernetes ends with the context's error, with the phase failed, or without
  an error; the phase canceled, which the orchestrator provides for, is never reported.
\<close>

theorem kube_poll_outcome:
  assumes "poll (kube_env e E) execID h w = Some (r, w')"
  shows "r = None \<or> (r = Some (ctx_error E) \<and> (\<exists>n. ctx_done E n)) \<or>
    r = Some (Errorf ''execution %s: phase=%s'' [AStr (Handle_ID h), AStr ExecutionPhaseFailed])"
  using poll_outcome [OF assms]
proof
  assume "gave_up (kube_env e E) execID h w r w'"
  then show ?thesis by (auto simp: gave_up_def)
next
  assume "got_verdict (kube_env e E) execID h w r w'"
  then obtain n st where st: "Kubernetes_Status e n h = Inr st" "ExecutionStatus_IsTerminal st"
    "r = phase_error h st"
    by (auto simp: got_verdict_def)
  from st(1) obtain job where "st = jobToStatus job"
    by (auto simp: Kubernetes_Status_def split: sum.splits)
  with jobToStatus_phase [of job] st(2) have
    "Status_Phase st = ExecutionPhaseSucceeded \<or> Status_Phase st = ExecutionPhaseFailed"
    by (auto simp: IsTerminal_cases state_defs)
  with st(3) show ?thesis by (auto simp: phase_error_def)
qed

theorem kube_poll_outcome_witness:
  "\<exists>r w'. poll (kube_env sample_kube calm_env) (ExecutionID 9) (ExecutionHandle ''shipinator-1'') sample_world =
     Some (r, w') \<and> (r = None \<or> r = Some (Errorf ''execution %s: phase=%s''
       [AStr ''shipinator-1'', AStr ExecutionPhaseFailed]))"
proof -
  have "map_option fst (poll (kube_env sample_kube calm_env) (ExecutionID 9)
      (ExecutionHandle ''shipinator-1'') sample_world) \<noteq> None"
    by code_simp
  then obtain r w' where p: "poll (kube_env sample_kube calm_env) (ExecutionID 9)
      (ExecutionHandle ''shipinator-1'') sample_world = Some (r, w')" by auto
  from kube_poll_outcome [OF p] p show ?thesis by auto
qed

text \<open>
  C28: a poll has no limit on errors. When the Job of an execution is gone, so that every \<open>Get\<close>
  fails from some moment on, and the context is never done, the poll never returns, and neither
  does the run above it.
\<close>

theorem lost_job_hangs:
  assumes "\<forall>n\<ge>tick w. \<exists>err. Jobs_Get (kube_client e) n (kube_namespace e) (Handle_ID h) = Inl err"
    and "\<forall>n. \<not> ctx_done E n"
  shows "poll (kube_env e E) execID h w = None"
proof (cases "poll (kube_env e E) execID h w")
  case (Some x)
  obtain r w' where x: "x = (r, w')" by (cases x)
  have "\<exists>err. Kubernetes_Status e n h = Inl err" if "tick w \<le> n" for n
    using assms(1) that by (auto simp: Kubernetes_Status_def split: sum.split)
  with poll_outcome [OF Some [unfolded x]] assms(2) show ?thesis
    by (fastforce simp: gave_up_def got_verdict_def)
qed

definition empty_kube :: KubeExecutor where
  "empty_kube = Kubernetes_New \<lparr>Jobs_Create = (\<lambda>_ _ job. Inr job),
     Jobs_Get = (\<lambda>_ _ _. Inl (External ''not found'')), Jobs_Delete = (\<lambda>_ _ _ _. None)\<rparr> ''ci''"

theorem lost_job_hangs_witness:
  "poll (kube_env empty_kube calm_env) (ExecutionID 9) (ExecutionHandle ''shipinator-1'') sample_world = None"
  by (rule lost_job_hangs) (simp_all add: empty_kube_def Kubernetes_New_def)

end
