(* ===== verification/KubeRuns.thy ===== *)
theory KubeRuns
  imports RunTypes Kubernetes
begin

text \<open>
  The Kubernetes executor reports phases of the interface, so runs against it keep the types.
\<close>

lemma kube_typed: "typed_executor (kube_env e E)"
  using jobToStatus_phase
  by (fastforce simp: typed_executor_def Kubernetes_Status_def phases_def split: sum.splits)

lemma kube_run_keeps_types:
  assumes "Run (kube_env e E) (Orchestrator_New (kube_env e E) oc) runID cfg w = Some (r, w')"
    and "typed_db w"
  shows "typed_db w'"
proof -
  have "(keeps_types (kube_env e E))\<^sup>*\<^sup>* w w'" by (rule typed_client.runs_steps [OF typed_client.Run_runs [OF assms(1)] TrueI])
  then show ?thesis
    by (induction rule: rtranclp_induct) (use assms(2) kube_typed in \<open>auto simp: keeps_types_def\<close>)
qed

end
