(* ===== verification/TestPlan.thy ===== *)
theory TestPlan
  imports Testinator Samples
begin

text \<open>
  What the test stage does, in terms of the configuration alone: the row that each step of the
  list is given, and what has been done when the stage returns.
\<close>

section \<open>The row of each step\<close>

text \<open>The index at which the run of parallel steps that ends before index \<open>i\<close> begins.\<close>

definition batch_start :: "TestStep list \<Rightarrow> nat \<Rightarrow> nat" where
  "batch_start steps i = i - length (takeWhile TestStep_Parallel (rev (take i steps)))"

definition planned_row :: "JobID \<Rightarrow> nat \<Rightarrow> TestStep list \<Rightarrow> nat \<Rightarrow> step_ident" where
  "planned_row jobID n steps i = (jobID, TestStep_Name (steps ! i), Some (int (n + i)),
     if TestStep_Parallel (steps ! i) then Some (group_name (n + batch_start steps i)) else None)"

lemma batch_start_0 [simp]: "batch_start steps 0 = 0"
  by (simp add: batch_start_def)

lemma batch_start_batch:
  assumes "\<forall>s\<in>set bs. TestStep_Parallel s" and "i < length bs"
  shows "batch_start (bs @ ss) i = 0"
proof -
  have "\<forall>s\<in>set (take i bs). TestStep_Parallel s" using assms(1) by (auto dest: in_set_takeD)
  then have "takeWhile TestStep_Parallel (rev (take i bs)) = rev (take i bs)"
    by (simp only: takeWhile_eq_all_conv set_rev)
  then have "length (takeWhile TestStep_Parallel (rev (take i bs))) = length (take i bs)"
    by (metis length_rev)
  with assms(2) show ?thesis by (simp add: batch_start_def)
qed

lemma takeWhile_append_stop: "x \<in> set xs \<Longrightarrow> \<not> P x \<Longrightarrow> takeWhile P (xs @ ys) = takeWhile P xs"
  by (induction xs) auto

text \<open>After a step that is not parallel, what came before it does not matter.\<close>

lemma batch_start_skip:
  assumes "\<not> TestStep_Parallel s" and "0 < i"
  shows "batch_start (bs @ s # ss) (length bs + i) = length bs + batch_start (s # ss) i"
proof -
  have "s \<in> set (rev (take i (s # ss)))" using assms(2) by (cases i) simp_all
  from takeWhile_append_stop [where P = TestStep_Parallel, OF this assms(1)] have
    "takeWhile TestStep_Parallel (rev (take (length bs + i) (bs @ s # ss))) =
       takeWhile TestStep_Parallel (rev (take i (s # ss)))" by simp
  moreover have "length (takeWhile TestStep_Parallel (rev (take i (s # ss)))) \<le> i"
    by (rule order_trans [OF length_takeWhile_le]) simp
  ultimately show ?thesis by (simp add: batch_start_def)
qed

lemma planned_skip:
  assumes "\<not> TestStep_Parallel s"
  shows "planned_row jobID n (bs @ s # ss) (length bs + i) = planned_row jobID (n + length bs) (s # ss) i"
proof (cases i)
  case 0
  with assms show ?thesis by (simp add: planned_row_def nth_append)
next
  case (Suc k)
  then show ?thesis
    using batch_start_skip [OF assms, of "Suc k" bs ss] by (simp add: planned_row_def nth_append add.assoc)
qed

lemma planned_append:
  assumes "ss = [] \<or> \<not> TestStep_Parallel (hd ss)"
  shows "map (planned_row jobID n (bs @ ss)) [0..<length (bs @ ss)] =
    map (planned_row jobID n (bs @ ss)) [0..<length bs] @
    map (planned_row jobID (n + length bs) ss) [0..<length ss]"
proof -
  have "map (planned_row jobID n (bs @ ss)) (map (\<lambda>i. length bs + i) [0..<length ss]) =
      map (planned_row jobID (n + length bs) ss) [0..<length ss]"
    using assms by (cases ss) (auto simp: planned_skip simp del: upt_Suc)
  moreover have "[length bs..<length bs + length ss] = map (\<lambda>i. length bs + i) [0..<length ss]"
    using map_add_upt [of "length bs" "length ss"] by (simp only: add.commute)
  moreover have "[0..<length (bs @ ss)] = [0..<length bs] @ [length bs..<length bs + length ss]"
    using upt_add_eq_append [of 0 "length bs" "length ss"] by simp
  ultimately show ?thesis by (simp del: map_map)
qed

lemma planned_Suc:
  assumes "\<not> TestStep_Parallel s"
  shows "planned_row jobID n (s # ss) (Suc i) = planned_row jobID (Suc n) ss i"
proof -
  have "length (takeWhile TestStep_Parallel (rev (take i ss))) \<le> i"
    by (rule order_trans [OF length_takeWhile_le]) simp
  then have "batch_start (s # ss) (Suc i) = Suc (batch_start ss i)"
    using assms by (simp add: batch_start_def takeWhile_tail)
  then show ?thesis by (simp add: planned_row_def)
qed

lemma rows_planned:
  "concat (group_rows jobID n (test_groups steps)) = map (planned_row jobID n steps) [0..<length steps]"
proof (induction "length steps" arbitrary: steps n rule: less_induct)
  case less
  show ?case
  proof (cases steps)
    case Nil
    then show ?thesis by simp
  next
    case (Cons s ss)
    define bs where "bs = (if TestStep_Parallel s then takeWhile TestStep_Parallel (s # ss) else [s])"
    define rest where "rest = (if TestStep_Parallel s then dropWhile TestStep_Parallel (s # ss) else ss)"
    have split: "steps = bs @ rest" "bs \<noteq> []" by (simp_all add: Cons bs_def rest_def)
    have groups: "test_groups steps = bs # test_groups rest"
      by (simp add: Cons bs_def rest_def test_groups.simps(2))
    show ?thesis
    proof (cases "TestStep_Parallel s")
      case True
      have all: "\<forall>s\<in>set bs. TestStep_Parallel s" using True by (auto simp: bs_def dest: set_takeWhileD)
      have hd: "rest = [] \<or> \<not> TestStep_Parallel (hd rest)"
        using True hd_dropWhile [of TestStep_Parallel "s # ss"] by (auto simp: rest_def)
      have "map (test_row jobID n) (List.enumerate n bs) = map (planned_row jobID n steps) [0..<length bs]"
        by (rule nth_equalityI)
          (use all batch_start_batch [of bs _ rest] in \<open>auto simp: split test_row_def planned_row_def
            nth_enumerate_eq nth_append\<close>)
      moreover have "concat (group_rows jobID (n + length bs) (test_groups rest)) =
          map (planned_row jobID (n + length bs) rest) [0..<length rest]"
        using split by (intro less.hyps) simp
      ultimately show ?thesis
        using planned_append [OF hd, of jobID n bs] by (simp only: groups [unfolded split(1)] group_rows.simps concat.simps split(1))
    next
      case False
      have "map (planned_row jobID n steps) [0..<length steps] =
          planned_row jobID n steps 0 # map (\<lambda>i. planned_row jobID n steps (Suc i)) [0..<length ss]"
        by (simp add: Cons map_upt_Suc del: upt_Suc)
      also have "\<dots> = planned_row jobID n steps 0 # map (planned_row jobID (Suc n) ss) [0..<length ss]"
        using False by (simp add: Cons planned_Suc)
      also have "\<dots> = planned_row jobID n steps 0 # concat (group_rows jobID (Suc n) (test_groups ss))"
        using less.hyps [of ss "Suc n"] by (simp add: Cons)
      finally show ?thesis
        using False by (simp add: Cons orchestrator_threads.test_groups_sequential planned_row_def test_row_def)
    qed
  qed
qed

section \<open>The stage\<close>

lemma concat_groups: "concat (test_groups steps) = steps"
proof (induction steps rule: test_groups.induct)
  case (2 s ss)
  then show ?case by (auto simp: test_groups.simps(2))
qed simp

text \<open>
  C15: the rows that a test stage plans, and so all the rows that it has added when it returns
  without an error: step \<open>i\<close> of the list has the order \<open>i\<close>, and the parallel group of a parallel
  step is named by the index at which its run of adjacent parallel steps begins.
\<close>

theorem test_rows:
  assumes "Testinator_Run E (Testinator_New (step_adv E) step_res spawn img) jobID steps w = Some (r, w')"
    and "steps_ready w"
  shows "\<exists>new. map step_ident (job_steps w') = map step_ident (job_steps w) @ new \<and>
    mset new \<subseteq># mset (map (planned_row jobID 0 steps) [0..<length steps]) \<and>
    (r = None \<longrightarrow> mset new = mset (map (planned_row jobID 0 steps) [0..<length steps]))"
proof -
  obtain new where "map step_ident (job_steps w') = map step_ident (job_steps w) @ new"
    "groups_done r (group_rows jobID 0 (test_groups steps)) new"
    using orchestrator_threads.test_steps_tested [OF _ runs_on_New assms(2)] assms(1)
    unfolding Testinator_Run_def orchestrator_threads.tested_def by blast
  with groups_done_mset [OF this(2)] show ?thesis by (auto simp: rows_planned)
qed

text \<open>
  C14: what a test stage submits. The specifications the executor has accepted, in the order it
  accepted them, go through the groups of the list one after the other: a group is complete before
  the next begins, within a group any order is possible, and a stage that returns an error has
  submitted whole groups and a part of the one that failed. Each step is submitted at most once.
\<close>

theorem test_submissions:
  assumes "Testinator_Run E (Testinator_New (step_adv E) step_res spawn img) jobID steps w = Some (r, w')"
    and "steps_ready w"
  shows "\<exists>sub. submissions (log w') = submissions (log w) @ sub \<and>
    groups_done r (map (map (specForStep (Testinator_New (step_adv E) step_res spawn img)))
      (test_groups steps)) sub \<and> concat (test_groups steps) = steps"
  using orchestrator_threads.test_steps_tested [OF _ runs_on_New assms(2)] assms(1)
  unfolding Testinator_Run_def orchestrator_threads.tested_def concat_groups by blast

lemma batch_start_le: "batch_start steps i \<le> i"
  by (simp add: batch_start_def)

lemma batch_start_Suc:
  "i < length steps \<Longrightarrow> batch_start steps (Suc i) =
     (if TestStep_Parallel (steps ! i) then batch_start steps i else Suc i)"
  by (simp add: batch_start_def take_Suc_conv_app_nth Suc_diff_le)

text \<open>
  Two parallel test steps carry the same group name exactly when all the steps between them
  are parallel too, so groups never mix steps of different runs.
\<close>

theorem same_group_iff:
  assumes "i \<le> j" and "j < length steps" and "TestStep_Parallel (steps ! i)" and "TestStep_Parallel (steps ! j)"
  shows "group_name (batch_start steps i) = group_name (batch_start steps j) \<longleftrightarrow>
    (\<forall>k. i \<le> k \<and> k \<le> j \<longrightarrow> TestStep_Parallel (steps ! k))"
proof -
  have "batch_start steps i = batch_start steps j \<longleftrightarrow> (\<forall>k. i \<le> k \<and> k < j \<longrightarrow> TestStep_Parallel (steps ! k))"
    using assms(1,2)
  proof (induction j rule: dec_induct)
    case base
    show ?case by auto
  next
    case (step j)
    show ?case
    proof (cases "TestStep_Parallel (steps ! j)")
      case True
      with step show ?thesis by (auto simp: batch_start_Suc less_Suc_eq)
    next
      case False
      have "batch_start steps i \<noteq> Suc j" using batch_start_le [of steps i] step.hyps by simp
      with False step show ?thesis by (auto simp: batch_start_Suc)
    qed
  qed
  with assms(4) show ?thesis by (auto simp: group_name_inj le_less)
qed

section \<open>A stage on the sample environment\<close>

definition sample_tests :: "TestStep list" where
  "sample_tests = [\<lparr>TestStep_Name = ''lint'', TestStep_Run = ''make lint'', TestStep_Parallel = True,
       TestStep_Artifacts = []\<rparr>,
     \<lparr>TestStep_Name = ''unit'', TestStep_Run = ''make test'', TestStep_Parallel = True,
       TestStep_Artifacts = []\<rparr>,
     \<lparr>TestStep_Name = ''smoke'', TestStep_Run = ''make smoke'', TestStep_Parallel = False,
       TestStep_Artifacts = []\<rparr>]"

lemma sample_tests_succeed:
  "map_option fst (Testinator_Run calm_env (Testinator_New (step_adv calm_env) step_res spawn ''builder'')
     (JobID 5) sample_tests sample_world) = Some None"
  by code_simp

lemma sample_tests_result:
  obtains w' where "Testinator_Run calm_env (Testinator_New (step_adv calm_env) step_res spawn ''builder'')
    (JobID 5) sample_tests sample_world = Some (None, w')"
  using sample_tests_succeed by auto

theorem test_rows_witness:
  "\<exists>w'. Testinator_Run calm_env (Testinator_New (step_adv calm_env) step_res spawn ''builder'')
      (JobID 5) sample_tests sample_world = Some (None, w') \<and>
    mset (map step_ident (job_steps w')) = {#(JobID 5, ''lint'', Some 0, Some ''parallel-0''),
      (JobID 5, ''unit'', Some 1, Some ''parallel-0''), (JobID 5, ''smoke'', Some 2, None)#}"
proof (rule sample_tests_result)
  fix w'
  assume run: "Testinator_Run calm_env (Testinator_New (step_adv calm_env) step_res spawn ''builder'')
    (JobID 5) sample_tests sample_world = Some (None, w')"
  have rows: "map (planned_row (JobID 5) 0 sample_tests) [0..<length sample_tests] =
      [(JobID 5, ''lint'', Some 0, Some ''parallel-0''), (JobID 5, ''unit'', Some 1, Some ''parallel-0''),
       (JobID 5, ''smoke'', Some 2, None)]"
    by code_simp
  from test_rows [OF run sample_ready] run show ?thesis by (auto simp: rows)
qed

theorem test_submissions_witness:
  "\<exists>w'. Testinator_Run calm_env (Testinator_New (step_adv calm_env) step_res spawn ''builder'')
      (JobID 5) sample_tests sample_world = Some (None, w') \<and> length (submissions (log w')) = 3"
proof (rule sample_tests_result)
  fix w'
  assume run: "Testinator_Run calm_env (Testinator_New (step_adv calm_env) step_res spawn ''builder'')
    (JobID 5) sample_tests sample_world = Some (None, w')"
  obtain sub where "submissions (log w') = submissions (log sample_world) @ sub"
    "groups_done None (map (map (specForStep (Testinator_New (step_adv calm_env) step_res spawn ''builder'')))
      (test_groups sample_tests)) sub" "concat (test_groups sample_tests) = sample_tests"
    using test_submissions [OF run sample_ready] by blast
  with groups_done_mset [OF this(2)] have "size (mset (submissions (log w'))) = size (mset sample_tests)"
    by (simp flip: map_concat mset_concat)
  with run show ?thesis by (auto simp: sample_tests_def)
qed

theorem same_group_iff_witness:
  "group_name (batch_start sample_tests 0) = group_name (batch_start sample_tests 1)"
  by (subst same_group_iff) (auto simp: sample_tests_def le_Suc_eq)

end
