(* ===== verification/StepLaws.thy ===== *)
theory StepLaws
  imports StepFns Samples
begin

text \<open>
  Two behaviours of a single step that its caller sees from the outside: a workload that the
  executor accepted but the data base did not record, and one whose context ends while it runs.
\<close>

section \<open>A workload that was not recorded\<close>

text \<open>
  C33: when the executor has accepted a workload and the row for it cannot be written, the step
  fails at once, but the workload is not cancelled and no row refers to it: it is left running
  with nothing that knows its handle.
\<close>

theorem unrecorded_is_orphaned:
  assumes "ex_submit E (tick w) spec = Inr h" and "\<not> db_up E Ctx (tick w + 3)"
  shows "\<exists>w'. executeAndPoll E stepID spec w =
      Some (Some (Wrapf ''record execution: %w'' [] (db_error E (tick w + 3))), w') \<and>
    log w' = log w @ [Submitted spec h] \<and> executions w' = executions w"
proof -
  let ?w1 = "(tock w)\<lparr>log := log w @ [Submitted spec h]\<rparr>"
  have "ensureID ExecutionID rawExecutionID E (Execution_ID (new_execution stepID h)) ?w1 =
      (ExecutionID (uuid_new E (Suc (tick w))), tock ?w1)"
    by (simp add: ensureID_def uuid_New_def new_execution_def)
  then obtain x where "ExecutionStore_Create E Ctx (new_execution stepID h) ?w1 =
      (Some (db_error E (tick w + 3)), x, tock (tock (tock ?w1)))"
    using assms(2)
    by (auto simp: ExecutionStore_Create_def setCreatedAt_def time_Now_def pool_call_eq
        eval_nat_numeral Let_def)
  with assms(1) show ?thesis by (simp add: executeAndPoll_def exec_Submit_def)
qed

definition faulty_env :: env where
  "faulty_env = calm_env\<lparr>db_fault := (\<lambda>n. if n = 13 then Some (External ''connection reset'') else None)\<rparr>"

theorem unrecorded_is_orphaned_witness:
  "\<exists>e w'. executeAndPoll faulty_env (JobStepID 7) sample_spec sample_world = Some (Some e, w') \<and>
     log w' = [Submitted sample_spec (ExecutionHandle ''job-1'')] \<and> executions w' = []"
proof -
  have "ex_submit faulty_env (tick sample_world) sample_spec = Inr (ExecutionHandle ''job-1'')"
    "\<not> db_up faulty_env Ctx (tick sample_world + 3)"
    by (simp_all add: faulty_env_def db_up_def)
  from unrecorded_is_orphaned [OF this, of "JobStepID 7"] show ?thesis by auto
qed

section \<open>A context that ends\<close>

text \<open>
  A poll whose context is done when \<open>select\<close> sees it cancels the workload once, whatever the
  executor answers, returns the context's own error, and writes nothing to the tables: the row of
  the execution keeps the phase seen last.
\<close>

theorem poll_cancels:
  assumes "ctx_done E (tick w)" and "\<not> pick_ticker E (tick w)"
  shows "\<exists>w'. poll E execID h w = Some (Some (ctx_error E), w') \<and> log w' = log w @ [CancelCall h] \<and>
    executions w' = executions w \<and> job_steps w' = job_steps w"
  using assms by (subst poll.simps) (simp add: exec_Cancel_def)

definition ending_env :: env where
  "ending_env = calm_env\<lparr>ctx_done_from := Some 10, pick_ticker := (\<lambda>_. False)\<rparr>"

theorem poll_cancels_witness:
  "\<exists>w'. poll ending_env (ExecutionID 9) (ExecutionHandle ''job-1'') sample_world =
     Some (Some CtxCanceled, w') \<and> log w' = [CancelCall (ExecutionHandle ''job-1'')]"
proof -
  have "ctx_done ending_env (tick sample_world)" "\<not> pick_ticker ending_env (tick sample_world)"
    by (simp_all add: ending_env_def ctx_done_def)
  from poll_cancels [OF this, of "ExecutionID 9" "ExecutionHandle ''job-1''"] show ?thesis
    by (auto simp: ending_env_def)
qed

end
