(* ===== verification/PgLaws.thy ===== *)
theory PgLaws
  imports PgIntegrity Samples "HOL-Library.Multiset"
begin

text \<open>
  What the clients of the stores rely on: created rows are read back, identifiers and names are
  unique, what is still referenced is not deleted, history does not disappear, and a status update
  stamps the times its status implies.
\<close>

section \<open>Create\<close>

text \<open>A Create of a configuration entity, as the history stores have it in \<open>PgRuns\<close>.\<close>

lemma ProjectStore_Create_cases:
  obtains (failed) e p' n where "ProjectStore_Create E c p w = (Some e, p', w\<lparr>tick := n\<rparr>)"
  | (created) p' i t n where
      "ProjectStore_Create E c p w = (None, p', w\<lparr>tick := n, projects := projects w @ [p']\<rparr>)"
      "p' = p\<lparr>Project_ID := i, Project_CreatedAt := t, Project_UpdatedAt := t\<rparr>"
      "i \<notin> Project_ID ` set (projects w)" "Project_Name p \<notin> Project_Name ` set (projects w)"
proof -
  obtain i n where i: "ensureID ProjectID rawProjectID E (Project_ID p) w = (i, w\<lparr>tick := n\<rparr>)"
    by (rule ensureID_cases)
  let ?r = "p\<lparr>Project_ID := i, Project_CreatedAt := time_now E n, Project_UpdatedAt := time_now E n\<rparr>"
  let ?w = "w\<lparr>tick := Suc (Suc n)\<rparr>"
  have eq: "ProjectStore_Create E c p w =
      (if db_up E c (Suc n)
       then (case insert_project ?r ?w of (Inl e, w3) \<Rightarrow> (Some e, ?r, w3) | (Inr _, w3) \<Rightarrow> (None, ?r, w3))
       else (Some (db_error E (Suc n)), ?r, ?w))"
    by (simp add: ProjectStore_Create_def i setCreatedUpdated_def create_defs pool_call_eq Let_def
        split: prod.split sum.split)
  show ?thesis
  proof (cases "db_up E c (Suc n) \<and> i \<notin> Project_ID ` set (projects w) \<and> Project_Name p \<notin> Project_Name ` set (projects w)")
    case True
    with eq show ?thesis
      by (intro created [where i = i and t = "time_now E n" and n = "Suc (Suc n)"])
        (simp_all add: insert_project_def)
  next
    case False
    then have "\<exists>e. ProjectStore_Create E c p w = (Some e, ?r, ?w)"
      by (auto simp: eq insert_project_def)
    with failed show ?thesis by blast
  qed
qed

lemma RepositoryStore_Create_cases:
  obtains (failed) e q' n where "RepositoryStore_Create E c q w = (Some e, q', w\<lparr>tick := n\<rparr>)"
  | (created) q' i t n where
      "RepositoryStore_Create E c q w = (None, q', w\<lparr>tick := n, repositories := repositories w @ [q']\<rparr>)"
      "q' = q\<lparr>Repository_ID := i, Repository_CreatedAt := t, Repository_UpdatedAt := t\<rparr>"
      "i \<notin> Repository_ID ` set (repositories w)" "Repository_ProjectID q \<in> Project_ID ` set (projects w)"
proof -
  obtain i n where i: "ensureID RepositoryID rawRepositoryID E (Repository_ID q) w = (i, w\<lparr>tick := n\<rparr>)"
    by (rule ensureID_cases)
  let ?r = "q\<lparr>Repository_ID := i, Repository_CreatedAt := time_now E n, Repository_UpdatedAt := time_now E n\<rparr>"
  let ?w = "w\<lparr>tick := Suc (Suc n)\<rparr>"
  have eq: "RepositoryStore_Create E c q w =
      (if db_up E c (Suc n)
       then (case insert_repository ?r ?w of (Inl e, w3) \<Rightarrow> (Some e, ?r, w3) | (Inr _, w3) \<Rightarrow> (None, ?r, w3))
       else (Some (db_error E (Suc n)), ?r, ?w))"
    by (simp add: RepositoryStore_Create_def i setCreatedUpdated_def create_defs pool_call_eq Let_def
        split: prod.split sum.split)
  show ?thesis
  proof (cases "db_up E c (Suc n) \<and> i \<notin> Repository_ID ` set (repositories w) \<and> Repository_ProjectID q \<in> Project_ID ` set (projects w)")
    case True
    with eq show ?thesis
      by (intro created [where i = i and t = "time_now E n" and n = "Suc (Suc n)"])
        (simp_all add: insert_repository_def)
  next
    case False
    then have "\<exists>e. RepositoryStore_Create E c q w = (Some e, ?r, ?w)"
      by (auto simp: eq insert_repository_def)
    with failed show ?thesis by blast
  qed
qed

lemma PipelineStore_Create_cases:
  obtains (failed) e l' n where "PipelineStore_Create E c l w = (Some e, l', w\<lparr>tick := n\<rparr>)"
  | (created) l' i t n where
      "PipelineStore_Create E c l w = (None, l', w\<lparr>tick := n, pipelines := pipelines w @ [l']\<rparr>)"
      "l' = l\<lparr>Pipeline_ID := i, Pipeline_CreatedAt := t, Pipeline_UpdatedAt := t\<rparr>"
      "i \<notin> Pipeline_ID ` set (pipelines w)" "Pipeline_RepositoryID l \<in> Repository_ID ` set (repositories w)"
proof -
  obtain i n where i: "ensureID PipelineID rawPipelineID E (Pipeline_ID l) w = (i, w\<lparr>tick := n\<rparr>)"
    by (rule ensureID_cases)
  let ?r = "l\<lparr>Pipeline_ID := i, Pipeline_CreatedAt := time_now E n, Pipeline_UpdatedAt := time_now E n\<rparr>"
  let ?w = "w\<lparr>tick := Suc (Suc n)\<rparr>"
  have eq: "PipelineStore_Create E c l w =
      (if db_up E c (Suc n)
       then (case insert_pipeline ?r ?w of (Inl e, w3) \<Rightarrow> (Some e, ?r, w3) | (Inr _, w3) \<Rightarrow> (None, ?r, w3))
       else (Some (db_error E (Suc n)), ?r, ?w))"
    by (simp add: PipelineStore_Create_def i setCreatedUpdated_def create_defs pool_call_eq Let_def
        split: prod.split sum.split)
  show ?thesis
  proof (cases "db_up E c (Suc n) \<and> i \<notin> Pipeline_ID ` set (pipelines w) \<and> Pipeline_RepositoryID l \<in> Repository_ID ` set (repositories w)")
    case True
    with eq show ?thesis
      by (intro created [where i = i and t = "time_now E n" and n = "Suc (Suc n)"])
        (simp_all add: insert_pipeline_def)
  next
    case False
    then have "\<exists>e. PipelineStore_Create E c l w = (Some e, ?r, ?w)"
      by (auto simp: eq insert_pipeline_def)
    with failed show ?thesis by blast
  qed
qed

section \<open>Reading by identifier\<close>

lemma GetByID_eq:
  "ProjectStore_GetByID E c pk w = (if db_up E c (tick w) then (case get_row Project_ID pk (projects w) of
      None \<Rightarrow> Inl (wrapNoRowsByID ''project'' (rawProjectID pk) ErrNoRows) | Some x \<Rightarrow> Inr x)
    else Inl (wrapNoRowsByID ''project'' (rawProjectID pk) (db_error E (tick w))), tock w)"
  "RepositoryStore_GetByID E c qk w = (if db_up E c (tick w) then (case get_row Repository_ID qk (repositories w) of
      None \<Rightarrow> Inl (wrapNoRowsByID ''repository'' (rawRepositoryID qk) ErrNoRows) | Some x \<Rightarrow> Inr x)
    else Inl (wrapNoRowsByID ''repository'' (rawRepositoryID qk) (db_error E (tick w))), tock w)"
  "PipelineStore_GetByID E c lk w = (if db_up E c (tick w) then (case get_row Pipeline_ID lk (pipelines w) of
      None \<Rightarrow> Inl (wrapNoRowsByID ''pipeline'' (rawPipelineID lk) ErrNoRows) | Some x \<Rightarrow> Inr x)
    else Inl (wrapNoRowsByID ''pipeline'' (rawPipelineID lk) (db_error E (tick w))), tock w)"
  "PipelineRunStore_GetByID E c nk w = (if db_up E c (tick w) then (case get_row PipelineRun_ID nk (pipeline_runs w) of
      None \<Rightarrow> Inl (wrapNoRowsByID ''pipeline run'' (rawPipelineRunID nk) ErrNoRows) | Some x \<Rightarrow> Inr x)
    else Inl (wrapNoRowsByID ''pipeline run'' (rawPipelineRunID nk) (db_error E (tick w))), tock w)"
  "JobStore_GetByID E c jk w = (if db_up E c (tick w) then (case get_row Job_ID jk (jobs w) of
      None \<Rightarrow> Inl (wrapNoRowsByID ''job'' (rawJobID jk) ErrNoRows) | Some x \<Rightarrow> Inr x)
    else Inl (wrapNoRowsByID ''job'' (rawJobID jk) (db_error E (tick w))), tock w)"
  "JobStepStore_GetByID E c tk w = (if db_up E c (tick w) then (case get_row JobStep_ID tk (job_steps w) of
      None \<Rightarrow> Inl (wrapNoRowsByID ''job step'' (rawJobStepID tk) ErrNoRows) | Some x \<Rightarrow> Inr x)
    else Inl (wrapNoRowsByID ''job step'' (rawJobStepID tk) (db_error E (tick w))), tock w)"
  "ArtifactStore_GetByID E c ak w = (if db_up E c (tick w) then (case get_row Artifact_ID ak (artifacts w) of
      None \<Rightarrow> Inl (wrapNoRowsByID ''artifact'' (rawArtifactID ak) ErrNoRows) | Some x \<Rightarrow> Inr x)
    else Inl (wrapNoRowsByID ''artifact'' (rawArtifactID ak) (db_error E (tick w))), tock w)"
  "ExecutionStore_GetByID E c xk w = (if db_up E c (tick w) then (case get_row Execution_ID xk (executions w) of
      None \<Rightarrow> Inl (wrapNoRowsByID ''execution'' (rawExecutionID xk) ErrNoRows) | Some x \<Rightarrow> Inr x)
    else Inl (wrapNoRowsByID ''execution'' (rawExecutionID xk) (db_error E (tick w))), tock w)"
  by (simp_all add: ProjectStore_GetByID_def RepositoryStore_GetByID_def PipelineStore_GetByID_def
      PipelineRunStore_GetByID_def JobStore_GetByID_def JobStepStore_GetByID_def
      ArtifactStore_GetByID_def ExecutionStore_GetByID_def pool_call_eq split: option.split
      del: get_row_None)

text \<open>What \<open>GetByID\<close> delivers when the statement goes through.\<close>

lemma GetByID_Some:
  assumes "db_up E c (tick w)"
  shows "get_row Project_ID pk (projects w) = Some p \<Longrightarrow> ProjectStore_GetByID E c pk w = (Inr p, tock w)"
    "get_row Repository_ID qk (repositories w) = Some q \<Longrightarrow> RepositoryStore_GetByID E c qk w = (Inr q, tock w)"
    "get_row Pipeline_ID lk (pipelines w) = Some l \<Longrightarrow> PipelineStore_GetByID E c lk w = (Inr l, tock w)"
    "get_row PipelineRun_ID nk (pipeline_runs w) = Some n \<Longrightarrow> PipelineRunStore_GetByID E c nk w = (Inr n, tock w)"
    "get_row Job_ID jk (jobs w) = Some j \<Longrightarrow> JobStore_GetByID E c jk w = (Inr j, tock w)"
    "get_row JobStep_ID tk (job_steps w) = Some t \<Longrightarrow> JobStepStore_GetByID E c tk w = (Inr t, tock w)"
    "get_row Artifact_ID ak (artifacts w) = Some a \<Longrightarrow> ArtifactStore_GetByID E c ak w = (Inr a, tock w)"
    "get_row Execution_ID xk (executions w) = Some x \<Longrightarrow> ExecutionStore_GetByID E c xk w = (Inr x, tock w)"
  using assms by (simp_all add: GetByID_eq)

lemma get_row_fresh: "k \<notin> key ` set rows \<Longrightarrow> key r = k \<Longrightarrow> get_row key k (rows @ [r]) = Some r"
  by (induction rows) (auto simp del: get_row_append)

section \<open>The properties\<close>

text \<open>
  For each of the eight stores, what a successful \<open>Create\<close> has filled in (the new
  identifier unless one was given, the time stamps, the default status) is what \<open>GetByID\<close>
  delivers for that identifier next, whatever context it is called under, if its statement goes
  through.
\<close>

lemma create_then_get:
  assumes "\<forall>n. db_fault E n = None" and "c' = Ctx \<longrightarrow> ctx_done_from E = None"
  shows
    "(ProjectStore_Create E c p w = (None, p', w') \<longrightarrow> ProjectStore_GetByID E c' (Project_ID p') w' = (Inr p', tock w')) \<and>
     (RepositoryStore_Create E c q w = (None, q', w') \<longrightarrow> RepositoryStore_GetByID E c' (Repository_ID q') w' = (Inr q', tock w')) \<and>
     (PipelineStore_Create E c l w = (None, l', w') \<longrightarrow> PipelineStore_GetByID E c' (Pipeline_ID l') w' = (Inr l', tock w')) \<and>
     (PipelineRunStore_Create E c n w = (None, n', w') \<longrightarrow> PipelineRunStore_GetByID E c' (PipelineRun_ID n') w' = (Inr n', tock w')) \<and>
     (JobStore_Create E c j w = (None, j', w') \<longrightarrow> JobStore_GetByID E c' (Job_ID j') w' = (Inr j', tock w')) \<and>
     (JobStepStore_Create E c t w = (None, t', w') \<longrightarrow> JobStepStore_GetByID E c' (JobStep_ID t') w' = (Inr t', tock w')) \<and>
     (ArtifactStore_Create E c a w = (None, a', w') \<longrightarrow> ArtifactStore_GetByID E c' (Artifact_ID a') w' = (Inr a', tock w')) \<and>
     (ExecutionStore_Create E c x w = (None, x', w') \<longrightarrow> ExecutionStore_GetByID E c' (Execution_ID x') w' = (Inr x', tock w'))"
proof -
  have up: "db_up E c' (tick w')"
    using assms by (simp add: db_up_def ctx_Err_def ctx_done_def)
  note get = GetByID_Some [OF up]
  show ?thesis
  proof (intro conjI impI)
    assume "ProjectStore_Create E c p w = (None, p', w')"
    then show "ProjectStore_GetByID E c' (Project_ID p') w' = (Inr p', tock w')"
      by (intro get(1), cases rule: ProjectStore_Create_cases [of E c p w]) (auto simp: get_row_fresh simp del: get_row_append)
  next
    assume "RepositoryStore_Create E c q w = (None, q', w')"
    then show "RepositoryStore_GetByID E c' (Repository_ID q') w' = (Inr q', tock w')"
      by (intro get(2), cases rule: RepositoryStore_Create_cases [of E c q w]) (auto simp: get_row_fresh simp del: get_row_append)
  next
    assume "PipelineStore_Create E c l w = (None, l', w')"
    then show "PipelineStore_GetByID E c' (Pipeline_ID l') w' = (Inr l', tock w')"
      by (intro get(3), cases rule: PipelineStore_Create_cases [of E c l w]) (auto simp: get_row_fresh simp del: get_row_append)
  next
    assume "PipelineRunStore_Create E c n w = (None, n', w')"
    then show "PipelineRunStore_GetByID E c' (PipelineRun_ID n') w' = (Inr n', tock w')"
      by (intro get(4), cases rule: PipelineRunStore_Create_cases [of E c n w]) (auto simp: get_row_fresh simp del: get_row_append)
  next
    assume "JobStore_Create E c j w = (None, j', w')"
    then show "JobStore_GetByID E c' (Job_ID j') w' = (Inr j', tock w')"
      by (intro get(5), cases rule: JobStore_Create_cases [of E c j w]) (auto simp: get_row_fresh simp del: get_row_append)
  next
    assume "JobStepStore_Create E c t w = (None, t', w')"
    then show "JobStepStore_GetByID E c' (JobStep_ID t') w' = (Inr t', tock w')"
      by (intro get(6), cases rule: JobStepStore_Create_cases [of E c t w]) (auto simp: get_row_fresh simp del: get_row_append)
  next
    assume "ArtifactStore_Create E c a w = (None, a', w')"
    then show "ArtifactStore_GetByID E c' (Artifact_ID a') w' = (Inr a', tock w')"
      by (intro get(7), cases rule: ArtifactStore_Create_cases [of E c a w]) (auto simp: get_row_fresh simp del: get_row_append)
  next
    assume "ExecutionStore_Create E c x w = (None, x', w')"
    then show "ExecutionStore_GetByID E c' (Execution_ID x') w' = (Inr x', tock w')"
      by (intro get(8), cases rule: ExecutionStore_Create_cases [of E c x w]) (auto simp: get_row_fresh simp del: get_row_append)
  qed
qed

definition other_project :: Project where
  "other_project = \<lparr>Project_ID = ProjectID 0, Project_Name = ''other'', Project_Description = None,
     Project_CreatedAt = 0, Project_UpdatedAt = 0\<rparr>"

section \<open>Deleting what is referenced\<close>

text \<open>
  The contract between a table and the rows that refer to it: a delete is refused while a row
  refers to the key, reports \<open>ErrNotFound\<close> when there is no such row, and otherwise removes the
  row, which then cannot be read any more.
\<close>

locale deletable =
  fixes rows :: "world \<Rightarrow> 'r list"
    and key :: "'r \<Rightarrow> 'k"
    and referenced :: "world \<Rightarrow> 'k set"
    and delete :: "env \<Rightarrow> ctx \<Rightarrow> 'k \<Rightarrow> world \<Rightarrow> error option \<times> world"
    and get :: "env \<Rightarrow> ctx \<Rightarrow> 'k \<Rightarrow> world \<Rightarrow> (error + 'r) \<times> world"
  assumes delete_down: "\<not> db_up E c (tick w) \<Longrightarrow> delete E c k w = (Some (db_error E (tick w)), tock w)"
    and delete_missing: "db_up E c (tick w) \<Longrightarrow> k \<notin> key ` set (rows w) \<Longrightarrow>
      \<exists>e. delete E c k w = (Some e, tock w) \<and> errors_Is e ErrNotFound"
    and delete_referenced: "db_up E c (tick w) \<Longrightarrow> k \<in> key ` set (rows w) \<Longrightarrow> k \<in> referenced w \<Longrightarrow>
      \<exists>fk. delete E c k w = (Some (ForeignKeyViolation fk), tock w)"
    and delete_free: "db_up E c (tick w) \<Longrightarrow> k \<in> key ` set (rows w) \<Longrightarrow> k \<notin> referenced w \<Longrightarrow>
      fst (delete E c k w) = None \<and> rows (snd (delete E c k w)) = del_row key k (rows w)"
    and get_missing: "db_up E c (tick w) \<Longrightarrow> k \<notin> key ` set (rows w) \<Longrightarrow>
      \<exists>e. fst (get E c k w) = Inl e \<and> errors_Is e ErrNotFound"
begin

definition delete_ok :: "env \<Rightarrow> ctx \<Rightarrow> 'k \<Rightarrow> world \<Rightarrow> bool" where
  "delete_ok E c k w \<longleftrightarrow> db_up E c (tick w) \<and> k \<in> key ` set (rows w) \<and> k \<notin> referenced w"

lemma delete_iff: "fst (delete E c k w) = None \<longleftrightarrow> delete_ok E c k w"
proof (cases "db_up E c (tick w)")
  case up: True
  show ?thesis
  proof (cases "k \<in> key ` set (rows w)")
    case True
    with up delete_referenced [OF up True] delete_free [OF up True] show ?thesis
      by (auto simp: delete_ok_def)
  next
    case False
    with delete_missing [OF up False] show ?thesis by (auto simp: delete_ok_def)
  qed
next
  case False
  with delete_down [OF False] show ?thesis by (simp add: delete_ok_def)
qed

lemma delete_failed: "fst (delete E c k w) \<noteq> None \<Longrightarrow> snd (delete E c k w) = tock w"
  using delete_down [of E c w k] delete_missing [of E c w k] delete_referenced [of E c w k]
    delete_free [of E c w k] by fastforce

lemma delete_done:
  assumes "delete E c k w = (None, w')"
  shows "rows w' = del_row key k (rows w)"
    and "db_up E c' (tick w') \<Longrightarrow> \<exists>e. fst (get E c' k w') = Inl e \<and> errors_Is e ErrNotFound"
proof -
  have "delete_ok E c k w" using assms delete_iff [of E c k w] by simp
  then show rows: "rows w' = del_row key k (rows w)"
    using delete_free [of E c w k] assms by (simp add: delete_ok_def)
  then show "\<exists>e. fst (get E c' k w') = Inl e \<and> errors_Is e ErrNotFound" if "db_up E c' (tick w')"
    using that by (intro get_missing) simp_all
qed

end

lemmas delete_defs = ProjectStore_Delete_def RepositoryStore_Delete_def PipelineStore_Delete_def
  delete_project_def delete_repository_def delete_pipeline_def pool_call_eq ensureRowsAffected_def

lemma same_rows:
  "projects (tock w) = ps \<Longrightarrow> (tock w)\<lparr>projects := ps\<rparr> = tock w"
  "repositories (tock w) = qs \<Longrightarrow> (tock w)\<lparr>repositories := qs\<rparr> = tock w"
  "pipelines (tock w) = ls \<Longrightarrow> (tock w)\<lparr>pipelines := ls\<rparr> = tock w"
  by auto

interpretation project_table: deletable projects Project_ID
    "\<lambda>w. Repository_ProjectID ` set (repositories w)" ProjectStore_Delete ProjectStore_GetByID
  by unfold_locales (auto simp: delete_defs GetByID_eq get_row_absent del_row_absent same_rows simp del: get_row_None)

interpretation repository_table: deletable repositories Repository_ID
    "\<lambda>w. Pipeline_RepositoryID ` set (pipelines w)" RepositoryStore_Delete RepositoryStore_GetByID
  by unfold_locales (auto simp: delete_defs GetByID_eq get_row_absent del_row_absent same_rows simp del: get_row_None)

interpretation pipeline_table: deletable pipelines Pipeline_ID
    "\<lambda>w. PipelineRun_PipelineID ` set (pipeline_runs w)" PipelineStore_Delete PipelineStore_GetByID
  by unfold_locales (auto simp: delete_defs GetByID_eq get_row_absent del_row_absent same_rows simp del: get_row_None)

text \<open>
  C19: a project, repository or pipeline is deleted exactly when the statement goes through, the
  row exists and nothing refers to it. A delete that is refused changes no table, and what was
  deleted is reported as \<open>ErrNotFound\<close> from then on.
\<close>

theorem delete_outcome:
  "(fst (ProjectStore_Delete E c pk w) = None \<longleftrightarrow> db_up E c (tick w) \<and>
       pk \<in> Project_ID ` set (projects w) \<and> pk \<notin> Repository_ProjectID ` set (repositories w)) \<and>
     (fst (ProjectStore_Delete E c pk w) \<noteq> None \<longrightarrow> snd (ProjectStore_Delete E c pk w) = tock w) \<and>
     (ProjectStore_Delete E c pk w = (None, w') \<and> db_up E c' (tick w') \<longrightarrow>
       (\<exists>e. fst (ProjectStore_GetByID E c' pk w') = Inl e \<and> errors_Is e ErrNotFound)) \<and>
     (fst (RepositoryStore_Delete E c qk w) = None \<longleftrightarrow> db_up E c (tick w) \<and>
       qk \<in> Repository_ID ` set (repositories w) \<and> qk \<notin> Pipeline_RepositoryID ` set (pipelines w)) \<and>
     (fst (RepositoryStore_Delete E c qk w) \<noteq> None \<longrightarrow> snd (RepositoryStore_Delete E c qk w) = tock w) \<and>
     (RepositoryStore_Delete E c qk w = (None, w') \<and> db_up E c' (tick w') \<longrightarrow>
       (\<exists>e. fst (RepositoryStore_GetByID E c' qk w') = Inl e \<and> errors_Is e ErrNotFound)) \<and>
     (fst (PipelineStore_Delete E c lk w) = None \<longleftrightarrow> db_up E c (tick w) \<and>
       lk \<in> Pipeline_ID ` set (pipelines w) \<and> lk \<notin> PipelineRun_PipelineID ` set (pipeline_runs w)) \<and>
     (fst (PipelineStore_Delete E c lk w) \<noteq> None \<longrightarrow> snd (PipelineStore_Delete E c lk w) = tock w) \<and>
     (PipelineStore_Delete E c lk w = (None, w') \<and> db_up E c' (tick w') \<longrightarrow>
       (\<exists>e. fst (PipelineStore_GetByID E c' lk w') = Inl e \<and> errors_Is e ErrNotFound))"
  using project_table.delete_iff [of E c pk w] project_table.delete_failed [of E c pk w]
    project_table.delete_done(2) [of E c pk w w' c']
    repository_table.delete_iff [of E c qk w] repository_table.delete_failed [of E c qk w]
    repository_table.delete_done(2) [of E c qk w w' c']
    pipeline_table.delete_iff [of E c lk w] pipeline_table.delete_failed [of E c lk w]
    pipeline_table.delete_done(2) [of E c lk w w' c']
  unfolding project_table.delete_ok_def repository_table.delete_ok_def pipeline_table.delete_ok_def
  by blast

theorem delete_outcome_witness:
  "snd (ProjectStore_Delete calm_env Ctx (ProjectID 1) sample_world) = tock sample_world"
proof -
  have "ProjectID 1 \<in> Repository_ProjectID ` set (repositories sample_world)"
    by (simp add: sample_world_def)
  with delete_outcome [where E = calm_env and c = Ctx and pk = "ProjectID 1" and w = sample_world]
  show ?thesis by blast
qed

section \<open>Integrity and history\<close>

text \<open>
  C17: starting from an empty data base, whatever clients do and whatever fails, keys stay unique
  in all eight tables, so do the names of projects, and every reference from one table to another
  leads to a row.
\<close>

theorem db_integrity:
  assumes "(db_step E)\<^sup>*\<^sup>* empty_world w"
  shows "keys_unique w \<and> refs_hold w"
  using integrity.steps_keep [OF assms wf_db_empty] by (simp add: wf_db_def)

definition other_repository :: "ProjectID \<Rightarrow> Repository" where
  "other_repository k = \<lparr>Repository_ID = RepositoryID 0, Repository_ProjectID = k,
     Repository_VCSProvider = ''git'', Repository_CloneURL = ''https://example.com/o.git'',
     Repository_DefaultBranch = ''main'', Repository_CreatedAt = 0, Repository_UpdatedAt = 0\<rparr>"

text \<open>A project and a repository of it, created one after the other in an empty data base.\<close>

theorem db_integrity_witness:
  "\<exists>w p q. (db_step calm_env)\<^sup>*\<^sup>* empty_world w \<and> projects w = [p] \<and> repositories w = [q] \<and>
     keys_unique w \<and> refs_hold w \<and> Repository_ProjectID q = Project_ID p"
proof -
  let ?p = "ProjectStore_Create calm_env Ctx other_project empty_world"
  let ?q = "RepositoryStore_Create calm_env Ctx (other_repository (Project_ID (fst (snd ?p)))) (snd (snd ?p))"
  let ?w = "snd (snd ?q)"
  have "db_step calm_env empty_world (snd (snd ?p))" "db_step calm_env (snd (snd ?p)) ?w"
    by (metis db_step.project_create prod.collapse) (metis db_step.repository_create prod.collapse)
  then have reach: "(db_step calm_env)\<^sup>*\<^sup>* empty_world ?w"
    by (rule converse_rtranclp_into_rtranclp [OF _ r_into_rtranclp])
  have one: "length (projects ?w) = 1" "length (repositories ?w) = 1" by code_simp+
  then obtain p q where pq: "projects ?w = [p]" "repositories ?w = [q]"
    by (auto simp: length_Suc_conv)
  with db_integrity [OF reach] have "Repository_ProjectID q = Project_ID p"
    by (simp add: refs_hold_def)
  with reach pq db_integrity [OF reach] show ?thesis by blast
qed

text \<open>
  C18: a run, job, step, artifact or execution that is in the data base stays there, whatever
  clients do later: \<open>GetByID\<close> finds it, with the columns it was created with (all but the status
  and its time stamps, and all columns of an artifact).
\<close>

theorem history_persists:
  assumes "wf_db w" and "(db_step E)\<^sup>*\<^sup>* w w'" and "db_up E c (tick w')"
  shows "(\<forall>r\<in>set (pipeline_runs w). \<exists>r'. PipelineRunStore_GetByID E c (PipelineRun_ID r) w' = (Inr r', tock w') \<and>
       run_ident r' = run_ident r) \<and>
     (\<forall>j\<in>set (jobs w). \<exists>j'. JobStore_GetByID E c (Job_ID j) w' = (Inr j', tock w') \<and> job_ident j' = job_ident j) \<and>
     (\<forall>t\<in>set (job_steps w). \<exists>t'. JobStepStore_GetByID E c (JobStep_ID t) w' = (Inr t', tock w') \<and>
       step_key t' = step_key t) \<and>
     (\<forall>a\<in>set (artifacts w). ArtifactStore_GetByID E c (Artifact_ID a) w' = (Inr a, tock w')) \<and>
     (\<forall>x\<in>set (executions w). \<exists>x'. ExecutionStore_GetByID E c (Execution_ID x) w' = (Inr x', tock w') \<and>
       execution_ident x' = execution_ident x)"
proof -
  have kept: "history_kept w w'" by (rule history.steps_keep [OF assms(2) history_kept_refl])
  have keys: "keys_unique w'" using integrity.steps_keep [OF assms(2,1)] by (simp add: wf_db_def)
  note get = GetByID_Some [OF assms(3)]
  show ?thesis
  proof (intro conjI ballI)
    fix r assume "r \<in> set (pipeline_runs w)"
    with kept keys show "\<exists>r'. PipelineRunStore_GetByID E c (PipelineRun_ID r) w' = (Inr r', tock w') \<and>
        run_ident r' = run_ident r"
      using prefix_key [where f = run_ident and key = PipelineRun_ID and x = r] get(4)
      by (fastforce simp: history_kept_def keys_unique_def run_ident_def)
  next
    fix j assume "j \<in> set (jobs w)"
    with kept keys show "\<exists>j'. JobStore_GetByID E c (Job_ID j) w' = (Inr j', tock w') \<and> job_ident j' = job_ident j"
      using prefix_key [where f = job_ident and key = Job_ID and x = j] get(5)
      by (fastforce simp: history_kept_def keys_unique_def job_ident_def)
  next
    fix t assume "t \<in> set (job_steps w)"
    with kept keys show "\<exists>t'. JobStepStore_GetByID E c (JobStep_ID t) w' = (Inr t', tock w') \<and> step_key t' = step_key t"
      using prefix_key [where f = step_key and key = JobStep_ID and x = t] get(6)
      by (fastforce simp: history_kept_def keys_unique_def step_key_def)
  next
    fix a assume "a \<in> set (artifacts w)"
    with kept have "a \<in> set (artifacts w')" by (auto simp: history_kept_def dest: set_mono_prefix)
    with keys show "ArtifactStore_GetByID E c (Artifact_ID a) w' = (Inr a, tock w')"
      by (intro get(7) get_row_unique) (simp_all add: keys_unique_def)
  next
    fix x assume "x \<in> set (executions w)"
    with kept keys show "\<exists>x'. ExecutionStore_GetByID E c (Execution_ID x) w' = (Inr x', tock w') \<and>
        execution_ident x' = execution_ident x"
      using prefix_key [where f = execution_ident and key = Execution_ID and x = x] get(8)
      by (fastforce simp: history_kept_def keys_unique_def execution_ident_def)
  qed
qed

lemma sample_wf: "wf_db sample_world"
  by (simp add: wf_db_defs sample_world_def sample_run_def sample_job_def)

theorem history_persists_witness:
  "\<exists>w' j'. (db_step calm_env)\<^sup>*\<^sup>* sample_world w' \<and> w' \<noteq> sample_world \<and>
     JobStore_GetByID calm_env Ctx (JobID 5) w' = (Inr j', tock w') \<and> job_ident j' = job_ident sample_job"
proof -
  let ?w' = "snd (JobStore_UpdateStatus calm_env Ctx (JobID 5) ''failed'' sample_world)"
  have step: "(db_step calm_env)\<^sup>*\<^sup>* sample_world ?w'"
    by (metis db_step.job_status prod.collapse r_into_rtranclp)
  have "tick ?w' \<noteq> tick sample_world" by code_simp
  then have "?w' \<noteq> sample_world" by metis
  moreover have "Job_ID sample_job = JobID 5" "sample_job \<in> set (jobs sample_world)"
    by (simp_all add: sample_job_def)
  ultimately show ?thesis
    using step history_persists [OF sample_wf step, where c = Ctx] by fastforce
qed

section \<open>Status updates\<close>

text \<open>The statuses that end something, as the time stamps know them.\<close>

definition ended :: "string set" where
  "ended = {stateSuccess, stateFailed, stateCanceled}"

lemmas stamp_defs = ended_def startedFinishedForStatus_def completedAtForStatus_def state_defs

lemma PipelineRunStore_times:
  assumes "PipelineRunStore_UpdateStatus E c nk s w = (None, w')"
  shows "\<exists>r. get_row PipelineRun_ID nk (pipeline_runs w) = Some r \<and>
    get_row PipelineRun_ID nk (pipeline_runs w') = Some (r\<lparr>PipelineRun_Status := s,
      PipelineRun_StartedAt := if s = stateRunning then Some (time_now E (tick w)) else PipelineRun_StartedAt r,
      PipelineRun_FinishedAt := if s \<in> ended then Some (time_now E (tick w)) else PipelineRun_FinishedAt r\<rparr>)"
proof (cases rule: PipelineRunStore_UpdateStatus_cases [of E c nk s w])
  case (sent f)
  with assms have "nk \<in> PipelineRun_ID ` set (pipeline_runs w)" by (auto simp: hits_def filter_empty_conv ensureRowsAffected_def split: if_splits)
  then obtain r where "get_row PipelineRun_ID nk (pipeline_runs w) = Some r" by (metis get_row_None not_None_eq)
  with sent assms show ?thesis
    by (auto simp: get_row_set_row set_run_def stamp_defs)
qed (use assms in simp)

lemma JobStore_times:
  assumes "JobStore_UpdateStatus E c jk s w = (None, w')"
  shows "\<exists>j. get_row Job_ID jk (jobs w) = Some j \<and>
    get_row Job_ID jk (jobs w') = Some (j\<lparr>Job_Status := s,
      Job_StartedAt := if s = stateRunning then Some (time_now E (tick w)) else Job_StartedAt j,
      Job_FinishedAt := if s \<in> ended then Some (time_now E (tick w)) else Job_FinishedAt j\<rparr>)"
proof (cases rule: JobStore_UpdateStatus_cases [of E c jk s w])
  case (sent f)
  with assms have "jk \<in> Job_ID ` set (jobs w)" by (auto simp: hits_def filter_empty_conv ensureRowsAffected_def split: if_splits)
  then obtain j where "get_row Job_ID jk (jobs w) = Some j" by (metis get_row_None not_None_eq)
  with sent assms show ?thesis
    by (auto simp: get_row_set_row set_job_def stamp_defs)
qed (use assms in simp)

lemma JobStepStore_times:
  assumes "JobStepStore_UpdateStatus E c tk s w = (None, w')"
  shows "\<exists>t. get_row JobStep_ID tk (job_steps w) = Some t \<and>
    get_row JobStep_ID tk (job_steps w') = Some (t\<lparr>JobStep_Status := s,
      JobStep_StartedAt := if s = stateRunning then Some (time_now E (tick w)) else JobStep_StartedAt t,
      JobStep_FinishedAt := if s \<in> ended then Some (time_now E (tick w)) else JobStep_FinishedAt t\<rparr>)"
proof (cases rule: JobStepStore_UpdateStatus_cases [of E c tk s w])
  case (sent f)
  with assms have "tk \<in> JobStep_ID ` set (job_steps w)" by (auto simp: hits_def filter_empty_conv ensureRowsAffected_def split: if_splits)
  then obtain t where "get_row JobStep_ID tk (job_steps w) = Some t" by (metis get_row_None not_None_eq)
  with sent assms show ?thesis
    by (auto simp: get_row_set_row set_step_def stamp_defs)
qed (use assms in simp)

lemma ExecutionStore_times:
  assumes "ExecutionStore_UpdateStatus E c xk s w = (None, w')"
  shows "\<exists>x. get_row Execution_ID xk (executions w) = Some x \<and>
    get_row Execution_ID xk (executions w') = Some (x\<lparr>Execution_Status := s,
      
      Execution_CompletedAt := if s \<in> ended then Some (time_now E (tick w)) else Execution_CompletedAt x\<rparr>)"
proof (cases rule: ExecutionStore_UpdateStatus_cases [of E c xk s w])
  case (sent f)
  with assms have "xk \<in> Execution_ID ` set (executions w)" by (auto simp: hits_def filter_empty_conv ensureRowsAffected_def split: if_splits)
  then obtain x where "get_row Execution_ID xk (executions w) = Some x" by (metis get_row_None not_None_eq)
  with sent assms show ?thesis
    by (auto simp: get_row_set_row set_execution_def stamp_defs)
qed (use assms in simp)

text \<open>
  C20: a status update that succeeds replaces the status of the row with that key and stamps its
  times by the new status alone: running stamps the start, success, failed and canceled the end,
  and any other status none; a stamp that is not set anew is kept.
\<close>

theorem update_status_times:
  "(PipelineRunStore_UpdateStatus E c nk s w = (None, w') \<longrightarrow>
       (\<exists>r. get_row PipelineRun_ID nk (pipeline_runs w) = Some r \<and>
          get_row PipelineRun_ID nk (pipeline_runs w') = Some (r\<lparr>PipelineRun_Status := s,
           PipelineRun_StartedAt := if s = stateRunning then Some (time_now E (tick w)) else PipelineRun_StartedAt r,
           PipelineRun_FinishedAt := if s \<in> ended then Some (time_now E (tick w)) else PipelineRun_FinishedAt r\<rparr>))) \<and>
     (JobStore_UpdateStatus E c jk s w = (None, w') \<longrightarrow>
       (\<exists>j. get_row Job_ID jk (jobs w) = Some j \<and>
          get_row Job_ID jk (jobs w') = Some (j\<lparr>Job_Status := s,
           Job_StartedAt := if s = stateRunning then Some (time_now E (tick w)) else Job_StartedAt j,
           Job_FinishedAt := if s \<in> ended then Some (time_now E (tick w)) else Job_FinishedAt j\<rparr>))) \<and>
     (JobStepStore_UpdateStatus E c tk s w = (None, w') \<longrightarrow>
       (\<exists>t. get_row JobStep_ID tk (job_steps w) = Some t \<and>
          get_row JobStep_ID tk (job_steps w') = Some (t\<lparr>JobStep_Status := s,
           JobStep_StartedAt := if s = stateRunning then Some (time_now E (tick w)) else JobStep_StartedAt t,
           JobStep_FinishedAt := if s \<in> ended then Some (time_now E (tick w)) else JobStep_FinishedAt t\<rparr>))) \<and>
     (ExecutionStore_UpdateStatus E c xk s w = (None, w') \<longrightarrow>
       (\<exists>x. get_row Execution_ID xk (executions w) = Some x \<and>
          get_row Execution_ID xk (executions w') = Some (x\<lparr>Execution_Status := s,
           Execution_CompletedAt := if s \<in> ended then Some (time_now E (tick w)) else Execution_CompletedAt x\<rparr>)))"
  using PipelineRunStore_times [of E c nk s w w'] JobStore_times [of E c jk s w w']
    JobStepStore_times [of E c tk s w w'] ExecutionStore_times [of E c xk s w w']
  by blast

theorem update_status_times_witness:
  "\<exists>w'. JobStore_UpdateStatus calm_env Ctx (JobID 5) ''failed'' sample_world = (None, w') \<and>
     get_row Job_ID (JobID 5) (jobs w') = Some (sample_job\<lparr>Job_Status := ''failed'', Job_FinishedAt := Some 10\<rparr>)"
proof -
  have "fst (JobStore_UpdateStatus calm_env Ctx (JobID 5) ''failed'' sample_world) = None"
    by code_simp
  then obtain w' where w': "JobStore_UpdateStatus calm_env Ctx (JobID 5) ''failed'' sample_world = (None, w')"
    by (metis prod.collapse)
  then obtain j where "get_row Job_ID (JobID 5) (jobs sample_world) = Some j"
    "get_row Job_ID (JobID 5) (jobs w') = Some (j\<lparr>Job_Status := ''failed'',
       Job_StartedAt := if ''failed'' = stateRunning then Some (time_now calm_env (tick sample_world)) else Job_StartedAt j,
       Job_FinishedAt := if ''failed'' \<in> ended then Some (time_now calm_env (tick sample_world)) else Job_FinishedAt j\<rparr>)"
    using update_status_times [where E = calm_env and c = Ctx and s = "''failed''" and w = sample_world
        and jk = "JobID 5" and w' = w'] by blast
  with w' show ?thesis by (auto simp: sample_job_def ended_def state_defs)
qed

text \<open>
  C29: what the orchestrator writes when a stage, step or execution has succeeded is not a status
  that the time stamps know: the row becomes succeeded, and its end time stays as it was, which
  for a row that has not ended is NULL.
\<close>

theorem succeeded_has_no_end:
  assumes "s = StageStateSucceeded \<or> s = ExecutionPhaseSucceeded"
  shows "(JobStore_UpdateStatus E c jk s w = (None, w') \<longrightarrow>
      map_option Job_FinishedAt (get_row Job_ID jk (jobs w')) =
      map_option Job_FinishedAt (get_row Job_ID jk (jobs w))) \<and>
    (JobStepStore_UpdateStatus E c tk s w = (None, w') \<longrightarrow>
      map_option JobStep_FinishedAt (get_row JobStep_ID tk (job_steps w')) =
      map_option JobStep_FinishedAt (get_row JobStep_ID tk (job_steps w))) \<and>
    (ExecutionStore_UpdateStatus E c xk s w = (None, w') \<longrightarrow>
      map_option Execution_CompletedAt (get_row Execution_ID xk (executions w')) =
      map_option Execution_CompletedAt (get_row Execution_ID xk (executions w)))"
proof -
  have "s \<notin> ended" using assms by (auto simp: ended_def state_defs)
  then show ?thesis
    using JobStore_times [of E c jk s w w'] JobStepStore_times [of E c tk s w w']
      ExecutionStore_times [of E c xk s w w'] by fastforce
qed

theorem succeeded_has_no_end_witness:
  "\<exists>w'. JobStore_UpdateStatus calm_env Ctx (JobID 5) StageStateSucceeded sample_world = (None, w') \<and>
     map_option Job_FinishedAt (get_row Job_ID (JobID 5) (jobs w')) = Some None"
proof -
  have "fst (JobStore_UpdateStatus calm_env Ctx (JobID 5) StageStateSucceeded sample_world) = None"
    by code_simp
  then obtain w' where w': "JobStore_UpdateStatus calm_env Ctx (JobID 5) StageStateSucceeded sample_world = (None, w')"
    by (metis prod.collapse)
  with succeeded_has_no_end [where E = calm_env and c = Ctx and s = StageStateSucceeded and
      w = sample_world and jk = "JobID 5" and w' = w']
  show ?thesis by (simp add: sample_job_def)
qed

section \<open>Names, updates and lists\<close>

lemma GetByName_eq:
  "ProjectStore_GetByName E c name w = (if db_up E c (tick w) then (case get_row Project_Name name (projects w) of
      None \<Rightarrow> Inl (wrapNoRowsByName ''project'' name ErrNoRows) | Some x \<Rightarrow> Inr x)
    else Inl (wrapNoRowsByName ''project'' name (db_error E (tick w))), tock w)"
  by (simp add: ProjectStore_GetByName_def pool_call_eq split: option.split del: get_row_None)

text \<open>
  The name of a project is taken at most once: creating a project whose name exists fails and
  changes no table, and one that was created is what \<open>GetByName\<close> delivers for its name.
\<close>

theorem project_names:
  assumes "ProjectStore_Create E c p w = (r, p', w')"
  shows "(Project_Name p \<in> Project_Name ` set (projects w) \<longrightarrow> r \<noteq> None) \<and>
    (r \<noteq> None \<longrightarrow> outside w w') \<and>
    (r = None \<and> db_up E c' (tick w') \<longrightarrow>
       ProjectStore_GetByName E c' (Project_Name p) w' = (Inr p', tock w'))"
proof (cases rule: ProjectStore_Create_cases [of E c p w])
  case (failed e p' n)
  with assms show ?thesis by (auto simp: outside_def)
next
  case (created q i t n)
  with assms show ?thesis
    by (auto simp: GetByName_eq get_row_fresh simp del: get_row_append)
qed

theorem project_names_witness:
  "\<exists>e p' w'. ProjectStore_Create calm_env Ctx (other_project\<lparr>Project_Name := ''demo''\<rparr>) sample_world =
     (Some e, p', w') \<and> outside sample_world w'"
proof -
  obtain r p' w' where c: "ProjectStore_Create calm_env Ctx (other_project\<lparr>Project_Name := ''demo''\<rparr>)
      sample_world = (r, p', w')"
    by (metis prod_cases3)
  have "Project_Name (other_project\<lparr>Project_Name := ''demo''\<rparr>) \<in> Project_Name ` set (projects sample_world)"
    by (simp add: sample_world_def)
  with project_names [OF c] c show ?thesis by auto
qed

text \<open>What a list query delivers: the rows that satisfy its condition, in the order of a column.\<close>

definition listing :: "('r \<Rightarrow> bool) \<Rightarrow> ('r \<Rightarrow> time) \<Rightarrow> 'r list \<Rightarrow> 'r list \<Rightarrow> bool" where
  "listing cond col rows xs \<longleftrightarrow> mset xs = filter_mset cond (mset rows) \<and> sorted (map col xs)"

lemma listing_sort: "listing cond col rows (sort_key col (filter cond rows))"
  by (simp add: listing_def)

lemma listing_all: "listing (\<lambda>_. True) col rows (sort_key col rows)"
  by (simp add: listing_def)

text \<open>
  The nine list operations deliver exactly the rows they ask for, each once, ordered by their
  creation (an execution by its submission), when the statement goes through.
\<close>

theorem lists_complete:
  assumes "db_up E c (tick w)"
  shows "(\<exists>xs. ProjectStore_List E c w = (Inr xs, tock w) \<and> listing (\<lambda>_. True) Project_CreatedAt (projects w) xs) \<and>
     (\<exists>xs. RepositoryStore_ListByProject E c pk w = (Inr xs, tock w) \<and> listing (\<lambda>q. Repository_ProjectID q = pk) Repository_CreatedAt (repositories w) xs) \<and>
     (\<exists>xs. PipelineStore_ListByRepository E c qk w = (Inr xs, tock w) \<and> listing (\<lambda>l. Pipeline_RepositoryID l = qk) Pipeline_CreatedAt (pipelines w) xs) \<and>
     (\<exists>xs. PipelineRunStore_ListByPipeline E c lk w = (Inr xs, tock w) \<and> listing (\<lambda>n. PipelineRun_PipelineID n = lk) PipelineRun_CreatedAt (pipeline_runs w) xs) \<and>
     (\<exists>xs. PipelineRunStore_ListByStatus E c s w = (Inr xs, tock w) \<and> listing (\<lambda>n. PipelineRun_Status n = s) PipelineRun_CreatedAt (pipeline_runs w) xs) \<and>
     (\<exists>xs. JobStore_ListByPipelineRun E c nk w = (Inr xs, tock w) \<and> listing (\<lambda>j. Job_PipelineRunID j = nk) Job_CreatedAt (jobs w) xs) \<and>
     (\<exists>xs. JobStepStore_ListByJob E c jk w = (Inr xs, tock w) \<and> listing (\<lambda>t. JobStep_JobID t = jk) JobStep_CreatedAt (job_steps w) xs) \<and>
     (\<exists>xs. ArtifactStore_ListByJob E c jk w = (Inr xs, tock w) \<and> listing (\<lambda>a. Artifact_JobID a = jk) Artifact_CreatedAt (artifacts w) xs) \<and>
     (\<exists>xs. ExecutionStore_ListByJobStep E c tk w = (Inr xs, tock w) \<and> listing (\<lambda>x. Execution_JobStepID x = tk) Execution_SubmittedAt (executions w) xs)"
  using assms
  by (simp add: ProjectStore_List_def RepositoryStore_ListByProject_def PipelineStore_ListByRepository_def
      PipelineRunStore_ListByPipeline_def PipelineRunStore_ListByStatus_def JobStore_ListByPipelineRun_def
      JobStepStore_ListByJob_def ArtifactStore_ListByJob_def ExecutionStore_ListByJobStep_def
      pool_call_up listing_sort listing_all)

theorem lists_complete_witness:
  "JobStore_ListByPipelineRun calm_env Ctx (PipelineRunID 4) sample_world = (Inr [sample_job], tock sample_world)"
proof -
  have "Job_PipelineRunID sample_job = PipelineRunID 4" by (simp add: sample_job_def)
  then show ?thesis
    using lists_complete [where E = calm_env and c = Ctx and w = sample_world and nk = "PipelineRunID 4"]
    by (auto simp: listing_def)
qed

end
