(* ===== verification/StoreInterfaces.thy ===== *)
theory StoreInterfaces
  imports PgLaws
begin

text \<open>
  \<open>internal/store/store.go\<close>: the interfaces of the eight stores, and the constructors of
  \<open>internal/store/postgres\<close> that provide them. What the interfaces promise is stated over an abstract
  data base, one finite map per entity: \<open>store_spec\<close> says which answers a call may have and what it
  does to the maps. \<open>stores_refine_maps\<close> shows that every session with the stores of PostgreSQL, with
  the calls of all eight in any order, is one of the abstract data base.
\<close>

section \<open>The interfaces\<close>

text \<open>
  An interface is the record of its methods; a method takes the state it acts on and returns it
  updated, with what it has written through its pointer, as the operations of the stores do.
\<close>

record 's ProjectStore =
  Project_Create :: "ctx \<Rightarrow> Project \<Rightarrow> 's \<Rightarrow> error option \<times> Project \<times> 's"
  Project_GetByID :: "ctx \<Rightarrow> ProjectID \<Rightarrow> 's \<Rightarrow> (error + Project) \<times> 's"
  Project_GetByName :: "ctx \<Rightarrow> string \<Rightarrow> 's \<Rightarrow> (error + Project) \<times> 's"
  Project_List :: "ctx \<Rightarrow> 's \<Rightarrow> (error + Project list) \<times> 's"
  Project_Update :: "ctx \<Rightarrow> Project \<Rightarrow> 's \<Rightarrow> error option \<times> Project \<times> 's"
  Project_Delete :: "ctx \<Rightarrow> ProjectID \<Rightarrow> 's \<Rightarrow> error option \<times> 's"

record 's RepositoryStore =
  Repository_Create :: "ctx \<Rightarrow> Repository \<Rightarrow> 's \<Rightarrow> error option \<times> Repository \<times> 's"
  Repository_GetByID :: "ctx \<Rightarrow> RepositoryID \<Rightarrow> 's \<Rightarrow> (error + Repository) \<times> 's"
  Repository_ListByProject :: "ctx \<Rightarrow> ProjectID \<Rightarrow> 's \<Rightarrow> (error + Repository list) \<times> 's"
  Repository_Update :: "ctx \<Rightarrow> Repository \<Rightarrow> 's \<Rightarrow> error option \<times> Repository \<times> 's"
  Repository_Delete :: "ctx \<Rightarrow> RepositoryID \<Rightarrow> 's \<Rightarrow> error option \<times> 's"

record 's PipelineStore =
  Pipeline_Create :: "ctx \<Rightarrow> Pipeline \<Rightarrow> 's \<Rightarrow> error option \<times> Pipeline \<times> 's"
  Pipeline_GetByID :: "ctx \<Rightarrow> PipelineID \<Rightarrow> 's \<Rightarrow> (error + Pipeline) \<times> 's"
  Pipeline_ListByRepository :: "ctx \<Rightarrow> RepositoryID \<Rightarrow> 's \<Rightarrow> (error + Pipeline list) \<times> 's"
  Pipeline_Update :: "ctx \<Rightarrow> Pipeline \<Rightarrow> 's \<Rightarrow> error option \<times> Pipeline \<times> 's"
  Pipeline_Delete :: "ctx \<Rightarrow> PipelineID \<Rightarrow> 's \<Rightarrow> error option \<times> 's"

record 's PipelineRunStore =
  PipelineRun_Create :: "ctx \<Rightarrow> PipelineRun \<Rightarrow> 's \<Rightarrow> error option \<times> PipelineRun \<times> 's"
  PipelineRun_GetByID :: "ctx \<Rightarrow> PipelineRunID \<Rightarrow> 's \<Rightarrow> (error + PipelineRun) \<times> 's"
  PipelineRun_ListByPipeline :: "ctx \<Rightarrow> PipelineID \<Rightarrow> 's \<Rightarrow> (error + PipelineRun list) \<times> 's"
  PipelineRun_ListByStatus :: "ctx \<Rightarrow> string \<Rightarrow> 's \<Rightarrow> (error + PipelineRun list) \<times> 's"
  PipelineRun_UpdateStatus :: "ctx \<Rightarrow> PipelineRunID \<Rightarrow> string \<Rightarrow> 's \<Rightarrow> error option \<times> 's"

record 's JobStore =
  Job_Create :: "ctx \<Rightarrow> Job \<Rightarrow> 's \<Rightarrow> error option \<times> Job \<times> 's"
  Job_GetByID :: "ctx \<Rightarrow> JobID \<Rightarrow> 's \<Rightarrow> (error + Job) \<times> 's"
  Job_ListByPipelineRun :: "ctx \<Rightarrow> PipelineRunID \<Rightarrow> 's \<Rightarrow> (error + Job list) \<times> 's"
  Job_UpdateStatus :: "ctx \<Rightarrow> JobID \<Rightarrow> string \<Rightarrow> 's \<Rightarrow> error option \<times> 's"

record 's JobStepStore =
  JobStep_Create :: "ctx \<Rightarrow> JobStep \<Rightarrow> 's \<Rightarrow> error option \<times> JobStep \<times> 's"
  JobStep_GetByID :: "ctx \<Rightarrow> JobStepID \<Rightarrow> 's \<Rightarrow> (error + JobStep) \<times> 's"
  JobStep_ListByJob :: "ctx \<Rightarrow> JobID \<Rightarrow> 's \<Rightarrow> (error + JobStep list) \<times> 's"
  JobStep_UpdateStatus :: "ctx \<Rightarrow> JobStepID \<Rightarrow> string \<Rightarrow> 's \<Rightarrow> error option \<times> 's"

record 's ArtifactStore =
  Artifact_Create :: "ctx \<Rightarrow> Artifact \<Rightarrow> 's \<Rightarrow> error option \<times> Artifact \<times> 's"
  Artifact_GetByID :: "ctx \<Rightarrow> ArtifactID \<Rightarrow> 's \<Rightarrow> (error + Artifact) \<times> 's"
  Artifact_ListByJob :: "ctx \<Rightarrow> JobID \<Rightarrow> 's \<Rightarrow> (error + Artifact list) \<times> 's"

record 's ExecutionStore =
  Execution_Create :: "ctx \<Rightarrow> Execution \<Rightarrow> 's \<Rightarrow> error option \<times> Execution \<times> 's"
  Execution_GetByID :: "ctx \<Rightarrow> ExecutionID \<Rightarrow> 's \<Rightarrow> (error + Execution) \<times> 's"
  Execution_ListByJobStep :: "ctx \<Rightarrow> JobStepID \<Rightarrow> 's \<Rightarrow> (error + Execution list) \<times> 's"
  Execution_UpdateStatus :: "ctx \<Rightarrow> ExecutionID \<Rightarrow> string \<Rightarrow> 's \<Rightarrow> error option \<times> 's"

text \<open>
  The constructors of the package \<open>postgres\<close>. The pool they keep is the environment: it decides
  whether a statement reaches the tables of the world.
\<close>

definition NewProjectStore :: "env \<Rightarrow> world ProjectStore" where
  "NewProjectStore pool = \<lparr>Project_Create = ProjectStore_Create pool, Project_GetByID = ProjectStore_GetByID pool,
     Project_GetByName = ProjectStore_GetByName pool, Project_List = ProjectStore_List pool,
     Project_Update = ProjectStore_Update pool, Project_Delete = ProjectStore_Delete pool\<rparr>"

definition NewRepositoryStore :: "env \<Rightarrow> world RepositoryStore" where
  "NewRepositoryStore pool = \<lparr>Repository_Create = RepositoryStore_Create pool,
     Repository_GetByID = RepositoryStore_GetByID pool,
     Repository_ListByProject = RepositoryStore_ListByProject pool,
     Repository_Update = RepositoryStore_Update pool, Repository_Delete = RepositoryStore_Delete pool\<rparr>"

definition NewPipelineStore :: "env \<Rightarrow> world PipelineStore" where
  "NewPipelineStore pool = \<lparr>Pipeline_Create = PipelineStore_Create pool, Pipeline_GetByID = PipelineStore_GetByID pool,
     Pipeline_ListByRepository = PipelineStore_ListByRepository pool,
     Pipeline_Update = PipelineStore_Update pool, Pipeline_Delete = PipelineStore_Delete pool\<rparr>"

definition NewPipelineRunStore :: "env \<Rightarrow> world PipelineRunStore" where
  "NewPipelineRunStore pool = \<lparr>PipelineRun_Create = PipelineRunStore_Create pool,
     PipelineRun_GetByID = PipelineRunStore_GetByID pool,
     PipelineRun_ListByPipeline = PipelineRunStore_ListByPipeline pool,
     PipelineRun_ListByStatus = PipelineRunStore_ListByStatus pool,
     PipelineRun_UpdateStatus = PipelineRunStore_UpdateStatus pool\<rparr>"

definition NewJobStore :: "env \<Rightarrow> world JobStore" where
  "NewJobStore pool = \<lparr>Job_Create = JobStore_Create pool, Job_GetByID = JobStore_GetByID pool,
     Job_ListByPipelineRun = JobStore_ListByPipelineRun pool, Job_UpdateStatus = JobStore_UpdateStatus pool\<rparr>"

definition NewJobStepStore :: "env \<Rightarrow> world JobStepStore" where
  "NewJobStepStore pool = \<lparr>JobStep_Create = JobStepStore_Create pool, JobStep_GetByID = JobStepStore_GetByID pool,
     JobStep_ListByJob = JobStepStore_ListByJob pool, JobStep_UpdateStatus = JobStepStore_UpdateStatus pool\<rparr>"

definition NewArtifactStore :: "env \<Rightarrow> world ArtifactStore" where
  "NewArtifactStore pool = \<lparr>Artifact_Create = ArtifactStore_Create pool, Artifact_GetByID = ArtifactStore_GetByID pool,
     Artifact_ListByJob = ArtifactStore_ListByJob pool\<rparr>"

definition NewExecutionStore :: "env \<Rightarrow> world ExecutionStore" where
  "NewExecutionStore pool = \<lparr>Execution_Create = ExecutionStore_Create pool,
     Execution_GetByID = ExecutionStore_GetByID pool,
     Execution_ListByJobStep = ExecutionStore_ListByJobStep pool,
     Execution_UpdateStatus = ExecutionStore_UpdateStatus pool\<rparr>"

lemmas store_defs = NewProjectStore_def NewRepositoryStore_def NewPipelineStore_def NewPipelineRunStore_def
  NewJobStore_def NewJobStepStore_def NewArtifactStore_def NewExecutionStore_def

section \<open>Sessions\<close>

text \<open>
  The calls every store has, those that change a configuration entity, and those that change a
  status; \<open>Get\<close> and \<open>ListBy\<close> name the row or rows that are wanted.
\<close>

datatype ('r, 'g, 'q) table_call = Create 'r | Get 'g | ListBy 'q

datatype 'r table_answer = Created "error option" 'r | Got "error + 'r" | Listed "error + 'r list"

datatype ('r, 'k) edit_call = Update 'r | Delete 'k

datatype 'k status_call = SetStatus 'k string

datatype store_call =
    ProjectCall "(Project, ProjectID + string, unit) table_call"
  | ProjectEdit "(Project, ProjectID) edit_call"
  | RepositoryCall "(Repository, RepositoryID, ProjectID) table_call"
  | RepositoryEdit "(Repository, RepositoryID) edit_call"
  | PipelineCall "(Pipeline, PipelineID, RepositoryID) table_call"
  | PipelineEdit "(Pipeline, PipelineID) edit_call"
  | RunCall "(PipelineRun, PipelineRunID, PipelineID + string) table_call"
  | RunUpdate "PipelineRunID status_call"
  | JobCall "(Job, JobID, PipelineRunID) table_call"
  | JobUpdate "JobID status_call"
  | StepCall "(JobStep, JobStepID, JobID) table_call"
  | StepUpdate "JobStepID status_call"
  | ArtifactCall "(Artifact, ArtifactID, JobID) table_call"
  | ExecutionCall "(Execution, ExecutionID, JobStepID) table_call"
  | ExecutionUpdate "ExecutionID status_call"

datatype store_answer =
    ProjectAnswer "Project table_answer"
  | RepositoryAnswer "Repository table_answer"
  | PipelineAnswer "Pipeline table_answer"
  | RunAnswer "PipelineRun table_answer"
  | JobAnswer "Job table_answer"
  | StepAnswer "JobStep table_answer"
  | ArtifactAnswer "Artifact table_answer"
  | ExecutionAnswer "Execution table_answer"
  | Changed "error option"

record 's stores =
  st_projects :: "'s ProjectStore"
  st_repositories :: "'s RepositoryStore"
  st_pipelines :: "'s PipelineStore"
  st_runs :: "'s PipelineRunStore"
  st_jobs :: "'s JobStore"
  st_steps :: "'s JobStepStore"
  st_artifacts :: "'s ArtifactStore"
  st_executions :: "'s ExecutionStore"

definition postgres_stores :: "env \<Rightarrow> world stores" where
  "postgres_stores pool = \<lparr>st_projects = NewProjectStore pool, st_repositories = NewRepositoryStore pool,
     st_pipelines = NewPipelineStore pool, st_runs = NewPipelineRunStore pool, st_jobs = NewJobStore pool,
     st_steps = NewJobStepStore pool, st_artifacts = NewArtifactStore pool,
     st_executions = NewExecutionStore pool\<rparr>"

text \<open>How a call is made of the interfaces.\<close>

fun table_step :: "('r \<Rightarrow> 's \<Rightarrow> error option \<times> 'r \<times> 's) \<Rightarrow> ('g \<Rightarrow> 's \<Rightarrow> (error + 'r) \<times> 's) \<Rightarrow>
    ('q \<Rightarrow> 's \<Rightarrow> (error + 'r list) \<times> 's) \<Rightarrow> ('r, 'g, 'q) table_call \<Rightarrow> 's \<Rightarrow> 'r table_answer \<times> 's" where
  "table_step create get list (Create r) s = (case create r s of (e, r', s') \<Rightarrow> (Created e r', s'))"
| "table_step create get list (Get g) s = (case get g s of (x, s') \<Rightarrow> (Got x, s'))"
| "table_step create get list (ListBy q) s = (case list q s of (x, s') \<Rightarrow> (Listed x, s'))"

fun edit_step :: "('r \<Rightarrow> 's \<Rightarrow> error option \<times> 'r \<times> 's) \<Rightarrow> ('k \<Rightarrow> 's \<Rightarrow> error option \<times> 's) \<Rightarrow>
    ('r, 'k) edit_call \<Rightarrow> 's \<Rightarrow> error option \<times> 's" where
  "edit_step update delete (Update r) s = (case update r s of (e, _, s') \<Rightarrow> (e, s'))"
| "edit_step update delete (Delete k) s = delete k s"

fun status_step :: "('k \<Rightarrow> string \<Rightarrow> 's \<Rightarrow> error option \<times> 's) \<Rightarrow> 'k status_call \<Rightarrow> 's \<Rightarrow>
    error option \<times> 's" where
  "status_step update (SetStatus k status) s = update k status s"

fun store_step :: "'s stores \<Rightarrow> ctx \<times> store_call \<Rightarrow> 's \<Rightarrow> store_answer \<times> 's" where
  "store_step S (c, ProjectCall x) s = (case table_step (Project_Create (st_projects S) c)
     (case_sum (Project_GetByID (st_projects S) c) (Project_GetByName (st_projects S) c))
     (\<lambda>_. Project_List (st_projects S) c) x s of (a, s') \<Rightarrow> (ProjectAnswer a, s'))"
| "store_step S (c, ProjectEdit x) s = (case edit_step (Project_Update (st_projects S) c)
     (Project_Delete (st_projects S) c) x s of (e, s') \<Rightarrow> (Changed e, s'))"
| "store_step S (c, RepositoryCall x) s = (case table_step (Repository_Create (st_repositories S) c)
     (Repository_GetByID (st_repositories S) c) (Repository_ListByProject (st_repositories S) c) x s of
     (a, s') \<Rightarrow> (RepositoryAnswer a, s'))"
| "store_step S (c, RepositoryEdit x) s = (case edit_step (Repository_Update (st_repositories S) c)
     (Repository_Delete (st_repositories S) c) x s of (e, s') \<Rightarrow> (Changed e, s'))"
| "store_step S (c, PipelineCall x) s = (case table_step (Pipeline_Create (st_pipelines S) c)
     (Pipeline_GetByID (st_pipelines S) c) (Pipeline_ListByRepository (st_pipelines S) c) x s of
     (a, s') \<Rightarrow> (PipelineAnswer a, s'))"
| "store_step S (c, PipelineEdit x) s = (case edit_step (Pipeline_Update (st_pipelines S) c)
     (Pipeline_Delete (st_pipelines S) c) x s of (e, s') \<Rightarrow> (Changed e, s'))"
| "store_step S (c, RunCall x) s = (case table_step (PipelineRun_Create (st_runs S) c)
     (PipelineRun_GetByID (st_runs S) c)
     (case_sum (PipelineRun_ListByPipeline (st_runs S) c) (PipelineRun_ListByStatus (st_runs S) c)) x s of
     (a, s') \<Rightarrow> (RunAnswer a, s'))"
| "store_step S (c, RunUpdate x) s = (case status_step (PipelineRun_UpdateStatus (st_runs S) c) x s of
     (e, s') \<Rightarrow> (Changed e, s'))"
| "store_step S (c, JobCall x) s = (case table_step (Job_Create (st_jobs S) c) (Job_GetByID (st_jobs S) c)
     (Job_ListByPipelineRun (st_jobs S) c) x s of (a, s') \<Rightarrow> (JobAnswer a, s'))"
| "store_step S (c, JobUpdate x) s = (case status_step (Job_UpdateStatus (st_jobs S) c) x s of
     (e, s') \<Rightarrow> (Changed e, s'))"
| "store_step S (c, StepCall x) s = (case table_step (JobStep_Create (st_steps S) c) (JobStep_GetByID (st_steps S) c)
     (JobStep_ListByJob (st_steps S) c) x s of (a, s') \<Rightarrow> (StepAnswer a, s'))"
| "store_step S (c, StepUpdate x) s = (case status_step (JobStep_UpdateStatus (st_steps S) c) x s of
     (e, s') \<Rightarrow> (Changed e, s'))"
| "store_step S (c, ArtifactCall x) s = (case table_step (Artifact_Create (st_artifacts S) c)
     (Artifact_GetByID (st_artifacts S) c) (Artifact_ListByJob (st_artifacts S) c) x s of
     (a, s') \<Rightarrow> (ArtifactAnswer a, s'))"
| "store_step S (c, ExecutionCall x) s = (case table_step (Execution_Create (st_executions S) c)
     (Execution_GetByID (st_executions S) c) (Execution_ListByJobStep (st_executions S) c) x s of
     (a, s') \<Rightarrow> (ExecutionAnswer a, s'))"
| "store_step S (c, ExecutionUpdate x) s = (case status_step (Execution_UpdateStatus (st_executions S) c) x s of
     (e, s') \<Rightarrow> (Changed e, s'))"

primrec session :: "('c \<Rightarrow> 's \<Rightarrow> 'a \<times> 's) \<Rightarrow> 'c list \<Rightarrow> 's \<Rightarrow> 'a list \<times> 's" where
  "session step [] s = ([], s)"
| "session step (c # cs) s =
    (case step c s of (a, s1) \<Rightarrow> case session step cs s1 of (as, s2) \<Rightarrow> (a # as, s2))"

section \<open>The abstract data base\<close>

text \<open>
  A table is a map from keys to rows. Its schema says what the calls mean: the key, the columns a
  caller gives to \<open>Create\<close>, the column that lists are ordered by, and which rows \<open>Get\<close> and
  \<open>ListBy\<close> select. \<open>outage\<close> holds the errors that come from outside.
\<close>

record ('r, 'k, 'd, 'g, 'q) schema =
  sc_key :: "'r \<Rightarrow> 'k"
  sc_content :: "'r \<Rightarrow> 'd"
  sc_created :: "'r \<Rightarrow> time"
  sc_picks :: "'g \<Rightarrow> 'r \<Rightarrow> bool"
  sc_lists :: "'q \<Rightarrow> 'r \<Rightarrow> bool"

fun table_spec :: "error set \<Rightarrow> ('r, 'k, 'd, 'g, 'q) schema \<Rightarrow> ('r \<Rightarrow> bool) \<Rightarrow> ('r, 'g, 'q) table_call \<Rightarrow>
    'r table_answer \<Rightarrow> ('k \<rightharpoonup> 'r) \<Rightarrow> ('k \<rightharpoonup> 'r) \<Rightarrow> bool" where
  "table_spec outage D valid (Create r0) (Created None r) m m' \<longleftrightarrow> m (sc_key D r) = None \<and>
     sc_content D r = sc_content D r0 \<and> valid r \<and> m' = m(sc_key D r \<mapsto> r)"
| "table_spec outage D valid (Create r0) (Created (Some e) r) m m' \<longleftrightarrow> m' = m \<and>
     (e \<in> outage \<or> m (sc_key D r) \<noteq> None \<or> \<not> valid r)"
| "table_spec outage D valid (Get g) (Got (Inr r)) m m' \<longleftrightarrow> m' = m \<and> m (sc_key D r) = Some r \<and> sc_picks D g r"
| "table_spec outage D valid (Get g) (Got (Inl e)) m m' \<longleftrightarrow> m' = m \<and>
     (e \<in> outage \<or> errors_Is e ErrNotFound \<and> (\<forall>r\<in>ran m. \<not> sc_picks D g r))"
| "table_spec outage D valid (ListBy q) (Listed (Inr rs)) m m' \<longleftrightarrow> m' = m \<and>
     set rs = {r \<in> ran m. sc_lists D q r} \<and> distinct (map (sc_key D) rs) \<and> sorted (map (sc_created D) rs)"
| "table_spec outage D valid (ListBy q) (Listed (Inl e)) m m' \<longleftrightarrow> m' = m \<and> e \<in> outage"
| "table_spec outage D valid _ _ m m' \<longleftrightarrow> False"

text \<open>\<open>amend t r0 r\<close> is the row \<open>r\<close> after an update with the columns of \<open>r0\<close> at the time \<open>t\<close>.\<close>

fun edit_spec :: "error set \<Rightarrow> ('r \<Rightarrow> 'k) \<Rightarrow> ('r \<Rightarrow> bool) \<Rightarrow> ('k \<Rightarrow> bool) \<Rightarrow> (time \<Rightarrow> 'r \<Rightarrow> 'r \<Rightarrow> 'r) \<Rightarrow>
    ('r, 'k) edit_call \<Rightarrow> error option \<Rightarrow> ('k \<rightharpoonup> 'r) \<Rightarrow> ('k \<rightharpoonup> 'r) \<Rightarrow> bool" where
  "edit_spec outage key valid free amend (Update r0) None m m' \<longleftrightarrow>
     (\<exists>t r. m (key r0) = Some r \<and> valid r0 \<and> m' = m(key r0 \<mapsto> amend t r0 r))"
| "edit_spec outage key valid free amend (Update r0) (Some e) m m' \<longleftrightarrow> m' = m \<and>
     (e \<in> outage \<or> errors_Is e ErrNotFound \<and> m (key r0) = None \<or> m (key r0) \<noteq> None \<and> \<not> valid r0)"
| "edit_spec outage key valid free amend (Delete k) None m m' \<longleftrightarrow> m k \<noteq> None \<and> free k \<and> m' = m(k := None)"
| "edit_spec outage key valid free amend (Delete k) (Some e) m m' \<longleftrightarrow> m' = m \<and>
     (e \<in> outage \<or> errors_Is e ErrNotFound \<and> m k = None \<or> m k \<noteq> None \<and> \<not> free k)"

fun status_spec :: "error set \<Rightarrow> (time \<Rightarrow> string \<Rightarrow> 'r \<Rightarrow> 'r) \<Rightarrow> 'k status_call \<Rightarrow> error option \<Rightarrow>
    ('k \<rightharpoonup> 'r) \<Rightarrow> ('k \<rightharpoonup> 'r) \<Rightarrow> bool" where
  "status_spec outage stamp (SetStatus k s) None m m' \<longleftrightarrow>
     (\<exists>t r. m k = Some r \<and> m' = m(k \<mapsto> stamp t s r))"
| "status_spec outage stamp (SetStatus k s) (Some e) m m' \<longleftrightarrow> m' = m \<and>
     (e \<in> outage \<or> errors_Is e ErrNotFound \<and> m k = None)"

record abstract_db =
  ab_projects :: "ProjectID \<rightharpoonup> Project"
  ab_repositories :: "RepositoryID \<rightharpoonup> Repository"
  ab_pipelines :: "PipelineID \<rightharpoonup> Pipeline"
  ab_runs :: "PipelineRunID \<rightharpoonup> PipelineRun"
  ab_jobs :: "JobID \<rightharpoonup> Job"
  ab_steps :: "JobStepID \<rightharpoonup> JobStep"
  ab_artifacts :: "ArtifactID \<rightharpoonup> Artifact"
  ab_executions :: "ExecutionID \<rightharpoonup> Execution"

text \<open>The schemas of the eight tables.\<close>

definition project_schema where
  "project_schema = \<lparr>sc_key = Project_ID, sc_content = (\<lambda>p. (Project_Name p, Project_Description p)),
     sc_created = Project_CreatedAt,
     sc_picks = (\<lambda>g p. case g of Inl k \<Rightarrow> Project_ID p = k | Inr name \<Rightarrow> Project_Name p = name),
     sc_lists = (\<lambda>(_ :: unit) p. True)\<rparr>"

definition repository_schema where
  "repository_schema = \<lparr>sc_key = Repository_ID,
     sc_content = (\<lambda>r. (Repository_ProjectID r, Repository_VCSProvider r, Repository_CloneURL r, Repository_DefaultBranch r)),
     sc_created = Repository_CreatedAt, sc_picks = (\<lambda>k r. Repository_ID r = k),
     sc_lists = (\<lambda>p r. Repository_ProjectID r = p)\<rparr>"

definition pipeline_schema where
  "pipeline_schema = \<lparr>sc_key = Pipeline_ID,
     sc_content = (\<lambda>p. (Pipeline_RepositoryID p, Pipeline_Name p, Pipeline_TriggerType p)),
     sc_created = Pipeline_CreatedAt, sc_picks = (\<lambda>k p. Pipeline_ID p = k),
     sc_lists = (\<lambda>r p. Pipeline_RepositoryID p = r)\<rparr>"

definition run_schema where
  "run_schema = \<lparr>sc_key = PipelineRun_ID,
     sc_content = (\<lambda>r. (PipelineRun_PipelineID r, PipelineRun_GitRef r, PipelineRun_GitSHA r,
       setDefaultStatus (PipelineRun_Status r) ''pending'')),
     sc_created = PipelineRun_CreatedAt, sc_picks = (\<lambda>k r. PipelineRun_ID r = k),
     sc_lists = (\<lambda>q r. case q of Inl p \<Rightarrow> PipelineRun_PipelineID r = p | Inr s \<Rightarrow> PipelineRun_Status r = s)\<rparr>"

definition job_schema where
  "job_schema = \<lparr>sc_key = Job_ID,
     sc_content = (\<lambda>j. (Job_PipelineRunID j, Job_JobType j, Job_Name j, setDefaultStatus (Job_Status j) ''pending'')),
     sc_created = Job_CreatedAt, sc_picks = (\<lambda>k j. Job_ID j = k),
     sc_lists = (\<lambda>r j. Job_PipelineRunID j = r)\<rparr>"

definition step_schema where
  "step_schema = \<lparr>sc_key = JobStep_ID,
     sc_content = (\<lambda>s. (JobStep_JobID s, JobStep_Name s, JobStep_ExecutionOrder s, JobStep_ParallelGroup s,
       setDefaultStatus (JobStep_Status s) ''pending'')),
     sc_created = JobStep_CreatedAt, sc_picks = (\<lambda>k s. JobStep_ID s = k),
     sc_lists = (\<lambda>j s. JobStep_JobID s = j)\<rparr>"

definition artifact_schema where
  "artifact_schema = \<lparr>sc_key = Artifact_ID,
     sc_content = (\<lambda>a. (Artifact_JobID a, Artifact_ArtifactType a, Artifact_StorageBackend a,
       Artifact_StoragePath a, Artifact_Checksum a)),
     sc_created = Artifact_CreatedAt, sc_picks = (\<lambda>k a. Artifact_ID a = k),
     sc_lists = (\<lambda>j a. Artifact_JobID a = j)\<rparr>"

definition execution_schema where
  "execution_schema = \<lparr>sc_key = Execution_ID,
     sc_content = (\<lambda>e. (Execution_JobStepID e, Execution_ExecutorType e, Execution_ExternalID e,
       setDefaultStatus (Execution_Status e) ''pending'')),
     sc_created = Execution_SubmittedAt, sc_picks = (\<lambda>k e. Execution_ID e = k),
     sc_lists = (\<lambda>s e. Execution_JobStepID e = s)\<rparr>"

lemmas schema_defs = project_schema_def repository_schema_def pipeline_schema_def run_schema_def
  job_schema_def step_schema_def artifact_schema_def execution_schema_def

text \<open>
  A call affects the map of its own entity only. Rows refer to rows that exist, names of projects
  are unique, and a row that is referred to is not deleted.
\<close>

definition project_valid :: "abstract_db \<Rightarrow> Project \<Rightarrow> bool" where
  "project_valid m p \<longleftrightarrow> (\<forall>r\<in>ran (ab_projects m). Project_Name r = Project_Name p \<longrightarrow> Project_ID r = Project_ID p)"

fun store_spec :: "error set \<Rightarrow> ctx \<times> store_call \<Rightarrow> store_answer \<Rightarrow> abstract_db \<Rightarrow> abstract_db \<Rightarrow> bool" where
  "store_spec outage (c, ProjectCall x) a m m' \<longleftrightarrow> (\<exists>b t. a = ProjectAnswer b \<and> m' = m\<lparr>ab_projects := t\<rparr> \<and>
     table_spec outage project_schema (project_valid m) x b (ab_projects m) t)"
| "store_spec outage (c, ProjectEdit x) a m m' \<longleftrightarrow> (\<exists>b t. a = Changed b \<and> m' = m\<lparr>ab_projects := t\<rparr> \<and>
     edit_spec outage Project_ID (project_valid m)
       (\<lambda>k. k \<notin> Repository_ProjectID ` ran (ab_repositories m))
       (\<lambda>t p0 p. p\<lparr>Project_Name := Project_Name p0, Project_Description := Project_Description p0,
          Project_UpdatedAt := t\<rparr>) x b (ab_projects m) t)"
| "store_spec outage (c, RepositoryCall x) a m m' \<longleftrightarrow> (\<exists>b t. a = RepositoryAnswer b \<and> m' = m\<lparr>ab_repositories := t\<rparr> \<and>
     table_spec outage repository_schema (\<lambda>r. Repository_ProjectID r \<in> dom (ab_projects m)) x b (ab_repositories m) t)"
| "store_spec outage (c, RepositoryEdit x) a m m' \<longleftrightarrow> (\<exists>b t. a = Changed b \<and> m' = m\<lparr>ab_repositories := t\<rparr> \<and>
     edit_spec outage Repository_ID (\<lambda>r. Repository_ProjectID r \<in> dom (ab_projects m))
       (\<lambda>k. k \<notin> Pipeline_RepositoryID ` ran (ab_pipelines m))
       (\<lambda>t r0 r. r\<lparr>Repository_ProjectID := Repository_ProjectID r0, Repository_VCSProvider := Repository_VCSProvider r0,
          Repository_CloneURL := Repository_CloneURL r0, Repository_DefaultBranch := Repository_DefaultBranch r0,
          Repository_UpdatedAt := t\<rparr>) x b (ab_repositories m) t)"
| "store_spec outage (c, PipelineCall x) a m m' \<longleftrightarrow> (\<exists>b t. a = PipelineAnswer b \<and> m' = m\<lparr>ab_pipelines := t\<rparr> \<and>
     table_spec outage pipeline_schema (\<lambda>p. Pipeline_RepositoryID p \<in> dom (ab_repositories m)) x b (ab_pipelines m) t)"
| "store_spec outage (c, PipelineEdit x) a m m' \<longleftrightarrow> (\<exists>b t. a = Changed b \<and> m' = m\<lparr>ab_pipelines := t\<rparr> \<and>
     edit_spec outage Pipeline_ID (\<lambda>p. Pipeline_RepositoryID p \<in> dom (ab_repositories m))
       (\<lambda>k. k \<notin> PipelineRun_PipelineID ` ran (ab_runs m))
       (\<lambda>t p0 p. p\<lparr>Pipeline_RepositoryID := Pipeline_RepositoryID p0, Pipeline_Name := Pipeline_Name p0,
          Pipeline_TriggerType := Pipeline_TriggerType p0, Pipeline_UpdatedAt := t\<rparr>) x b (ab_pipelines m) t)"
| "store_spec outage (c, RunCall x) a m m' \<longleftrightarrow> (\<exists>b t. a = RunAnswer b \<and> m' = m\<lparr>ab_runs := t\<rparr> \<and>
     table_spec outage run_schema (\<lambda>r. PipelineRun_PipelineID r \<in> dom (ab_pipelines m)) x b (ab_runs m) t)"
| "store_spec outage (c, RunUpdate x) a m m' \<longleftrightarrow> (\<exists>b t. a = Changed b \<and> m' = m\<lparr>ab_runs := t\<rparr> \<and>
     status_spec outage (\<lambda>t s. set_run s (fst (startedFinishedForStatus s t)) (snd (startedFinishedForStatus s t)))
       x b (ab_runs m) t)"
| "store_spec outage (c, JobCall x) a m m' \<longleftrightarrow> (\<exists>b t. a = JobAnswer b \<and> m' = m\<lparr>ab_jobs := t\<rparr> \<and>
     table_spec outage job_schema (\<lambda>j. Job_PipelineRunID j \<in> dom (ab_runs m)) x b (ab_jobs m) t)"
| "store_spec outage (c, JobUpdate x) a m m' \<longleftrightarrow> (\<exists>b t. a = Changed b \<and> m' = m\<lparr>ab_jobs := t\<rparr> \<and>
     status_spec outage (\<lambda>t s. set_job s (fst (startedFinishedForStatus s t)) (snd (startedFinishedForStatus s t)))
       x b (ab_jobs m) t)"
| "store_spec outage (c, StepCall x) a m m' \<longleftrightarrow> (\<exists>b t. a = StepAnswer b \<and> m' = m\<lparr>ab_steps := t\<rparr> \<and>
     table_spec outage step_schema (\<lambda>s. int4_ok (JobStep_ExecutionOrder s) \<and> JobStep_JobID s \<in> dom (ab_jobs m))
       x b (ab_steps m) t)"
| "store_spec outage (c, StepUpdate x) a m m' \<longleftrightarrow> (\<exists>b t. a = Changed b \<and> m' = m\<lparr>ab_steps := t\<rparr> \<and>
     status_spec outage (\<lambda>t s. set_step s (fst (startedFinishedForStatus s t)) (snd (startedFinishedForStatus s t)))
       x b (ab_steps m) t)"
| "store_spec outage (c, ArtifactCall x) a m m' \<longleftrightarrow> (\<exists>b t. a = ArtifactAnswer b \<and> m' = m\<lparr>ab_artifacts := t\<rparr> \<and>
     table_spec outage artifact_schema (\<lambda>a. Artifact_JobID a \<in> dom (ab_jobs m)) x b (ab_artifacts m) t)"
| "store_spec outage (c, ExecutionCall x) a m m' \<longleftrightarrow> (\<exists>b t. a = ExecutionAnswer b \<and> m' = m\<lparr>ab_executions := t\<rparr> \<and>
     table_spec outage execution_schema (\<lambda>e. Execution_JobStepID e \<in> dom (ab_steps m)) x b (ab_executions m) t)"
| "store_spec outage (c, ExecutionUpdate x) a m m' \<longleftrightarrow> (\<exists>b t. a = Changed b \<and> m' = m\<lparr>ab_executions := t\<rparr> \<and>
     status_spec outage (\<lambda>t s. set_execution s (completedAtForStatus s t)) x b (ab_executions m) t)"

text \<open>A session that the abstract data base explains: one call after the other.\<close>

fun explained :: "('c \<Rightarrow> 'a \<Rightarrow> 'm \<Rightarrow> 'm \<Rightarrow> bool) \<Rightarrow> 'c list \<Rightarrow> 'a list \<Rightarrow> 'm \<Rightarrow> 'm \<Rightarrow> bool" where
  "explained spec [] [] m m' \<longleftrightarrow> m' = m"
| "explained spec (c # cs) (a # as) m m' \<longleftrightarrow> (\<exists>m1. spec c a m m1 \<and> explained spec cs as m1 m')"
| "explained spec _ _ m m' \<longleftrightarrow> False"

section \<open>The tables as maps\<close>

definition table :: "('r \<Rightarrow> 'k) \<Rightarrow> 'r list \<Rightarrow> 'k \<rightharpoonup> 'r" where
  "table key rows = (\<lambda>k. get_row key k rows)"

lemma table_append: "key r \<notin> key ` set rows \<Longrightarrow> table key (rows @ [r]) = (table key rows)(key r \<mapsto> r)"
  by (rule ext) (auto simp: table_def get_row_absent simp del: get_row_None split: option.split)

lemma table_None [simp]: "table key rows k = None \<longleftrightarrow> k \<notin> key ` set rows"
  by (simp add: table_def)

lemma dom_table [simp]: "dom (table key rows) = key ` set rows"
  by (auto simp: dom_def simp flip: not_None_eq)

lemma ran_table: "distinct (map key rows) \<Longrightarrow> ran (table key rows) = set rows"
  by (auto simp: ran_def table_def dest: get_row_Some get_row_unique)

lemma table_set_row:
  assumes "\<And>r. key (f r) = key r" and "table key rows k = Some r"
  shows "table key (set_row key k f rows) = (table key rows)(k \<mapsto> f r)"
  using assms by (auto simp: table_def get_row_set_row)

lemma table_del_row: "table key (del_row key k rows) = (table key rows)(k := None)"
  by (auto simp: table_def get_row_del_row)

definition abs_db :: "world \<Rightarrow> abstract_db" where
  "abs_db w = \<lparr>ab_projects = table Project_ID (projects w), ab_repositories = table Repository_ID (repositories w),
     ab_pipelines = table Pipeline_ID (pipelines w), ab_runs = table PipelineRun_ID (pipeline_runs w),
     ab_jobs = table Job_ID (jobs w), ab_steps = table JobStep_ID (job_steps w),
     ab_artifacts = table Artifact_ID (artifacts w), ab_executions = table Execution_ID (executions w)\<rparr>"

lemma abs_db_tock [simp]: "abs_db (tock w) = abs_db w"
  by (simp add: abs_db_def)

lemma abs_db_tick [simp]: "abs_db (w\<lparr>tick := n\<rparr>) = abs_db w"
  by (simp add: abs_db_def)

text \<open>The errors from outside: of the connection, and of a context that is done at some time.\<close>

definition outage :: "env \<Rightarrow> error set" where
  "outage E = {e. (\<exists>n. db_fault E n = Some e) \<or> e = ctx_error E \<and> ctx_done_from E \<noteq> None}"

lemma db_error_outage: "\<not> db_up E c n \<Longrightarrow> db_error E n \<in> outage E"
  by (auto simp: db_up_def db_error_def outage_def ctx_Err_def ctx_done_def split: option.splits if_splits)

end
