(* ===== verification/StoreRefinement.thy ===== *)
theory StoreRefinement
  imports StoreInterfaces
begin

text \<open>
  The stores of PostgreSQL refine the abstract data base of \<open>StoreInterfaces\<close>: the three shapes of a
  call over a table that is a list of rows, the calls of each store, and sessions.
\<close>

section \<open>The shapes of a call\<close>

lemma wrapNoRows_other:
  "\<not> errors_Is e ErrNoRows \<Longrightarrow> wrapNoRowsByID s i e = e"
  "\<not> errors_Is e ErrNoRows \<Longrightarrow> wrapNoRowsByName s n e = e"
  by (simp_all add: wrapNoRowsByID_def wrapNoRowsByName_def)

lemma get_spec:
  assumes "distinct (map (sc_key D) rows)" and "\<And>r. sc_picks D g r \<longleftrightarrow> sel r = h"
    and "x = (if up then (case get_row sel h rows of None \<Rightarrow> Inl e | Some r \<Rightarrow> Inr r) else Inl e')"
    and "errors_Is e ErrNotFound" and "\<not> up \<Longrightarrow> e' \<in> X"
  shows "table_spec X D valid (Get g) (Got x) (table (sc_key D) rows) (table (sc_key D) rows)"
proof (cases "up \<and> h \<in> sel ` set rows")
  case True
  then obtain r where r: "get_row sel h rows = Some r"
    by (metis get_row_None not_None_eq)
  with assms(1,2) True get_row_Some [OF r] get_row_unique [of "sc_key D" rows r] show ?thesis
    by (simp add: assms(3) table_def)
next
  case False
  with assms show ?thesis
    by (cases up) (auto simp: ran_table get_row_absent simp del: get_row_None)
qed

lemma list_spec:
  assumes "distinct (map (sc_key D) rows)"
  shows "table_spec X D valid (ListBy q) (Listed (Inr (sort_key (sc_created D) (filter (sc_lists D q) rows))))
    (table (sc_key D) rows) (table (sc_key D) rows)"
proof -
  have "distinct (map (sc_key D) (sort_key (sc_created D) (filter (sc_lists D q) rows)))"
    using distinct_map_filter [OF assms(1)] by (simp add: distinct_map)
  with assms show ?thesis by (auto simp: ran_table)
qed

lemma create_spec:
  assumes "e = None \<and> rows' = rows @ [r] \<and> sc_key D r \<notin> sc_key D ` set rows \<and> sc_content D r = sc_content D r0 \<and> valid r \<or>
    (\<exists>f. e = Some f \<and> rows' = rows \<and> (f \<in> X \<or> sc_key D r \<in> sc_key D ` set rows \<or> \<not> valid r))"
  shows "table_spec X D valid (Create r0) (Created e r) (table (sc_key D) rows) (table (sc_key D) rows')"
  using assms by (auto simp: table_append)

lemma update_spec:
  assumes "\<And>r. key (amend t r0 r) = key r"
    and "e = (if \<not> up then Some f else if key r0 \<in> key ` set rows \<and> \<not> valid r0 then Some g
              else ensureRowsAffected (hits key (key r0) rows) n i)"
    and "rows' = (if \<not> up \<or> key r0 \<in> key ` set rows \<and> \<not> valid r0 then rows
              else set_row key (key r0) (amend t r0) rows)"
    and "\<not> up \<Longrightarrow> f \<in> X"
  shows "edit_spec X key valid free amend (Update r0) e (table key rows) (table key rows')"
proof (cases "up \<and> key r0 \<in> key ` set rows \<and> valid r0")
  case True
  then obtain r where "table key rows (key r0) = Some r"
    by (metis table_None not_None_eq)
  with True assms table_set_row [of key "amend t r0" rows "key r0" r] show ?thesis
    by (auto simp: ensureRowsAffected_def)
next
  case False
  with assms show ?thesis
    by (cases up; cases "key r0 \<in> key ` set rows") (auto simp: ensureRowsAffected_def)
qed

lemma delete_spec:
  assumes "e = (if \<not> up then Some f else if k \<in> key ` set rows \<and> \<not> free k then Some g
              else ensureRowsAffected (hits key k rows) n i)"
    and "rows' = (if \<not> up \<or> k \<in> key ` set rows \<and> \<not> free k then rows else del_row key k rows)"
    and "\<not> up \<Longrightarrow> f \<in> X"
  shows "edit_spec X key valid free amend (Delete k) e (table key rows) (table key rows')"
  using assms by (cases up; cases "k \<in> key ` set rows") (auto simp: ensureRowsAffected_def table_del_row del_row_absent)

lemma set_status_spec:
  assumes "\<And>r. key (stamp t s r) = key r"
    and "e = (if \<not> up then Some f else ensureRowsAffected (hits key k rows) n i)"
    and "rows' = (if \<not> up then rows else set_row key k (stamp t s) rows)" and "\<not> up \<Longrightarrow> f \<in> X"
  shows "status_spec X stamp (SetStatus k s) e (table key rows) (table key rows')"
proof (cases "up \<and> k \<in> key ` set rows")
  case True
  then obtain r where "table key rows k = Some r"
    by (metis table_None not_None_eq)
  with True assms table_set_row [of key "stamp t s" rows k r] show ?thesis
    by (auto simp: ensureRowsAffected_def)
next
  case False
  with assms show ?thesis
    by (cases up) (auto simp: ensureRowsAffected_def)
qed

section \<open>Creating\<close>

text \<open>Why a Create fails.\<close>

lemmas create_eqs = create_defs setCreatedUpdated_def pool_call_eq Let_def db_error_outage

lemma Create_refused:
  "ProjectStore_Create E c p w = (Some e, p', w') \<Longrightarrow> e \<in> outage E \<or>
     Project_ID p' \<in> Project_ID ` set (projects w) \<or> Project_Name p' \<in> Project_Name ` set (projects w)"
  "RepositoryStore_Create E c q w = (Some e, q', w') \<Longrightarrow> e \<in> outage E \<or>
     Repository_ID q' \<in> Repository_ID ` set (repositories w) \<or> Repository_ProjectID q' \<notin> Project_ID ` set (projects w)"
  "PipelineStore_Create E c l w = (Some e, l', w') \<Longrightarrow> e \<in> outage E \<or>
     Pipeline_ID l' \<in> Pipeline_ID ` set (pipelines w) \<or> Pipeline_RepositoryID l' \<notin> Repository_ID ` set (repositories w)"
  "PipelineRunStore_Create E c n w = (Some e, n', w') \<Longrightarrow> e \<in> outage E \<or>
     PipelineRun_ID n' \<in> PipelineRun_ID ` set (pipeline_runs w) \<or> PipelineRun_PipelineID n' \<notin> Pipeline_ID ` set (pipelines w)"
  "JobStore_Create E c j w = (Some e, j', w') \<Longrightarrow> e \<in> outage E \<or>
     Job_ID j' \<in> Job_ID ` set (jobs w) \<or> Job_PipelineRunID j' \<notin> PipelineRun_ID ` set (pipeline_runs w)"
  "JobStepStore_Create E c t w = (Some e, t', w') \<Longrightarrow> e \<in> outage E \<or> JobStep_ID t' \<in> JobStep_ID ` set (job_steps w) \<or>
     \<not> int4_ok (JobStep_ExecutionOrder t') \<or> JobStep_JobID t' \<notin> Job_ID ` set (jobs w)"
  "ArtifactStore_Create E c a w = (Some e, a', w') \<Longrightarrow> e \<in> outage E \<or>
     Artifact_ID a' \<in> Artifact_ID ` set (artifacts w) \<or> Artifact_JobID a' \<notin> Job_ID ` set (jobs w)"
  "ExecutionStore_Create E c x w = (Some e, x', w') \<Longrightarrow> e \<in> outage E \<or>
     Execution_ID x' \<in> Execution_ID ` set (executions w) \<or> Execution_JobStepID x' \<notin> JobStep_ID ` set (job_steps w)"
         apply (rule ensureID_cases [of ProjectID rawProjectID E "Project_ID p" w],
      auto simp: ProjectStore_Create_def insert_project_def create_eqs split: if_splits)[1]
        apply (rule ensureID_cases [of RepositoryID rawRepositoryID E "Repository_ID q" w],
      auto simp: RepositoryStore_Create_def insert_repository_def create_eqs split: if_splits)[1]
       apply (rule ensureID_cases [of PipelineID rawPipelineID E "Pipeline_ID l" w],
      auto simp: PipelineStore_Create_def insert_pipeline_def create_eqs split: if_splits)[1]
      apply (rule ensureID_cases [of PipelineRunID rawPipelineRunID E "PipelineRun_ID n" w],
      auto simp: PipelineRunStore_Create_def insert_pipeline_run_def create_eqs split: if_splits)[1]
     apply (rule ensureID_cases [of JobID rawJobID E "Job_ID j" w],
      auto simp: JobStore_Create_def insert_job_def create_eqs split: if_splits)[1]
    apply (rule ensureID_cases [of JobStepID rawJobStepID E "JobStep_ID t" w],
      auto simp: JobStepStore_Create_def insert_job_step_def create_eqs split: if_splits)[1]
   apply (rule ensureID_cases [of ArtifactID rawArtifactID E "Artifact_ID a" w],
      auto simp: ArtifactStore_Create_def insert_artifact_def create_eqs split: if_splits)[1]
  apply (rule ensureID_cases [of ExecutionID rawExecutionID E "Execution_ID x" w],
      auto simp: ExecutionStore_Create_def insert_execution_def create_eqs split: if_splits)[1]
  done

lemma setDefaultStatus_twice [simp]:
  "setDefaultStatus (setDefaultStatus s ''pending'') ''pending'' = setDefaultStatus s ''pending''"
  by (simp add: setDefaultStatus_def)

lemma JobStep_created_order:
  "JobStepStore_Create E c t w = (None, t', w') \<Longrightarrow> int4_ok (JobStep_ExecutionOrder t')"
  by (rule ensureID_cases [of JobStepID rawJobStepID E "JobStep_ID t" w],
      auto simp: JobStepStore_Create_def insert_job_step_def create_eqs split: if_splits)

text \<open>For each store: what a Create leaves of the abstract data base, and its answer.\<close>

lemma project_create:
  assumes "ProjectStore_Create E c p w = (e, p', w')"
  shows "abs_db w' = abs_db w\<lparr>ab_projects := table Project_ID (projects w')\<rparr> \<and>
    table_spec (outage E) project_schema (\<lambda>p. \<forall>r\<in>set (projects w). Project_Name r = Project_Name p \<longrightarrow> Project_ID r = Project_ID p) (Create p) (Created e p')
      (table Project_ID (projects w)) (table Project_ID (projects w'))"
proof (cases rule: ProjectStore_Create_cases [of E c p w])
  case (failed f r k)
  with assms have "e = Some f" "w' = w\<lparr>tick := k\<rparr>" by simp_all
  with Create_refused(1) [of E c p w f p' w'] assms show ?thesis
    by (auto simp: abs_db_def project_schema_def intro: rev_image_eqI)
next
  case (created r i s k)
  with assms have "e = None" "p' = r" "w' = w\<lparr>tick := k, projects := projects w @ [r]\<rparr>" by auto
  with created show ?thesis by (auto simp: abs_db_def project_schema_def table_append image_iff)
qed

lemma repository_create:
  assumes "RepositoryStore_Create E c q w = (e, q', w')"
  shows "abs_db w' = abs_db w\<lparr>ab_repositories := table Repository_ID (repositories w')\<rparr> \<and>
    table_spec (outage E) repository_schema (\<lambda>r. Repository_ProjectID r \<in> Project_ID ` set (projects w)) (Create q) (Created e q')
      (table Repository_ID (repositories w)) (table Repository_ID (repositories w'))"
proof (cases rule: RepositoryStore_Create_cases [of E c q w])
  case (failed f r k)
  with assms have "e = Some f" "w' = w\<lparr>tick := k\<rparr>" by simp_all
  with Create_refused(2) [of E c q w f q' w'] assms show ?thesis
    by (auto simp: abs_db_def repository_schema_def)
next
  case (created r i s k)
  with assms have "e = None" "q' = r" "w' = w\<lparr>tick := k, repositories := repositories w @ [r]\<rparr>" by auto
  with created show ?thesis by (auto simp: abs_db_def repository_schema_def table_append)
qed

lemma pipeline_create:
  assumes "PipelineStore_Create E c l w = (e, l', w')"
  shows "abs_db w' = abs_db w\<lparr>ab_pipelines := table Pipeline_ID (pipelines w')\<rparr> \<and>
    table_spec (outage E) pipeline_schema (\<lambda>l. Pipeline_RepositoryID l \<in> Repository_ID ` set (repositories w)) (Create l) (Created e l')
      (table Pipeline_ID (pipelines w)) (table Pipeline_ID (pipelines w'))"
proof (cases rule: PipelineStore_Create_cases [of E c l w])
  case (failed f r k)
  with assms have "e = Some f" "w' = w\<lparr>tick := k\<rparr>" by simp_all
  with Create_refused(3) [of E c l w f l' w'] assms show ?thesis
    by (auto simp: abs_db_def pipeline_schema_def)
next
  case (created r i s k)
  with assms have "e = None" "l' = r" "w' = w\<lparr>tick := k, pipelines := pipelines w @ [r]\<rparr>" by auto
  with created show ?thesis by (auto simp: abs_db_def pipeline_schema_def table_append)
qed

lemma run_create:
  assumes "PipelineRunStore_Create E c n w = (e, n', w')"
  shows "abs_db w' = abs_db w\<lparr>ab_runs := table PipelineRun_ID (pipeline_runs w')\<rparr> \<and>
    table_spec (outage E) run_schema (\<lambda>n. PipelineRun_PipelineID n \<in> Pipeline_ID ` set (pipelines w)) (Create n) (Created e n')
      (table PipelineRun_ID (pipeline_runs w)) (table PipelineRun_ID (pipeline_runs w'))"
proof (cases rule: PipelineRunStore_Create_cases [of E c n w])
  case (failed f r k)
  with assms have "e = Some f" "w' = w\<lparr>tick := k\<rparr>" by simp_all
  with Create_refused(4) [of E c n w f n' w'] assms show ?thesis
    by (auto simp: abs_db_def run_schema_def)
next
  case (created r i s k)
  with assms have "e = None" "n' = r" "w' = w\<lparr>tick := k, pipeline_runs := pipeline_runs w @ [r]\<rparr>" by auto
  with created show ?thesis by (auto simp: abs_db_def run_schema_def table_append)
qed

lemma job_create:
  assumes "JobStore_Create E c j w = (e, j', w')"
  shows "abs_db w' = abs_db w\<lparr>ab_jobs := table Job_ID (jobs w')\<rparr> \<and>
    table_spec (outage E) job_schema (\<lambda>j. Job_PipelineRunID j \<in> PipelineRun_ID ` set (pipeline_runs w)) (Create j) (Created e j')
      (table Job_ID (jobs w)) (table Job_ID (jobs w'))"
proof (cases rule: JobStore_Create_cases [of E c j w])
  case (failed f r k)
  with assms have "e = Some f" "w' = w\<lparr>tick := k\<rparr>" by simp_all
  with Create_refused(5) [of E c j w f j' w'] assms show ?thesis
    by (auto simp: abs_db_def job_schema_def)
next
  case (created r i s k)
  with assms have "e = None" "j' = r" "w' = w\<lparr>tick := k, jobs := jobs w @ [r]\<rparr>" by auto
  with created show ?thesis by (auto simp: abs_db_def job_schema_def table_append)
qed

lemma step_create:
  assumes "JobStepStore_Create E c t w = (e, t', w')"
  shows "abs_db w' = abs_db w\<lparr>ab_steps := table JobStep_ID (job_steps w')\<rparr> \<and>
    table_spec (outage E) step_schema (\<lambda>t. int4_ok (JobStep_ExecutionOrder t) \<and> JobStep_JobID t \<in> Job_ID ` set (jobs w)) (Create t) (Created e t')
      (table JobStep_ID (job_steps w)) (table JobStep_ID (job_steps w'))"
proof (cases rule: JobStepStore_Create_cases [of E c t w])
  case (failed f r k)
  with assms have "e = Some f" "w' = w\<lparr>tick := k\<rparr>" by simp_all
  with Create_refused(6) [of E c t w f t' w'] assms show ?thesis
    by (auto simp: abs_db_def step_schema_def)
next
  case (created r i s k)
  with assms have "e = None" "t' = r" "w' = w\<lparr>tick := k, job_steps := job_steps w @ [r]\<rparr>" by auto
  with created JobStep_created_order [of E c t w] assms show ?thesis by (auto simp: abs_db_def step_schema_def table_append)
qed

lemma artifact_create:
  assumes "ArtifactStore_Create E c a w = (e, a', w')"
  shows "abs_db w' = abs_db w\<lparr>ab_artifacts := table Artifact_ID (artifacts w')\<rparr> \<and>
    table_spec (outage E) artifact_schema (\<lambda>a. Artifact_JobID a \<in> Job_ID ` set (jobs w)) (Create a) (Created e a')
      (table Artifact_ID (artifacts w)) (table Artifact_ID (artifacts w'))"
proof (cases rule: ArtifactStore_Create_cases [of E c a w])
  case (failed f r k)
  with assms have "e = Some f" "w' = w\<lparr>tick := k\<rparr>" by simp_all
  with Create_refused(7) [of E c a w f a' w'] assms show ?thesis
    by (auto simp: abs_db_def artifact_schema_def)
next
  case (created r i s k)
  with assms have "e = None" "a' = r" "w' = w\<lparr>tick := k, artifacts := artifacts w @ [r]\<rparr>" by auto
  with created show ?thesis by (auto simp: abs_db_def artifact_schema_def table_append)
qed

lemma execution_create:
  assumes "ExecutionStore_Create E c x w = (e, x', w')"
  shows "abs_db w' = abs_db w\<lparr>ab_executions := table Execution_ID (executions w')\<rparr> \<and>
    table_spec (outage E) execution_schema (\<lambda>x. Execution_JobStepID x \<in> JobStep_ID ` set (job_steps w)) (Create x) (Created e x')
      (table Execution_ID (executions w)) (table Execution_ID (executions w'))"
proof (cases rule: ExecutionStore_Create_cases [of E c x w])
  case (failed f r k)
  with assms have "e = Some f" "w' = w\<lparr>tick := k\<rparr>" by simp_all
  with Create_refused(8) [of E c x w f x' w'] assms show ?thesis
    by (auto simp: abs_db_def execution_schema_def)
next
  case (created r i s k)
  with assms have "e = None" "x' = r" "w' = w\<lparr>tick := k, executions := executions w @ [r]\<rparr>" by auto
  with created show ?thesis by (auto simp: abs_db_def execution_schema_def table_append)
qed

section \<open>Reading\<close>

lemma tables_distinct:
  assumes "wf_db w"
  shows "distinct (map Project_ID (projects w))" "distinct (map Repository_ID (repositories w))" "distinct (map Pipeline_ID (pipelines w))" "distinct (map PipelineRun_ID (pipeline_runs w))" "distinct (map Job_ID (jobs w))" "distinct (map JobStep_ID (job_steps w))" "distinct (map Artifact_ID (artifacts w))" "distinct (map Execution_ID (executions w))"
  using assms by (simp_all add: wf_db_defs)

text \<open>A read changes nothing; the errors of the library do not claim that a row is missing.\<close>

definition honest :: "env \<Rightarrow> bool" where
  "honest E \<longleftrightarrow> (\<forall>e\<in>outage E. \<not> errors_Is e ErrNoRows)"

lemma honest_error: "honest E \<Longrightarrow> \<not> db_up E c n \<Longrightarrow> \<not> errors_Is (db_error E n) ErrNoRows"
  using db_error_outage by (auto simp: honest_def)

lemma project_get:
  assumes "wf_db w" and "honest E" and "ProjectStore_GetByID E c k w = (x, w')"
  shows "w' = tock w \<and> table_spec (outage E) project_schema valid (Get (Inl k)) (Got x)
    (table Project_ID (projects w)) (table Project_ID (projects w))"
  using get_spec [of project_schema "projects w" "Inl k" Project_ID k x "db_up E c (tick w)"
      "wrapNoRowsByID ''project'' (rawProjectID k) ErrNoRows" "db_error E (tick w)" "outage E" valid]
    assms(3) tables_distinct(1) [OF assms(1)] db_error_outage [of E c "tick w"] honest_error [OF assms(2), of c "tick w"]
  by (auto simp: GetByID_eq(1) project_schema_def wrapNoRows_other)

lemma repository_get:
  assumes "wf_db w" and "honest E" and "RepositoryStore_GetByID E c k w = (x, w')"
  shows "w' = tock w \<and> table_spec (outage E) repository_schema valid (Get (k)) (Got x)
    (table Repository_ID (repositories w)) (table Repository_ID (repositories w))"
  using get_spec [of repository_schema "repositories w" "k" Repository_ID k x "db_up E c (tick w)"
      "wrapNoRowsByID ''repository'' (rawRepositoryID k) ErrNoRows" "db_error E (tick w)" "outage E" valid]
    assms(3) tables_distinct(2) [OF assms(1)] db_error_outage [of E c "tick w"] honest_error [OF assms(2), of c "tick w"]
  by (auto simp: GetByID_eq(2) repository_schema_def wrapNoRows_other)

lemma pipeline_get:
  assumes "wf_db w" and "honest E" and "PipelineStore_GetByID E c k w = (x, w')"
  shows "w' = tock w \<and> table_spec (outage E) pipeline_schema valid (Get (k)) (Got x)
    (table Pipeline_ID (pipelines w)) (table Pipeline_ID (pipelines w))"
  using get_spec [of pipeline_schema "pipelines w" "k" Pipeline_ID k x "db_up E c (tick w)"
      "wrapNoRowsByID ''pipeline'' (rawPipelineID k) ErrNoRows" "db_error E (tick w)" "outage E" valid]
    assms(3) tables_distinct(3) [OF assms(1)] db_error_outage [of E c "tick w"] honest_error [OF assms(2), of c "tick w"]
  by (auto simp: GetByID_eq(3) pipeline_schema_def wrapNoRows_other)

lemma run_get:
  assumes "wf_db w" and "honest E" and "PipelineRunStore_GetByID E c k w = (x, w')"
  shows "w' = tock w \<and> table_spec (outage E) run_schema valid (Get (k)) (Got x)
    (table PipelineRun_ID (pipeline_runs w)) (table PipelineRun_ID (pipeline_runs w))"
  using get_spec [of run_schema "pipeline_runs w" "k" PipelineRun_ID k x "db_up E c (tick w)"
      "wrapNoRowsByID ''pipeline run'' (rawPipelineRunID k) ErrNoRows" "db_error E (tick w)" "outage E" valid]
    assms(3) tables_distinct(4) [OF assms(1)] db_error_outage [of E c "tick w"] honest_error [OF assms(2), of c "tick w"]
  by (auto simp: GetByID_eq(4) run_schema_def wrapNoRows_other)

lemma job_get:
  assumes "wf_db w" and "honest E" and "JobStore_GetByID E c k w = (x, w')"
  shows "w' = tock w \<and> table_spec (outage E) job_schema valid (Get (k)) (Got x)
    (table Job_ID (jobs w)) (table Job_ID (jobs w))"
  using get_spec [of job_schema "jobs w" "k" Job_ID k x "db_up E c (tick w)"
      "wrapNoRowsByID ''job'' (rawJobID k) ErrNoRows" "db_error E (tick w)" "outage E" valid]
    assms(3) tables_distinct(5) [OF assms(1)] db_error_outage [of E c "tick w"] honest_error [OF assms(2), of c "tick w"]
  by (auto simp: GetByID_eq(5) job_schema_def wrapNoRows_other)

lemma step_get:
  assumes "wf_db w" and "honest E" and "JobStepStore_GetByID E c k w = (x, w')"
  shows "w' = tock w \<and> table_spec (outage E) step_schema valid (Get (k)) (Got x)
    (table JobStep_ID (job_steps w)) (table JobStep_ID (job_steps w))"
  using get_spec [of step_schema "job_steps w" "k" JobStep_ID k x "db_up E c (tick w)"
      "wrapNoRowsByID ''job step'' (rawJobStepID k) ErrNoRows" "db_error E (tick w)" "outage E" valid]
    assms(3) tables_distinct(6) [OF assms(1)] db_error_outage [of E c "tick w"] honest_error [OF assms(2), of c "tick w"]
  by (auto simp: GetByID_eq(6) step_schema_def wrapNoRows_other)

lemma artifact_get:
  assumes "wf_db w" and "honest E" and "ArtifactStore_GetByID E c k w = (x, w')"
  shows "w' = tock w \<and> table_spec (outage E) artifact_schema valid (Get (k)) (Got x)
    (table Artifact_ID (artifacts w)) (table Artifact_ID (artifacts w))"
  using get_spec [of artifact_schema "artifacts w" "k" Artifact_ID k x "db_up E c (tick w)"
      "wrapNoRowsByID ''artifact'' (rawArtifactID k) ErrNoRows" "db_error E (tick w)" "outage E" valid]
    assms(3) tables_distinct(7) [OF assms(1)] db_error_outage [of E c "tick w"] honest_error [OF assms(2), of c "tick w"]
  by (auto simp: GetByID_eq(7) artifact_schema_def wrapNoRows_other)

lemma execution_get:
  assumes "wf_db w" and "honest E" and "ExecutionStore_GetByID E c k w = (x, w')"
  shows "w' = tock w \<and> table_spec (outage E) execution_schema valid (Get (k)) (Got x)
    (table Execution_ID (executions w)) (table Execution_ID (executions w))"
  using get_spec [of execution_schema "executions w" "k" Execution_ID k x "db_up E c (tick w)"
      "wrapNoRowsByID ''execution'' (rawExecutionID k) ErrNoRows" "db_error E (tick w)" "outage E" valid]
    assms(3) tables_distinct(8) [OF assms(1)] db_error_outage [of E c "tick w"] honest_error [OF assms(2), of c "tick w"]
  by (auto simp: GetByID_eq(8) execution_schema_def wrapNoRows_other)

lemma project_get_name:
  assumes "wf_db w" and "honest E" and "ProjectStore_GetByName E c name w = (x, w')"
  shows "w' = tock w \<and> table_spec (outage E) project_schema valid (Get (Inr name)) (Got x)
    (table Project_ID (projects w)) (table Project_ID (projects w))"
  using get_spec [of project_schema "projects w" "Inr name" Project_Name name x "db_up E c (tick w)"
      "wrapNoRowsByName ''project'' name ErrNoRows" "db_error E (tick w)" "outage E" valid]
    assms(3) tables_distinct(1) [OF assms(1)] db_error_outage [of E c "tick w"] honest_error [OF assms(2), of c "tick w"]
  by (auto simp: ProjectStore_GetByName_def pool_call_eq project_schema_def wrapNoRowsByName_def
      split: option.splits if_splits simp del: get_row_None)

lemma project_list:
  assumes "wf_db w" and "ProjectStore_List E c w = (x, w')"
  shows "w' = tock w \<and> table_spec (outage E) project_schema valid (ListBy (q)) (Listed x)
    (table Project_ID (projects w)) (table Project_ID (projects w))"
  using list_spec [of project_schema "projects w" "outage E" valid "q"] assms(2) tables_distinct(1) [OF assms(1)]
  by (cases "db_up E c (tick w)")
    (auto simp: ProjectStore_List_def pool_call_eq project_schema_def db_error_outage simp del: table_spec.simps(5))

lemma repository_list:
  assumes "wf_db w" and "RepositoryStore_ListByProject E c q w = (x, w')"
  shows "w' = tock w \<and> table_spec (outage E) repository_schema valid (ListBy (q)) (Listed x)
    (table Repository_ID (repositories w)) (table Repository_ID (repositories w))"
  using list_spec [of repository_schema "repositories w" "outage E" valid "q"] assms(2) tables_distinct(2) [OF assms(1)]
  by (cases "db_up E c (tick w)")
    (auto simp: RepositoryStore_ListByProject_def pool_call_eq repository_schema_def db_error_outage simp del: table_spec.simps(5))

lemma pipeline_list:
  assumes "wf_db w" and "PipelineStore_ListByRepository E c q w = (x, w')"
  shows "w' = tock w \<and> table_spec (outage E) pipeline_schema valid (ListBy (q)) (Listed x)
    (table Pipeline_ID (pipelines w)) (table Pipeline_ID (pipelines w))"
  using list_spec [of pipeline_schema "pipelines w" "outage E" valid "q"] assms(2) tables_distinct(3) [OF assms(1)]
  by (cases "db_up E c (tick w)")
    (auto simp: PipelineStore_ListByRepository_def pool_call_eq pipeline_schema_def db_error_outage simp del: table_spec.simps(5))

lemma run_list:
  assumes "wf_db w" and "PipelineRunStore_ListByPipeline E c q w = (x, w')"
  shows "w' = tock w \<and> table_spec (outage E) run_schema valid (ListBy (Inl q)) (Listed x)
    (table PipelineRun_ID (pipeline_runs w)) (table PipelineRun_ID (pipeline_runs w))"
  using list_spec [of run_schema "pipeline_runs w" "outage E" valid "Inl q"] assms(2) tables_distinct(4) [OF assms(1)]
  by (cases "db_up E c (tick w)")
    (auto simp: PipelineRunStore_ListByPipeline_def pool_call_eq run_schema_def db_error_outage simp del: table_spec.simps(5))

lemma run_list_status:
  assumes "wf_db w" and "PipelineRunStore_ListByStatus E c q w = (x, w')"
  shows "w' = tock w \<and> table_spec (outage E) run_schema valid (ListBy (Inr q)) (Listed x)
    (table PipelineRun_ID (pipeline_runs w)) (table PipelineRun_ID (pipeline_runs w))"
  using list_spec [of run_schema "pipeline_runs w" "outage E" valid "Inr q"] assms(2) tables_distinct(4) [OF assms(1)]
  by (cases "db_up E c (tick w)")
    (auto simp: PipelineRunStore_ListByStatus_def pool_call_eq run_schema_def db_error_outage simp del: table_spec.simps(5))

lemma job_list:
  assumes "wf_db w" and "JobStore_ListByPipelineRun E c q w = (x, w')"
  shows "w' = tock w \<and> table_spec (outage E) job_schema valid (ListBy (q)) (Listed x)
    (table Job_ID (jobs w)) (table Job_ID (jobs w))"
  using list_spec [of job_schema "jobs w" "outage E" valid "q"] assms(2) tables_distinct(5) [OF assms(1)]
  by (cases "db_up E c (tick w)")
    (auto simp: JobStore_ListByPipelineRun_def pool_call_eq job_schema_def db_error_outage simp del: table_spec.simps(5))

lemma step_list:
  assumes "wf_db w" and "JobStepStore_ListByJob E c q w = (x, w')"
  shows "w' = tock w \<and> table_spec (outage E) step_schema valid (ListBy (q)) (Listed x)
    (table JobStep_ID (job_steps w)) (table JobStep_ID (job_steps w))"
  using list_spec [of step_schema "job_steps w" "outage E" valid "q"] assms(2) tables_distinct(6) [OF assms(1)]
  by (cases "db_up E c (tick w)")
    (auto simp: JobStepStore_ListByJob_def pool_call_eq step_schema_def db_error_outage simp del: table_spec.simps(5))

lemma artifact_list:
  assumes "wf_db w" and "ArtifactStore_ListByJob E c q w = (x, w')"
  shows "w' = tock w \<and> table_spec (outage E) artifact_schema valid (ListBy (q)) (Listed x)
    (table Artifact_ID (artifacts w)) (table Artifact_ID (artifacts w))"
  using list_spec [of artifact_schema "artifacts w" "outage E" valid "q"] assms(2) tables_distinct(7) [OF assms(1)]
  by (cases "db_up E c (tick w)")
    (auto simp: ArtifactStore_ListByJob_def pool_call_eq artifact_schema_def db_error_outage simp del: table_spec.simps(5))

lemma execution_list:
  assumes "wf_db w" and "ExecutionStore_ListByJobStep E c q w = (x, w')"
  shows "w' = tock w \<and> table_spec (outage E) execution_schema valid (ListBy (q)) (Listed x)
    (table Execution_ID (executions w)) (table Execution_ID (executions w))"
  using list_spec [of execution_schema "executions w" "outage E" valid "q"] assms(2) tables_distinct(8) [OF assms(1)]
  by (cases "db_up E c (tick w)")
    (auto simp: ExecutionStore_ListByJobStep_def pool_call_eq execution_schema_def db_error_outage simp del: table_spec.simps(5))

section \<open>Changing\<close>

lemmas edit_defs = setUpdatedAt_def time_Now_def pool_call_eq Let_def db_error_outage

lemma edit_frame:
  "ProjectStore_Update E c p w = (e, p', w') \<Longrightarrow> abs_db w' = abs_db w\<lparr>ab_projects := table Project_ID (projects w')\<rparr>"
  "ProjectStore_Delete E c pk w = (e, w') \<Longrightarrow> abs_db w' = abs_db w\<lparr>ab_projects := table Project_ID (projects w')\<rparr>"
  "RepositoryStore_Update E c q w = (e, q', w') \<Longrightarrow> abs_db w' = abs_db w\<lparr>ab_repositories := table Repository_ID (repositories w')\<rparr>"
  "RepositoryStore_Delete E c qk w = (e, w') \<Longrightarrow> abs_db w' = abs_db w\<lparr>ab_repositories := table Repository_ID (repositories w')\<rparr>"
  "PipelineStore_Update E c l w = (e, l', w') \<Longrightarrow> abs_db w' = abs_db w\<lparr>ab_pipelines := table Pipeline_ID (pipelines w')\<rparr>"
  "PipelineStore_Delete E c lk w = (e, w') \<Longrightarrow> abs_db w' = abs_db w\<lparr>ab_pipelines := table Pipeline_ID (pipelines w')\<rparr>"
  by (auto simp: abs_db_def ProjectStore_Update_def ProjectStore_Delete_def RepositoryStore_Update_def
      RepositoryStore_Delete_def PipelineStore_Update_def PipelineStore_Delete_def edit_defs
      update_project_def update_repository_def update_pipeline_def delete_project_def delete_repository_def
      delete_pipeline_def split: if_splits)

lemma project_update:
  assumes "ProjectStore_Update E c p w = (e, p', w')"
  shows "edit_spec (outage E) Project_ID
    (\<lambda>p. \<forall>r\<in>set (projects w). Project_Name r = Project_Name p \<longrightarrow> Project_ID r = Project_ID p) free
    (\<lambda>t p0 p. p\<lparr>Project_Name := Project_Name p0, Project_Description := Project_Description p0, Project_UpdatedAt := t\<rparr>)
    (Update p) e (table Project_ID (projects w)) (table Project_ID (projects w'))"
proof (rule update_spec [where up = "db_up E c (Suc (tick w))" and f = "db_error E (Suc (tick w))"
      and g = "UniqueViolation ''projects_name_key''" and n = "''project''" and i = "rawProjectID (Project_ID p)"
      and t = "time_now E (tick w)"])
  have taken: "Project_Name p \<in> Project_Name ` set (del_row Project_ID (Project_ID p) (projects w)) \<longleftrightarrow>
      \<not> (\<forall>r\<in>set (projects w). Project_Name r = Project_Name p \<longrightarrow> Project_ID r = Project_ID p)"
    by (auto simp: del_row_def image_iff)
  show "e = (if \<not> db_up E c (Suc (tick w)) then Some (db_error E (Suc (tick w)))
      else if Project_ID p \<in> Project_ID ` set (projects w) \<and>
          \<not> (\<forall>r\<in>set (projects w). Project_Name r = Project_Name p \<longrightarrow> Project_ID r = Project_ID p)
      then Some (UniqueViolation ''projects_name_key'')
      else ensureRowsAffected (hits Project_ID (Project_ID p) (projects w)) ''project'' (rawProjectID (Project_ID p)))"
    using assms unfolding taken [symmetric]
    by (auto simp: ProjectStore_Update_def edit_defs update_project_def split: if_splits)
  show "projects w' = (if \<not> db_up E c (Suc (tick w)) \<or> Project_ID p \<in> Project_ID ` set (projects w) \<and>
          \<not> (\<forall>r\<in>set (projects w). Project_Name r = Project_Name p \<longrightarrow> Project_ID r = Project_ID p)
      then projects w else set_row Project_ID (Project_ID p)
        (\<lambda>r. r\<lparr>Project_Name := Project_Name p, Project_Description := Project_Description p,
           Project_UpdatedAt := time_now E (tick w)\<rparr>) (projects w))"
    using assms unfolding taken [symmetric]
    by (auto simp: ProjectStore_Update_def edit_defs update_project_def split: if_splits)
qed (simp_all add: db_error_outage)

lemma repository_update:
  assumes "RepositoryStore_Update E c q w = (e, q', w')"
  shows "edit_spec (outage E) Repository_ID (\<lambda>r. Repository_ProjectID r \<in> Project_ID ` set (projects w)) free
    (\<lambda>t r0 r. r\<lparr>Repository_ProjectID := Repository_ProjectID r0, Repository_VCSProvider := Repository_VCSProvider r0,
       Repository_CloneURL := Repository_CloneURL r0, Repository_DefaultBranch := Repository_DefaultBranch r0,
       Repository_UpdatedAt := t\<rparr>)
    (Update q) e (table Repository_ID (repositories w)) (table Repository_ID (repositories w'))"
  by (rule update_spec [where up = "db_up E c (Suc (tick w))" and f = "db_error E (Suc (tick w))"
      and g = "ForeignKeyViolation ''repositories_project_id_fkey''" and n = "''repository''"
      and i = "rawRepositoryID (Repository_ID q)" and t = "time_now E (tick w)"])
    (use assms in \<open>auto simp: RepositoryStore_Update_def edit_defs update_repository_def split: if_splits\<close>)

lemma pipeline_update:
  assumes "PipelineStore_Update E c l w = (e, l', w')"
  shows "edit_spec (outage E) Pipeline_ID (\<lambda>p. Pipeline_RepositoryID p \<in> Repository_ID ` set (repositories w)) free
    (\<lambda>t p0 p. p\<lparr>Pipeline_RepositoryID := Pipeline_RepositoryID p0, Pipeline_Name := Pipeline_Name p0,
       Pipeline_TriggerType := Pipeline_TriggerType p0, Pipeline_UpdatedAt := t\<rparr>)
    (Update l) e (table Pipeline_ID (pipelines w)) (table Pipeline_ID (pipelines w'))"
  by (rule update_spec [where up = "db_up E c (Suc (tick w))" and f = "db_error E (Suc (tick w))"
      and g = "ForeignKeyViolation ''pipelines_repository_id_fkey''" and n = "''pipeline''"
      and i = "rawPipelineID (Pipeline_ID l)" and t = "time_now E (tick w)"])
    (use assms in \<open>auto simp: PipelineStore_Update_def edit_defs update_pipeline_def split: if_splits\<close>)

lemma project_delete:
  assumes "ProjectStore_Delete E c k w = (e, w')"
  shows "edit_spec (outage E) Project_ID valid (\<lambda>k. k \<notin> Repository_ProjectID ` set (repositories w)) amend
    (Delete k) e (table Project_ID (projects w)) (table Project_ID (projects w'))"
  by (rule delete_spec [where up = "db_up E c (tick w)" and f = "db_error E (tick w)"
      and g = "ForeignKeyViolation ''repositories_project_id_fkey''" and n = "''project''" and i = "rawProjectID k"])
    (use assms in \<open>auto simp: ProjectStore_Delete_def edit_defs delete_project_def split: if_splits\<close>)

lemma repository_delete:
  assumes "RepositoryStore_Delete E c k w = (e, w')"
  shows "edit_spec (outage E) Repository_ID valid (\<lambda>k. k \<notin> Pipeline_RepositoryID ` set (pipelines w)) amend
    (Delete k) e (table Repository_ID (repositories w)) (table Repository_ID (repositories w'))"
  by (rule delete_spec [where up = "db_up E c (tick w)" and f = "db_error E (tick w)"
      and g = "ForeignKeyViolation ''pipelines_repository_id_fkey''" and n = "''repository''" and i = "rawRepositoryID k"])
    (use assms in \<open>auto simp: RepositoryStore_Delete_def edit_defs delete_repository_def split: if_splits\<close>)

lemma pipeline_delete:
  assumes "PipelineStore_Delete E c k w = (e, w')"
  shows "edit_spec (outage E) Pipeline_ID valid (\<lambda>k. k \<notin> PipelineRun_PipelineID ` set (pipeline_runs w)) amend
    (Delete k) e (table Pipeline_ID (pipelines w)) (table Pipeline_ID (pipelines w'))"
  by (rule delete_spec [where up = "db_up E c (tick w)" and f = "db_error E (tick w)"
      and g = "ForeignKeyViolation ''pipeline_runs_pipeline_id_fkey''" and n = "''pipeline''" and i = "rawPipelineID k"])
    (use assms in \<open>auto simp: PipelineStore_Delete_def edit_defs delete_pipeline_def split: if_splits\<close>)

lemma run_status:
  assumes "PipelineRunStore_UpdateStatus E c k s w = (e, w')"
  shows "abs_db w' = abs_db w\<lparr>ab_runs := table PipelineRun_ID (pipeline_runs w')\<rparr> \<and>
    status_spec (outage E) (\<lambda>t s. set_run s (fst (startedFinishedForStatus s t)) (snd (startedFinishedForStatus s t)))
      (SetStatus k s) e (table PipelineRun_ID (pipeline_runs w)) (table PipelineRun_ID (pipeline_runs w'))"
proof
  note down = PipelineRunStore_UpdateStatus_down [of E c w k s]
  note up = PipelineRunStore_UpdateStatus_up [of E c w k s]
  show "abs_db w' = abs_db w\<lparr>ab_runs := table PipelineRun_ID (pipeline_runs w')\<rparr>"
    using assms down up by (cases "db_up E c (Suc (tick w))") (auto simp: abs_db_def update_pipeline_run_def)
  show "status_spec (outage E) (\<lambda>t s. set_run s (fst (startedFinishedForStatus s t)) (snd (startedFinishedForStatus s t)))
      (SetStatus k s) e (table PipelineRun_ID (pipeline_runs w)) (table PipelineRun_ID (pipeline_runs w'))"
    by (rule set_status_spec [where up = "db_up E c (Suc (tick w))" and f = "db_error E (Suc (tick w))"
        and n = "''pipeline run''" and i = "rawPipelineRunID k" and t = "time_now E (tick w)"])
      (use assms down up in \<open>auto simp: update_pipeline_run_def set_run_def db_error_outage\<close>)
qed

lemma job_status:
  assumes "JobStore_UpdateStatus E c k s w = (e, w')"
  shows "abs_db w' = abs_db w\<lparr>ab_jobs := table Job_ID (jobs w')\<rparr> \<and>
    status_spec (outage E) (\<lambda>t s. set_job s (fst (startedFinishedForStatus s t)) (snd (startedFinishedForStatus s t)))
      (SetStatus k s) e (table Job_ID (jobs w)) (table Job_ID (jobs w'))"
proof
  note down = JobStore_UpdateStatus_down [of E c w k s]
  note up = JobStore_UpdateStatus_up [of E c w k s]
  show "abs_db w' = abs_db w\<lparr>ab_jobs := table Job_ID (jobs w')\<rparr>"
    using assms down up by (cases "db_up E c (Suc (tick w))") (auto simp: abs_db_def update_job_def)
  show "status_spec (outage E) (\<lambda>t s. set_job s (fst (startedFinishedForStatus s t)) (snd (startedFinishedForStatus s t)))
      (SetStatus k s) e (table Job_ID (jobs w)) (table Job_ID (jobs w'))"
    by (rule set_status_spec [where up = "db_up E c (Suc (tick w))" and f = "db_error E (Suc (tick w))"
        and n = "''job''" and i = "rawJobID k" and t = "time_now E (tick w)"])
      (use assms down up in \<open>auto simp: update_job_def set_job_def db_error_outage\<close>)
qed

lemma step_status:
  assumes "JobStepStore_UpdateStatus E c k s w = (e, w')"
  shows "abs_db w' = abs_db w\<lparr>ab_steps := table JobStep_ID (job_steps w')\<rparr> \<and>
    status_spec (outage E) (\<lambda>t s. set_step s (fst (startedFinishedForStatus s t)) (snd (startedFinishedForStatus s t)))
      (SetStatus k s) e (table JobStep_ID (job_steps w)) (table JobStep_ID (job_steps w'))"
proof
  note down = JobStepStore_UpdateStatus_down [of E c w k s]
  note up = JobStepStore_UpdateStatus_up [of E c w k s]
  show "abs_db w' = abs_db w\<lparr>ab_steps := table JobStep_ID (job_steps w')\<rparr>"
    using assms down up by (cases "db_up E c (Suc (tick w))") (auto simp: abs_db_def update_job_step_def)
  show "status_spec (outage E) (\<lambda>t s. set_step s (fst (startedFinishedForStatus s t)) (snd (startedFinishedForStatus s t)))
      (SetStatus k s) e (table JobStep_ID (job_steps w)) (table JobStep_ID (job_steps w'))"
    by (rule set_status_spec [where up = "db_up E c (Suc (tick w))" and f = "db_error E (Suc (tick w))"
        and n = "''job step''" and i = "rawJobStepID k" and t = "time_now E (tick w)"])
      (use assms down up in \<open>auto simp: update_job_step_def set_step_def db_error_outage\<close>)
qed

lemma execution_status:
  assumes "ExecutionStore_UpdateStatus E c k s w = (e, w')"
  shows "abs_db w' = abs_db w\<lparr>ab_executions := table Execution_ID (executions w')\<rparr> \<and>
    status_spec (outage E) (\<lambda>t s. set_execution s (completedAtForStatus s t))
      (SetStatus k s) e (table Execution_ID (executions w)) (table Execution_ID (executions w'))"
proof
  note down = ExecutionStore_UpdateStatus_down [of E c w k s]
  note up = ExecutionStore_UpdateStatus_up [of E c w k s]
  show "abs_db w' = abs_db w\<lparr>ab_executions := table Execution_ID (executions w')\<rparr>"
    using assms down up by (cases "db_up E c (Suc (tick w))") (auto simp: abs_db_def update_execution_def)
  show "status_spec (outage E) (\<lambda>t s. set_execution s (completedAtForStatus s t))
      (SetStatus k s) e (table Execution_ID (executions w)) (table Execution_ID (executions w'))"
    by (rule set_status_spec [where up = "db_up E c (Suc (tick w))" and f = "db_error E (Suc (tick w))"
        and n = "''execution''" and i = "rawExecutionID k" and t = "time_now E (tick w)"])
      (use assms down up in \<open>auto simp: update_execution_def set_execution_def db_error_outage\<close>)
qed

section \<open>Every call of every store\<close>

lemma abs_db_sels [simp]:
  "ab_projects (abs_db w) = table Project_ID (projects w)"
  "ab_repositories (abs_db w) = table Repository_ID (repositories w)"
  "ab_pipelines (abs_db w) = table Pipeline_ID (pipelines w)"
  "ab_runs (abs_db w) = table PipelineRun_ID (pipeline_runs w)"
  "ab_jobs (abs_db w) = table Job_ID (jobs w)"
  "ab_steps (abs_db w) = table JobStep_ID (job_steps w)"
  "ab_artifacts (abs_db w) = table Artifact_ID (artifacts w)"
  "ab_executions (abs_db w) = table Execution_ID (executions w)"
  by (simp_all add: abs_db_def)

lemma abs_db_same:
  "abs_db w\<lparr>ab_projects := table Project_ID (projects w)\<rparr> = abs_db w"
  "abs_db w\<lparr>ab_repositories := table Repository_ID (repositories w)\<rparr> = abs_db w"
  "abs_db w\<lparr>ab_pipelines := table Pipeline_ID (pipelines w)\<rparr> = abs_db w"
  "abs_db w\<lparr>ab_runs := table PipelineRun_ID (pipeline_runs w)\<rparr> = abs_db w"
  "abs_db w\<lparr>ab_jobs := table Job_ID (jobs w)\<rparr> = abs_db w"
  "abs_db w\<lparr>ab_steps := table JobStep_ID (job_steps w)\<rparr> = abs_db w"
  "abs_db w\<lparr>ab_artifacts := table Artifact_ID (artifacts w)\<rparr> = abs_db w"
  "abs_db w\<lparr>ab_executions := table Execution_ID (executions w)\<rparr> = abs_db w"
  by (simp_all add: abs_db_def)

lemma project_valid_eq:
  "wf_db w \<Longrightarrow> project_valid (abs_db w) =
    (\<lambda>p. \<forall>r\<in>set (projects w). Project_Name r = Project_Name p \<longrightarrow> Project_ID r = Project_ID p)"
  by (rule ext) (simp add: project_valid_def ran_table tables_distinct)

text \<open>The calls of one store, put together.\<close>

lemma table_law:
  assumes "table_step create get list x w = (b, w')" and "wf_db w"
    and "\<And>r e r' w'. create r w = (e, r', w') \<Longrightarrow> wf_db w' \<and> abs_db w' = upd (abs_db w) (tab w') \<and>
      table_spec X D valid (Create r) (Created e r') (tab w) (tab w')"
    and "\<And>g y w'. get g w = (y, w') \<Longrightarrow> w' = tock w \<and> table_spec X D valid (Get g) (Got y) (tab w) (tab w)"
    and "\<And>q y w'. list q w = (y, w') \<Longrightarrow> w' = tock w \<and> table_spec X D valid (ListBy q) (Listed y) (tab w) (tab w)"
    and "upd (abs_db w) (tab w) = abs_db w" and "tab (tock w) = tab w"
  shows "wf_db w' \<and> abs_db w' = upd (abs_db w) (tab w') \<and> table_spec X D valid x b (tab w) (tab w')"
proof (cases x)
  case (Create r)
  obtain e r' v where "create r w = (e, r', v)" by (cases "create r w")
  with assms(1) assms(3) [of r e r' v] Create show ?thesis by simp
next
  case (Get g)
  obtain y v where "get g w = (y, v)" by fastforce
  with assms(1,2,6,7) assms(4) [of g y v] Get show ?thesis by simp
next
  case (ListBy q)
  obtain y v where "list q w = (y, v)" by fastforce
  with assms(1,2,6,7) assms(5) [of q y v] ListBy show ?thesis by simp
qed


lemma project_call:
  assumes wf: "wf_db w" and honest: "honest E"
    and step: "table_step (ProjectStore_Create E c) (case_sum (ProjectStore_GetByID E c) (ProjectStore_GetByName E c))
      (\<lambda>_. ProjectStore_List E c) x w = (b, w')"
  shows "wf_db w' \<and> abs_db w' = abs_db w\<lparr>ab_projects := table Project_ID (projects w')\<rparr> \<and>
    table_spec (outage E) project_schema (\<lambda>p. \<forall>r\<in>set (projects w). Project_Name r = Project_Name p \<longrightarrow> Project_ID r = Project_ID p) x b (table Project_ID (projects w)) (table Project_ID (projects w'))"
proof (rule table_law [OF step wf, where upd = "\<lambda>m t. m\<lparr>ab_projects := t\<rparr>"])
  show "w2 = tock w \<and> table_spec (outage E) project_schema (\<lambda>p. \<forall>r\<in>set (projects w). Project_Name r = Project_Name p \<longrightarrow> Project_ID r = Project_ID p) (ListBy q) (Listed y)
      (table Project_ID (projects w)) (table Project_ID (projects w))"
    if "(\<lambda>_. ProjectStore_List E c) q w = (y, w2)" for q y w2
    using that project_list [OF wf, of E c] by simp
  show "w2 = tock w \<and> table_spec (outage E) project_schema (\<lambda>p. \<forall>r\<in>set (projects w). Project_Name r = Project_Name p \<longrightarrow> Project_ID r = Project_ID p) (Get g) (Got y)
      (table Project_ID (projects w)) (table Project_ID (projects w))"
    if "(case_sum (ProjectStore_GetByID E c) (ProjectStore_GetByName E c)) g w = (y, w2)" for g y w2
    using that project_get [OF wf honest] project_get_name [OF wf honest] by (cases g) simp_all
qed (simp_all add: abs_db_same project_create integrity.create_keeps(1) [OF wf])

lemma repository_call:
  assumes wf: "wf_db w" and honest: "honest E"
    and step: "table_step (RepositoryStore_Create E c) (RepositoryStore_GetByID E c)
      (RepositoryStore_ListByProject E c) x w = (b, w')"
  shows "wf_db w' \<and> abs_db w' = abs_db w\<lparr>ab_repositories := table Repository_ID (repositories w')\<rparr> \<and>
    table_spec (outage E) repository_schema (\<lambda>r. Repository_ProjectID r \<in> Project_ID ` set (projects w)) x b (table Repository_ID (repositories w)) (table Repository_ID (repositories w'))"
proof (rule table_law [OF step wf, where upd = "\<lambda>m t. m\<lparr>ab_repositories := t\<rparr>"])
  show "w2 = tock w \<and> table_spec (outage E) repository_schema (\<lambda>r. Repository_ProjectID r \<in> Project_ID ` set (projects w)) (ListBy q) (Listed y)
      (table Repository_ID (repositories w)) (table Repository_ID (repositories w))"
    if "(RepositoryStore_ListByProject E c) q w = (y, w2)" for q y w2
    using that by (rule repository_list [OF wf])
  show "w2 = tock w \<and> table_spec (outage E) repository_schema (\<lambda>r. Repository_ProjectID r \<in> Project_ID ` set (projects w)) (Get g) (Got y)
      (table Repository_ID (repositories w)) (table Repository_ID (repositories w))"
    if "(RepositoryStore_GetByID E c) g w = (y, w2)" for g y w2
    using that by (rule repository_get [OF wf honest])
qed (simp_all add: abs_db_same repository_create integrity.create_keeps(2) [OF wf])

lemma pipeline_call:
  assumes wf: "wf_db w" and honest: "honest E"
    and step: "table_step (PipelineStore_Create E c) (PipelineStore_GetByID E c)
      (PipelineStore_ListByRepository E c) x w = (b, w')"
  shows "wf_db w' \<and> abs_db w' = abs_db w\<lparr>ab_pipelines := table Pipeline_ID (pipelines w')\<rparr> \<and>
    table_spec (outage E) pipeline_schema (\<lambda>l. Pipeline_RepositoryID l \<in> Repository_ID ` set (repositories w)) x b (table Pipeline_ID (pipelines w)) (table Pipeline_ID (pipelines w'))"
proof (rule table_law [OF step wf, where upd = "\<lambda>m t. m\<lparr>ab_pipelines := t\<rparr>"])
  show "w2 = tock w \<and> table_spec (outage E) pipeline_schema (\<lambda>l. Pipeline_RepositoryID l \<in> Repository_ID ` set (repositories w)) (ListBy q) (Listed y)
      (table Pipeline_ID (pipelines w)) (table Pipeline_ID (pipelines w))"
    if "(PipelineStore_ListByRepository E c) q w = (y, w2)" for q y w2
    using that by (rule pipeline_list [OF wf])
  show "w2 = tock w \<and> table_spec (outage E) pipeline_schema (\<lambda>l. Pipeline_RepositoryID l \<in> Repository_ID ` set (repositories w)) (Get g) (Got y)
      (table Pipeline_ID (pipelines w)) (table Pipeline_ID (pipelines w))"
    if "(PipelineStore_GetByID E c) g w = (y, w2)" for g y w2
    using that by (rule pipeline_get [OF wf honest])
qed (simp_all add: abs_db_same pipeline_create integrity.create_keeps(3) [OF wf])

lemma run_call:
  assumes wf: "wf_db w" and honest: "honest E"
    and step: "table_step (PipelineRunStore_Create E c) (PipelineRunStore_GetByID E c)
      (case_sum (PipelineRunStore_ListByPipeline E c) (PipelineRunStore_ListByStatus E c)) x w = (b, w')"
  shows "wf_db w' \<and> abs_db w' = abs_db w\<lparr>ab_runs := table PipelineRun_ID (pipeline_runs w')\<rparr> \<and>
    table_spec (outage E) run_schema (\<lambda>n. PipelineRun_PipelineID n \<in> Pipeline_ID ` set (pipelines w)) x b (table PipelineRun_ID (pipeline_runs w)) (table PipelineRun_ID (pipeline_runs w'))"
proof (rule table_law [OF step wf, where upd = "\<lambda>m t. m\<lparr>ab_runs := t\<rparr>"])
  show "w2 = tock w \<and> table_spec (outage E) run_schema (\<lambda>n. PipelineRun_PipelineID n \<in> Pipeline_ID ` set (pipelines w)) (ListBy q) (Listed y)
      (table PipelineRun_ID (pipeline_runs w)) (table PipelineRun_ID (pipeline_runs w))"
    if "(case_sum (PipelineRunStore_ListByPipeline E c) (PipelineRunStore_ListByStatus E c)) q w = (y, w2)" for q y w2
    using that run_list [OF wf] run_list_status [OF wf] by (cases q) simp_all
  show "w2 = tock w \<and> table_spec (outage E) run_schema (\<lambda>n. PipelineRun_PipelineID n \<in> Pipeline_ID ` set (pipelines w)) (Get g) (Got y)
      (table PipelineRun_ID (pipeline_runs w)) (table PipelineRun_ID (pipeline_runs w))"
    if "(PipelineRunStore_GetByID E c) g w = (y, w2)" for g y w2
    using that by (rule run_get [OF wf honest])
qed (simp_all add: abs_db_same run_create integrity.create_keeps(4) [OF wf])

lemma job_call:
  assumes wf: "wf_db w" and honest: "honest E"
    and step: "table_step (JobStore_Create E c) (JobStore_GetByID E c)
      (JobStore_ListByPipelineRun E c) x w = (b, w')"
  shows "wf_db w' \<and> abs_db w' = abs_db w\<lparr>ab_jobs := table Job_ID (jobs w')\<rparr> \<and>
    table_spec (outage E) job_schema (\<lambda>j. Job_PipelineRunID j \<in> PipelineRun_ID ` set (pipeline_runs w)) x b (table Job_ID (jobs w)) (table Job_ID (jobs w'))"
proof (rule table_law [OF step wf, where upd = "\<lambda>m t. m\<lparr>ab_jobs := t\<rparr>"])
  show "w2 = tock w \<and> table_spec (outage E) job_schema (\<lambda>j. Job_PipelineRunID j \<in> PipelineRun_ID ` set (pipeline_runs w)) (ListBy q) (Listed y)
      (table Job_ID (jobs w)) (table Job_ID (jobs w))"
    if "(JobStore_ListByPipelineRun E c) q w = (y, w2)" for q y w2
    using that by (rule job_list [OF wf])
  show "w2 = tock w \<and> table_spec (outage E) job_schema (\<lambda>j. Job_PipelineRunID j \<in> PipelineRun_ID ` set (pipeline_runs w)) (Get g) (Got y)
      (table Job_ID (jobs w)) (table Job_ID (jobs w))"
    if "(JobStore_GetByID E c) g w = (y, w2)" for g y w2
    using that by (rule job_get [OF wf honest])
qed (simp_all add: abs_db_same job_create integrity.create_keeps(5) [OF wf])

lemma step_call:
  assumes wf: "wf_db w" and honest: "honest E"
    and step: "table_step (JobStepStore_Create E c) (JobStepStore_GetByID E c)
      (JobStepStore_ListByJob E c) x w = (b, w')"
  shows "wf_db w' \<and> abs_db w' = abs_db w\<lparr>ab_steps := table JobStep_ID (job_steps w')\<rparr> \<and>
    table_spec (outage E) step_schema (\<lambda>t. int4_ok (JobStep_ExecutionOrder t) \<and> JobStep_JobID t \<in> Job_ID ` set (jobs w)) x b (table JobStep_ID (job_steps w)) (table JobStep_ID (job_steps w'))"
proof (rule table_law [OF step wf, where upd = "\<lambda>m t. m\<lparr>ab_steps := t\<rparr>"])
  show "w2 = tock w \<and> table_spec (outage E) step_schema (\<lambda>t. int4_ok (JobStep_ExecutionOrder t) \<and> JobStep_JobID t \<in> Job_ID ` set (jobs w)) (ListBy q) (Listed y)
      (table JobStep_ID (job_steps w)) (table JobStep_ID (job_steps w))"
    if "(JobStepStore_ListByJob E c) q w = (y, w2)" for q y w2
    using that by (rule step_list [OF wf])
  show "w2 = tock w \<and> table_spec (outage E) step_schema (\<lambda>t. int4_ok (JobStep_ExecutionOrder t) \<and> JobStep_JobID t \<in> Job_ID ` set (jobs w)) (Get g) (Got y)
      (table JobStep_ID (job_steps w)) (table JobStep_ID (job_steps w))"
    if "(JobStepStore_GetByID E c) g w = (y, w2)" for g y w2
    using that by (rule step_get [OF wf honest])
qed (simp_all add: abs_db_same step_create integrity.create_keeps(6) [OF wf])

lemma artifact_call:
  assumes wf: "wf_db w" and honest: "honest E"
    and step: "table_step (ArtifactStore_Create E c) (ArtifactStore_GetByID E c)
      (ArtifactStore_ListByJob E c) x w = (b, w')"
  shows "wf_db w' \<and> abs_db w' = abs_db w\<lparr>ab_artifacts := table Artifact_ID (artifacts w')\<rparr> \<and>
    table_spec (outage E) artifact_schema (\<lambda>a. Artifact_JobID a \<in> Job_ID ` set (jobs w)) x b (table Artifact_ID (artifacts w)) (table Artifact_ID (artifacts w'))"
proof (rule table_law [OF step wf, where upd = "\<lambda>m t. m\<lparr>ab_artifacts := t\<rparr>"])
  show "w2 = tock w \<and> table_spec (outage E) artifact_schema (\<lambda>a. Artifact_JobID a \<in> Job_ID ` set (jobs w)) (ListBy q) (Listed y)
      (table Artifact_ID (artifacts w)) (table Artifact_ID (artifacts w))"
    if "(ArtifactStore_ListByJob E c) q w = (y, w2)" for q y w2
    using that by (rule artifact_list [OF wf])
  show "w2 = tock w \<and> table_spec (outage E) artifact_schema (\<lambda>a. Artifact_JobID a \<in> Job_ID ` set (jobs w)) (Get g) (Got y)
      (table Artifact_ID (artifacts w)) (table Artifact_ID (artifacts w))"
    if "(ArtifactStore_GetByID E c) g w = (y, w2)" for g y w2
    using that by (rule artifact_get [OF wf honest])
qed (simp_all add: abs_db_same artifact_create integrity.create_keeps(7) [OF wf])

lemma execution_call:
  assumes wf: "wf_db w" and honest: "honest E"
    and step: "table_step (ExecutionStore_Create E c) (ExecutionStore_GetByID E c)
      (ExecutionStore_ListByJobStep E c) x w = (b, w')"
  shows "wf_db w' \<and> abs_db w' = abs_db w\<lparr>ab_executions := table Execution_ID (executions w')\<rparr> \<and>
    table_spec (outage E) execution_schema (\<lambda>x. Execution_JobStepID x \<in> JobStep_ID ` set (job_steps w)) x b (table Execution_ID (executions w)) (table Execution_ID (executions w'))"
proof (rule table_law [OF step wf, where upd = "\<lambda>m t. m\<lparr>ab_executions := t\<rparr>"])
  show "w2 = tock w \<and> table_spec (outage E) execution_schema (\<lambda>x. Execution_JobStepID x \<in> JobStep_ID ` set (job_steps w)) (ListBy q) (Listed y)
      (table Execution_ID (executions w)) (table Execution_ID (executions w))"
    if "(ExecutionStore_ListByJobStep E c) q w = (y, w2)" for q y w2
    using that by (rule execution_list [OF wf])
  show "w2 = tock w \<and> table_spec (outage E) execution_schema (\<lambda>x. Execution_JobStepID x \<in> JobStep_ID ` set (job_steps w)) (Get g) (Got y)
      (table Execution_ID (executions w)) (table Execution_ID (executions w))"
    if "(ExecutionStore_GetByID E c) g w = (y, w2)" for g y w2
    using that by (rule execution_get [OF wf honest])
qed (simp_all add: abs_db_same execution_create integrity.create_keeps(8) [OF wf])

text \<open>Every call of the eight stores does what the abstract data base allows.\<close>

lemmas abs_simps = postgres_stores_def store_defs project_valid_eq ran_table tables_distinct

lemma edit_law:
  assumes "edit_step update delete x w = (e, w')"
    and "\<And>r r'. x = Update r \<Longrightarrow> update r w = (e, r', w') \<Longrightarrow> Q"
    and "\<And>k. x = Delete k \<Longrightarrow> delete k w = (e, w') \<Longrightarrow> Q"
  shows Q
  using assms by (cases x) (auto split: prod.splits)

lemma status_law:
  assumes "status_step update x w = (e, w')" and "\<And>k s. x = SetStatus k s \<Longrightarrow> update k s w = (e, w') \<Longrightarrow> Q"
  shows Q
  using assms by (cases x) auto

lemma project_edit:
  assumes wf: "wf_db w" and "edit_step (ProjectStore_Update E c) (ProjectStore_Delete E c) x w = (e, w')"
  shows "wf_db w' \<and> store_spec (outage E) (c, ProjectEdit x) (Changed e) (abs_db w) (abs_db w')"
  using assms(2)
proof (rule edit_law)
  fix r r' assume x: "x = Update r" and u: "ProjectStore_Update E c r w = (e, r', w')"
  show ?thesis
    using project_update [OF u] edit_frame(1) [OF u] integrity.update_keeps(1) [OF wf u] wf
    by (auto simp: x abs_simps simp del: edit_spec.simps)
next
  fix k assume x: "x = Delete k" and d: "ProjectStore_Delete E c k w = (e, w')"
  show ?thesis
    using project_delete [OF d] edit_frame(2) [OF d] integrity.delete_keeps(1) [OF wf d] wf
    by (auto simp: x abs_simps simp del: edit_spec.simps)
qed

lemma repository_edit:
  assumes wf: "wf_db w" and "edit_step (RepositoryStore_Update E c) (RepositoryStore_Delete E c) x w = (e, w')"
  shows "wf_db w' \<and> store_spec (outage E) (c, RepositoryEdit x) (Changed e) (abs_db w) (abs_db w')"
  using assms(2)
proof (rule edit_law)
  fix r r' assume x: "x = Update r" and u: "RepositoryStore_Update E c r w = (e, r', w')"
  show ?thesis
    using repository_update [OF u] edit_frame(3) [OF u] integrity.update_keeps(2) [OF wf u] wf
    by (auto simp: x abs_simps simp del: edit_spec.simps)
next
  fix k assume x: "x = Delete k" and d: "RepositoryStore_Delete E c k w = (e, w')"
  show ?thesis
    using repository_delete [OF d] edit_frame(4) [OF d] integrity.delete_keeps(2) [OF wf d] wf
    by (auto simp: x abs_simps simp del: edit_spec.simps)
qed

lemma pipeline_edit:
  assumes wf: "wf_db w" and "edit_step (PipelineStore_Update E c) (PipelineStore_Delete E c) x w = (e, w')"
  shows "wf_db w' \<and> store_spec (outage E) (c, PipelineEdit x) (Changed e) (abs_db w) (abs_db w')"
  using assms(2)
proof (rule edit_law)
  fix r r' assume x: "x = Update r" and u: "PipelineStore_Update E c r w = (e, r', w')"
  show ?thesis
    using pipeline_update [OF u] edit_frame(5) [OF u] integrity.update_keeps(3) [OF wf u] wf
    by (auto simp: x abs_simps simp del: edit_spec.simps)
next
  fix k assume x: "x = Delete k" and d: "PipelineStore_Delete E c k w = (e, w')"
  show ?thesis
    using pipeline_delete [OF d] edit_frame(6) [OF d] integrity.delete_keeps(3) [OF wf d] wf
    by (auto simp: x abs_simps simp del: edit_spec.simps)
qed

lemma run_status_call:
  assumes wf: "wf_db w" and "status_step (PipelineRunStore_UpdateStatus E c) x w = (e, w')"
  shows "wf_db w' \<and> store_spec (outage E) (c, RunUpdate x) (Changed e) (abs_db w) (abs_db w')"
  using assms(2)
proof (rule status_law)
  fix k s assume x: "x = SetStatus k s" and u: "PipelineRunStore_UpdateStatus E c k s w = (e, w')"
  show ?thesis
    using run_status [OF u] integrity.update_keeps(4) [OF wf u] by (auto simp: x simp del: status_spec.simps)
qed

lemma job_status_call:
  assumes wf: "wf_db w" and "status_step (JobStore_UpdateStatus E c) x w = (e, w')"
  shows "wf_db w' \<and> store_spec (outage E) (c, JobUpdate x) (Changed e) (abs_db w) (abs_db w')"
  using assms(2)
proof (rule status_law)
  fix k s assume x: "x = SetStatus k s" and u: "JobStore_UpdateStatus E c k s w = (e, w')"
  show ?thesis
    using job_status [OF u] integrity.update_keeps(5) [OF wf u] by (auto simp: x simp del: status_spec.simps)
qed

lemma step_status_call:
  assumes wf: "wf_db w" and "status_step (JobStepStore_UpdateStatus E c) x w = (e, w')"
  shows "wf_db w' \<and> store_spec (outage E) (c, StepUpdate x) (Changed e) (abs_db w) (abs_db w')"
  using assms(2)
proof (rule status_law)
  fix k s assume x: "x = SetStatus k s" and u: "JobStepStore_UpdateStatus E c k s w = (e, w')"
  show ?thesis
    using step_status [OF u] integrity.update_keeps(6) [OF wf u] by (auto simp: x simp del: status_spec.simps)
qed

lemma execution_status_call:
  assumes wf: "wf_db w" and "status_step (ExecutionStore_UpdateStatus E c) x w = (e, w')"
  shows "wf_db w' \<and> store_spec (outage E) (c, ExecutionUpdate x) (Changed e) (abs_db w) (abs_db w')"
  using assms(2)
proof (rule status_law)
  fix k s assume x: "x = SetStatus k s" and u: "ExecutionStore_UpdateStatus E c k s w = (e, w')"
  show ?thesis
    using execution_status [OF u] integrity.update_keeps(7) [OF wf u] by (auto simp: x simp del: status_spec.simps)
qed

lemma store_step_refines:
  assumes wf: "wf_db w" and honest: "honest E" and step: "store_step (postgres_stores E) cx w = (a, w')"
  shows "wf_db w' \<and> store_spec (outage E) cx a (abs_db w) (abs_db w')"
proof -
  obtain c x where cx: "cx = (c, x)" by fastforce
  note [simp] = cx abs_simps
  show ?thesis
  proof (cases x)
    case (ProjectCall y)
    with step show ?thesis
      using project_call [OF wf honest] wf
      by (auto simp del: table_spec.simps intro!: exI [of _ "table Project_ID (projects w')"] split: prod.splits)
  next
    case (ProjectEdit y)
    with step show ?thesis
      using project_edit [OF wf] by (auto simp del: edit_spec.simps store_spec.simps split: prod.splits)
  next
    case (RepositoryCall y)
    with step show ?thesis
      using repository_call [OF wf honest] wf
      by (auto simp del: table_spec.simps intro!: exI [of _ "table Repository_ID (repositories w')"] split: prod.splits)
  next
    case (RepositoryEdit y)
    with step show ?thesis
      using repository_edit [OF wf] by (auto simp del: edit_spec.simps store_spec.simps split: prod.splits)
  next
    case (PipelineCall y)
    with step show ?thesis
      using pipeline_call [OF wf honest] wf
      by (auto simp del: table_spec.simps intro!: exI [of _ "table Pipeline_ID (pipelines w')"] split: prod.splits)
  next
    case (PipelineEdit y)
    with step show ?thesis
      using pipeline_edit [OF wf] by (auto simp del: edit_spec.simps store_spec.simps split: prod.splits)
  next
    case (RunCall y)
    with step show ?thesis
      using run_call [OF wf honest] wf
      by (auto simp del: table_spec.simps intro!: exI [of _ "table PipelineRun_ID (pipeline_runs w')"] split: prod.splits)
  next
    case (RunUpdate y)
    with step show ?thesis
      using run_status_call [OF wf] by (auto simp del: status_spec.simps store_spec.simps split: prod.splits)
  next
    case (JobCall y)
    with step show ?thesis
      using job_call [OF wf honest] wf
      by (auto simp del: table_spec.simps intro!: exI [of _ "table Job_ID (jobs w')"] split: prod.splits)
  next
    case (JobUpdate y)
    with step show ?thesis
      using job_status_call [OF wf] by (auto simp del: status_spec.simps store_spec.simps split: prod.splits)
  next
    case (StepCall y)
    with step show ?thesis
      using step_call [OF wf honest] wf
      by (auto simp del: table_spec.simps intro!: exI [of _ "table JobStep_ID (job_steps w')"] split: prod.splits)
  next
    case (StepUpdate y)
    with step show ?thesis
      using step_status_call [OF wf] by (auto simp del: status_spec.simps store_spec.simps split: prod.splits)
  next
    case (ArtifactCall y)
    with step show ?thesis
      using artifact_call [OF wf honest] wf
      by (auto simp del: table_spec.simps intro!: exI [of _ "table Artifact_ID (artifacts w')"] split: prod.splits)
  next
    case (ExecutionCall y)
    with step show ?thesis
      using execution_call [OF wf honest] wf
      by (auto simp del: table_spec.simps intro!: exI [of _ "table Execution_ID (executions w')"] split: prod.splits)
  next
    case (ExecutionUpdate y)
    with step show ?thesis
      using execution_status_call [OF wf] by (auto simp del: status_spec.simps store_spec.simps split: prod.splits)
  qed
qed

section \<open>Sessions\<close>

text \<open>
  Forward simulation: when every call does what a specification allows, so does every session.
\<close>

locale simulation =
  fixes step :: "'c \<Rightarrow> 's \<Rightarrow> 'a \<times> 's"
    and spec :: "'c \<Rightarrow> 'a \<Rightarrow> 'm \<Rightarrow> 'm \<Rightarrow> bool"
    and view :: "'s \<Rightarrow> 'm"
    and ok :: "'s \<Rightarrow> bool"
  assumes simulates: "ok s \<Longrightarrow> step c s = (a, s') \<Longrightarrow> ok s' \<and> spec c a (view s) (view s')"
begin

lemma session_explained:
  "ok s \<Longrightarrow> session step cs s = (answers, s') \<Longrightarrow> ok s' \<and> explained spec cs answers (view s) (view s')"
proof (induction cs arbitrary: s answers)
  case (Cons c cs)
  obtain a s1 where 1: "step c s = (a, s1)" by fastforce
  obtain bs s2 where 2: "session step cs s1 = (bs, s2)" by fastforce
  from Cons.prems(2) 1 2 have "answers = a # bs" "s2 = s'" by simp_all
  with simulates [OF Cons.prems(1) 1] Cons.IH [of s1 bs] 2 show ?case by auto
qed simp

end

text \<open>The environment is honest by assumption, which an interpretation may take along.\<close>

interpretation postgres: simulation "store_step (postgres_stores E)" "store_spec (outage E)" abs_db
    "\<lambda>w. wf_db w \<and> honest E" for E
  by unfold_locales (use store_step_refines in blast)

text \<open>
  C8: the stores refine the abstract data base. Take any calls of the eight stores, in any order
  and under any contexts, whatever fails. There is a run of the abstract data base (one map per
  entity) with the same answers: a Create that succeeds adds a row with the columns it was given
  under a fresh key, Get and the lists deliver exactly the rows that are there, edits and status
  updates change the one row they name, Create and Update are refused only for a taken key or name or
  a missing reference, Delete only while the row is referred to, \<open>ErrNotFound\<close> is reported only for
  what is not there, and every other error comes from outside.
\<close>

theorem stores_refine_maps:
  assumes "wf_db w" and "\<forall>e\<in>outage E. \<not> errors_Is e ErrNoRows"
    and "session (store_step (postgres_stores E)) cs w = (answers, w')"
  shows "explained (store_spec (outage E)) cs answers (abs_db w) (abs_db w')"
  using postgres.session_explained [of w E cs answers w'] assms by (simp add: honest_def)

text \<open>
  A session with nothing failing outside: a project is created, its name is refused the second time,
  and it is read back by name; a job nobody created is not found; a project with a repository is not
  deleted.
\<close>

definition sample_session :: "(ctx \<times> store_call) list" where
  "sample_session = [(Ctx, ProjectCall (Create other_project)), (Ctx, ProjectCall (Create other_project)),
     (Ctx, ProjectCall (Get (Inr ''other''))), (Ctx, JobCall (Get (JobID 9))),
     (Ctx, RepositoryCall (ListBy (ProjectID 1))), (Ctx, ProjectEdit (Delete (ProjectID 1)))]"

theorem stores_refine_maps_witness:
  "\<exists>answers w'. session (store_step (postgres_stores calm_env)) sample_session sample_world = (answers, w') \<and>
     explained (store_spec {}) sample_session answers (abs_db sample_world) (abs_db w') \<and>
     (case answers ! 1 of ProjectAnswer (Created (Some e) p) \<Rightarrow> e = UniqueViolation ''projects_name_key'' | _ \<Rightarrow> False) \<and>
     answers ! 5 = Changed (Some (ForeignKeyViolation ''repositories_project_id_fkey''))"
proof -
  let ?r = "session (store_step (postgres_stores calm_env)) sample_session sample_world"
  have none: "outage calm_env = {}"
    by (simp add: outage_def)
  then have honest: "\<forall>e\<in>outage calm_env. \<not> errors_Is e ErrNoRows" by simp
  have r: "?r = (fst ?r, snd ?r)" by simp
  have "case fst ?r ! 1 of ProjectAnswer (Created (Some e) p) \<Rightarrow> e = UniqueViolation ''projects_name_key'' | _ \<Rightarrow> False"
    "fst ?r ! 5 = Changed (Some (ForeignKeyViolation ''repositories_project_id_fkey''))"
    by code_simp+
  with stores_refine_maps [OF sample_wf honest r] r none show ?thesis by (intro exI conjI) simp_all
qed

end
