(* ===== verification/ArtifactFs.thy ===== *)
theory ArtifactFs
  imports Buildinator
begin

text \<open>
  \<open>internal/artifact/artifact.go\<close> and \<open>internal/artifact/filesystem/store.go\<close>: artifact bytes in
  a directory per identifier. The file system is part of the state; every call on it may fail, and
  a write may stop after some bytes.
\<close>

section \<open>The file system\<close>

type_synonym bytes = "8 word list"

text \<open>Where a path leads, lexically: whether it is rooted, and its components.\<close>

type_synonym location = "bool \<times> string list"

definition loc :: "string \<Rightarrow> location" where
  "loc p = (path_root p, path_comps p)"

record fs =
  fs_tick :: nat
  fs_files :: "location \<Rightarrow> bytes option"
  fs_dirs :: "location set"

text \<open>
  What the outside decides, by the number of the call: \<open>os_fault\<close> lets a call fail without effect
  (permissions, a full or broken disk), \<open>os_short\<close> lets a write fail after that many bytes,
  \<open>fs_now\<close> answers \<open>time.Now()\<close>. \<open>fs_id\<close> is the text form of an identifier and \<open>fs_marshal\<close> the
  JSON encoder of the metadata.
\<close>

record metadata =
  meta_ID :: string
  meta_CreatedAt :: time

record fs_env =
  os_fault :: "nat \<Rightarrow> error option"
  os_short :: "nat \<Rightarrow> (nat \<times> error) option"
  fs_now :: "nat \<Rightarrow> time"
  fs_id :: "uuid \<Rightarrow> string"
  fs_marshal :: "metadata \<Rightarrow> error + bytes"

definition os_call :: "fs_env \<Rightarrow> (fs \<Rightarrow> (error + 'a) \<times> fs) \<Rightarrow> fs \<Rightarrow> (error + 'a) \<times> fs" where
  "os_call F op fs = (let fs1 = fs\<lparr>fs_tick := Suc (fs_tick fs)\<rparr> in
     case os_fault F (fs_tick fs) of Some e \<Rightarrow> (Inl e, fs1) | None \<Rightarrow> op fs1)"

text \<open>\<open>os.MkdirAll\<close>: one directory after the other, until a file is in the way.\<close>

fun mkdirs :: "bool \<Rightarrow> string list \<Rightarrow> string list \<Rightarrow> fs \<Rightarrow> (error + unit) \<times> fs" where
  "mkdirs r upper [] fs = (Inr (), fs)"
| "mkdirs r upper (c # cs) fs =
    (if fs_files fs (r, upper @ [c]) \<noteq> None then (Inl (External ''not a directory''), fs)
     else mkdirs r (upper @ [c]) cs (fs\<lparr>fs_dirs := insert (r, upper @ [c]) (fs_dirs fs)\<rparr>))"

definition os_MkdirAll :: "fs_env \<Rightarrow> string \<Rightarrow> fs \<Rightarrow> (error + unit) \<times> fs" where
  "os_MkdirAll F p = os_call F (mkdirs (path_root p) [] (path_comps p))"

text \<open>\<open>os.Create\<close>: the file is emptied if it exists.\<close>

definition os_Create :: "fs_env \<Rightarrow> string \<Rightarrow> fs \<Rightarrow> (error + location) \<times> fs" where
  "os_Create F p = os_call F (\<lambda>fs. case loc p of (r, cs) \<Rightarrow>
     if cs = [] \<or> (r, cs) \<in> fs_dirs fs then (Inl (External ''is a directory''), fs)
     else if butlast cs \<noteq> [] \<and> (r, butlast cs) \<notin> fs_dirs fs
     then (Inl (External ''no such file or directory''), fs)
     else (Inr (r, cs), fs\<lparr>fs_files := (fs_files fs)((r, cs) \<mapsto> [])\<rparr>))"

text \<open>
  Writing to a file just created; a reader is the bytes it delivers and the error, if any, that it
  ends with.
\<close>

type_synonym reader = "bytes \<times> error option"

definition io_Copy :: "fs_env \<Rightarrow> location \<Rightarrow> reader \<Rightarrow> fs \<Rightarrow> (error + unit) \<times> fs" where
  "io_Copy F f src = os_call F (\<lambda>fs. case src of (content, rerr) \<Rightarrow>
     let write = (\<lambda>bs. fs\<lparr>fs_files := (fs_files fs)(f \<mapsto> bs)\<rparr>) in
     (case os_short F (fs_tick fs) of
        Some (k, e) \<Rightarrow> (Inl e, write (take k content))
      | None \<Rightarrow> (case rerr of Some e \<Rightarrow> (Inl e, write content) | None \<Rightarrow> (Inr (), write content))))"

definition os_WriteFile :: "fs_env \<Rightarrow> string \<Rightarrow> bytes \<Rightarrow> fs \<Rightarrow> (error + unit) \<times> fs" where
  "os_WriteFile F p bs fs =
    (case os_Create F p fs of (Inl e, fs1) \<Rightarrow> (Inl e, fs1) | (Inr f, fs1) \<Rightarrow> io_Copy F f (bs, None) fs1)"

text \<open>
  \<open>os.Open\<close>: the reader of a file delivers its bytes; a directory can be opened, but not read.
\<close>

definition os_Open :: "fs_env \<Rightarrow> string \<Rightarrow> fs \<Rightarrow> (error + reader) \<times> fs" where
  "os_Open F p = os_call F (\<lambda>fs. (case fs_files fs (loc p) of
       Some bs \<Rightarrow> Inr (bs, None)
     | None \<Rightarrow> if loc p \<in> fs_dirs fs then Inr ([], Some (External ''is a directory''))
         else Inl (External ''no such file or directory''), fs))"

section \<open>The code\<close>

definition BackendNFS :: string where "BackendNFS = ''nfs''"

record Ref =
  Ref_Backend :: string
  Ref_Locator :: string

record Store =
  store_backend :: string
  store_basePath :: string

definition Store_New :: "string \<Rightarrow> string \<Rightarrow> Store" where
  "Store_New backend basePath = \<lparr>store_backend = backend, store_basePath = basePath\<rparr>"

definition Store_Put :: "fs_env \<Rightarrow> Store \<Rightarrow> uuid \<Rightarrow> reader \<Rightarrow> fs \<Rightarrow> (error + Ref) \<times> fs" where
  "Store_Put F s i content fs =
    (let dir = filepath_Join [store_basePath s, fs_id F i] in
     case os_MkdirAll F dir fs of
       (Inl e, fs1) \<Rightarrow> (Inl (Wrapf ''create artifact dir: %w'' [] e), fs1)
     | (Inr _, fs1) \<Rightarrow>
        (case os_Create F (filepath_Join [dir, ''payload'']) fs1 of
           (Inl e, fs2) \<Rightarrow> (Inl (Wrapf ''create payload file: %w'' [] e), fs2)
         | (Inr f, fs2) \<Rightarrow>
            (case io_Copy F f content fs2 of
               (Inl e, fs3) \<Rightarrow> (Inl (Wrapf ''write payload: %w'' [] e), fs3)
             | (Inr _, fs3) \<Rightarrow>
                (case fs_marshal F \<lparr>meta_ID = fs_id F i, meta_CreatedAt = fs_now F (fs_tick fs3)\<rparr> of
                   Inl e \<Rightarrow> (Inl (Wrapf ''marshal metadata: %w'' [] e), fs3)
                 | Inr metaBytes \<Rightarrow>
                    (case os_WriteFile F (filepath_Join [dir, ''metadata.json'']) metaBytes fs3 of
                       (Inl e, fs4) \<Rightarrow> (Inl (Wrapf ''write metadata: %w'' [] e), fs4)
                     | (Inr _, fs4) \<Rightarrow>
                        (Inr \<lparr>Ref_Backend = store_backend s, Ref_Locator = dir\<rparr>, fs4))))))"

definition Store_Get :: "fs_env \<Rightarrow> Store \<Rightarrow> Ref \<Rightarrow> fs \<Rightarrow> (error + reader) \<times> fs" where
  "Store_Get F s ref fs =
    (if Ref_Backend ref \<noteq> store_backend s
     then (Inl (Errorf ''backend mismatch: store is %q, ref is %q''
             [AStr (store_backend s), AStr (Ref_Backend ref)]), fs)
     else (case os_Open F (filepath_Join [Ref_Locator ref, ''payload'']) fs of
         (Inl e, fs1) \<Rightarrow> (Inl (Wrapf ''open payload: %w'' [] e), fs1)
       | (Inr f, fs1) \<Rightarrow> (Inr f, fs1)))"

section \<open>Where the files are\<close>

definition payload_loc :: "fs_env \<Rightarrow> Store \<Rightarrow> uuid \<Rightarrow> location" where
  "payload_loc F s i = loc (filepath_Join [filepath_Join [store_basePath s, fs_id F i], ''payload''])"

definition metadata_loc :: "fs_env \<Rightarrow> Store \<Rightarrow> uuid \<Rightarrow> location" where
  "metadata_loc F s i = loc (filepath_Join [filepath_Join [store_basePath s, fs_id F i], ''metadata.json''])"

text \<open>The text form of an identifier: hexadecimal digits and dashes, different for each.\<close>

definition ids_ok :: "fs_env \<Rightarrow> bool" where
  "ids_ok F \<longleftrightarrow> inj (fs_id F) \<and> (\<forall>i. plain (fs_id F i))"

lemma plain_names [simp]: "plain ''payload''" "plain ''metadata.json''"
  by (simp_all add: plain_def)

lemma loc_Join: "plain a \<Longrightarrow> loc (filepath_Join [p, a]) = (path_root p, path_comps p @ [a])"
  by (simp add: loc_def Join_root_comps)

lemma locs:
  assumes "ids_ok F"
  shows "payload_loc F s i = (path_root (store_basePath s), path_comps (store_basePath s) @ [fs_id F i, ''payload''])"
    and "metadata_loc F s i = (path_root (store_basePath s), path_comps (store_basePath s) @ [fs_id F i, ''metadata.json''])"
  using assms by (simp_all add: payload_loc_def metadata_loc_def loc_Join Join_root_comps ids_ok_def)

lemma locs_distinct:
  assumes "ids_ok F"
  shows "payload_loc F s i = payload_loc F s j \<longleftrightarrow> i = j" "payload_loc F s i \<noteq> metadata_loc F s j"
  using assms by (auto simp: locs ids_ok_def inj_eq)

lemma mkdirs_files [simp]: "fs_files (snd (mkdirs r upper cs fs)) = fs_files fs"
  by (induction r upper cs fs rule: mkdirs.induct) auto

lemma MkdirAll_files [simp]: "fs_files (snd (os_MkdirAll F p fs)) = fs_files fs"
  by (simp add: os_MkdirAll_def os_call_def Let_def split: option.split)

lemma Create_files:
  "os_Create F p fs = (Inr f, fs') \<Longrightarrow> f = loc p \<and> fs_files fs' = (fs_files fs)(loc p \<mapsto> [])"
  "os_Create F p fs = (Inl e, fs') \<Longrightarrow> fs_files fs' = fs_files fs"
  by (auto simp: os_Create_def os_call_def Let_def split: option.splits if_splits prod.splits)

lemma Copy_files:
  "io_Copy F f (content, rerr) fs = (r, fs') \<Longrightarrow>
     fs_files fs' = fs_files fs \<or> (\<exists>k. fs_files fs' = (fs_files fs)(f \<mapsto> take k content))"
  "io_Copy F f (content, rerr) fs = (Inr u, fs') \<Longrightarrow>
     rerr = None \<and> fs_files fs' = (fs_files fs)(f \<mapsto> content)"
  by (auto simp: io_Copy_def os_call_def Let_def split: option.splits prod.splits)
    (metis take_all order_refl)+

lemma WriteFile_files:
  "os_WriteFile F p bs fs = (r, fs') \<Longrightarrow> l \<noteq> loc p \<Longrightarrow> fs_files fs' l = fs_files fs l"
  by (auto simp: os_WriteFile_def split: prod.splits sum.splits dest!: Create_files Copy_files(1))

text \<open>What \<open>Put\<close> does to the files: nothing but the two files of its identifier.\<close>

lemma Put_frame:
  assumes "l \<noteq> payload_loc F s i" and "l \<noteq> metadata_loc F s i"
  shows "fs_files (snd (Store_Put F s i content fs)) l = fs_files fs l"
proof -
  let ?dir = "filepath_Join [store_basePath s, fs_id F i]"
  obtain r1 fs1 where m: "os_MkdirAll F ?dir fs = (r1, fs1)" by fastforce
  obtain r2 fs2 where c: "os_Create F (filepath_Join [?dir, ''payload'']) fs1 = (r2, fs2)" by fastforce
  have 1: "fs_files fs1 = fs_files fs" using MkdirAll_files [of F ?dir fs] m by simp
  have 2: "fs_files fs2 l = fs_files fs1 l"
    using c assms(1) by (cases r2) (auto simp: payload_loc_def dest!: Create_files)
  show ?thesis
  proof (cases r2)
    case (Inl e)
    with m c 1 2 show ?thesis by (cases r1) (simp_all add: Store_Put_def Let_def)
  next
    case (Inr f)
    then have f: "f = payload_loc F s i" using c by (auto simp: payload_loc_def dest!: Create_files)
    obtain r3 fs3 where w: "io_Copy F f content fs2 = (r3, fs3)" by fastforce
    have 3: "fs_files fs3 l = fs_files fs2 l"
      using Copy_files(1) [of F f "fst content" "snd content" fs2 r3 fs3] w assms(1) f by auto
    have 4: "fs_files fs4 l = fs_files fs3 l"
      if "os_WriteFile F (filepath_Join [?dir, ''metadata.json'']) bs fs3 = (r4, fs4)" for bs r4 fs4
      using WriteFile_files [OF that] assms(2) by (simp add: metadata_loc_def)
    show ?thesis
      using m c w Inr 1 2 3 4
      by (auto simp: Store_Put_def Let_def split: sum.split prod.split)
  qed
qed

lemma Put_payload:
  assumes "ids_ok F" and "Store_Put F s i content fs = (Inr ref, fs')"
  shows "fs_files fs' (payload_loc F s i) = Some (fst content)" and "snd content = None"
    and "ref = \<lparr>Ref_Backend = store_backend s, Ref_Locator = filepath_Join [store_basePath s, fs_id F i]\<rparr>"
proof -
  let ?dir = "filepath_Join [store_basePath s, fs_id F i]"
  obtain fs1 f fs2 fs3 bs fs4 where m: "os_MkdirAll F ?dir fs = (Inr (), fs1)"
    and c: "os_Create F (filepath_Join [?dir, ''payload'']) fs1 = (Inr f, fs2)"
    and w: "io_Copy F f content fs2 = (Inr (), fs3)"
    and x: "os_WriteFile F (filepath_Join [?dir, ''metadata.json'']) bs fs3 = (Inr (), fs')"
    and ref: "ref = \<lparr>Ref_Backend = store_backend s, Ref_Locator = ?dir\<rparr>"
    using assms(2) by (auto simp: Store_Put_def Let_def split: sum.splits prod.splits)
  have f: "f = payload_loc F s i" using Create_files(1) [OF c] by (simp add: payload_loc_def)
  have w': "snd content = None" "fs_files fs3 f = Some (fst content)"
    using Copy_files(2) [of F f "fst content" "snd content" fs2 "()" fs3] w by simp_all
  show "snd content = None" by (rule w'(1))
  show "ref = \<lparr>Ref_Backend = store_backend s, Ref_Locator = ?dir\<rparr>" by (rule ref)
  show "fs_files fs' (payload_loc F s i) = Some (fst content)"
    using WriteFile_files [OF x, of f] w'(2) f locs_distinct(2) [OF assms(1), of s i i]
    by (simp add: metadata_loc_def)
qed

section \<open>The contract of an artifact store\<close>

text \<open>Several puts, one after the other, until one fails.\<close>

fun put_all :: "('i \<Rightarrow> 'c \<Rightarrow> 's \<Rightarrow> (error + 'r) \<times> 's) \<Rightarrow> ('i \<times> 'c) list \<Rightarrow> 's \<Rightarrow> error option \<times> 's" where
  "put_all put [] s = (None, s)"
| "put_all put ((i, c) # cs) s =
    (case put i c s of (Inl e, s1) \<Rightarrow> (Some e, s1) | (Inr _, s1) \<Rightarrow> put_all put cs s1)"

text \<open>
  What the interface promises: an accepted put stores the bytes under its identifier, and no put
  touches the bytes under another one.
\<close>

locale artifact_store =
  fixes put :: "'i \<Rightarrow> 'c \<Rightarrow> 's \<Rightarrow> (error + 'r) \<times> 's"
    and stored :: "'s \<Rightarrow> 'i \<Rightarrow> 'b option" and bytes_of :: "'c \<Rightarrow> 'b"
  assumes put_stored: "put i c s = (Inr r, s') \<Longrightarrow> stored s' i = Some (bytes_of c)"
    and put_other: "j \<noteq> i \<Longrightarrow> stored (snd (put i c s)) j = stored s j"
begin

lemma put_all_other: "i \<notin> fst ` set cs \<Longrightarrow> stored (snd (put_all put cs s)) i = stored s i"
proof (induction cs arbitrary: s)
  case (Cons x cs)
  then show ?case
    using put_other [of i "fst x" "snd x" s] by (cases x) (auto split: prod.splits sum.splits)
qed simp

lemma put_all_stored:
  "put_all put cs s = (None, s') \<Longrightarrow> distinct (map fst cs) \<Longrightarrow> (i, c) \<in> set cs \<Longrightarrow>
     stored s' i = Some (bytes_of c)"
proof (induction cs arbitrary: s)
  case (Cons x cs)
  obtain j d where x: "x = (j, d)" by (cases x)
  with Cons.prems(1) obtain r s1 where p: "put j d s = (Inr r, s1)" and rest: "put_all put cs s1 = (None, s')"
    by (auto split: prod.splits sum.splits)
  show ?case
  proof (cases "(i, c) \<in> set cs")
    case True
    with Cons.IH [OF rest] Cons.prems(2) show ?thesis by simp
  next
    case False
    with Cons.prems x have "i = j" "c = d" "i \<notin> fst ` set cs" by auto
    with put_all_other [of i cs s1] put_stored [OF p] rest show ?thesis by simp
  qed
qed simp

end

text \<open>The store of one environment, refusing to work with text forms that are not identifiers.\<close>

definition checked_Put :: "fs_env \<Rightarrow> Store \<Rightarrow> uuid \<Rightarrow> reader \<Rightarrow> fs \<Rightarrow> (error + Ref) \<times> fs" where
  "checked_Put F s i c fs = (if ids_ok F then Store_Put F s i c fs else (Inl (External ''identifiers''), fs))"

interpretation filesystem: artifact_store "checked_Put F s" "\<lambda>fs i. fs_files fs (payload_loc F s i)" fst
  for F s
proof unfold_locales
  fix i c fs r fs'
  assume "checked_Put F s i c fs = (Inr r, fs')"
  then show "fs_files fs' (payload_loc F s i) = Some (fst c)"
    by (auto simp: checked_Put_def Put_payload split: if_splits)
next
  fix i j :: uuid and c fs
  assume "j \<noteq> i"
  then show "fs_files (snd (checked_Put F s i c fs)) (payload_loc F s j) = fs_files fs (payload_loc F s j)"
    using Put_frame [of "payload_loc F s j" F s i c fs] locs_distinct [of F s]
    by (auto simp: checked_Put_def)
qed

section \<open>The properties\<close>

lemma Get_stored:
  assumes "fs_files fs (payload_loc F s i) = Some bs" and "os_fault F (fs_tick fs) = None"
  shows "fst (Store_Get F s \<lparr>Ref_Backend = store_backend s,
    Ref_Locator = filepath_Join [store_basePath s, fs_id F i]\<rparr> fs) = Inr (bs, None)"
  using assms by (simp add: Store_Get_def os_Open_def os_call_def Let_def payload_loc_def)

text \<open>
  C21: bytes that were put are what is read back: after any number of accepted puts under different
  identifiers, opening the reference of one of them delivers exactly its bytes, without an error,
  unless the file system fails at that moment. The directories of different identifiers do not
  collide, whatever the base path.
\<close>

theorem artifacts_read_back:
  assumes "put_all (Store_Put F s) cs fs = (None, fs')" and "distinct (map fst cs)"
    and "(i, c) \<in> set cs" and "ids_ok F" and "os_fault F (fs_tick fs') = None"
  shows "fst (Store_Get F s \<lparr>Ref_Backend = store_backend s,
    Ref_Locator = filepath_Join [store_basePath s, fs_id F i]\<rparr> fs') = Inr (fst c, None)"
proof -
  have "checked_Put F s = Store_Put F s" using assms(4) by (intro ext) (simp add: checked_Put_def)
  then show ?thesis
    using filesystem.put_all_stored [of F s cs fs fs' i c] assms by (intro Get_stored) simp_all
qed

definition sample_fs_env :: fs_env where
  "sample_fs_env = \<lparr>os_fault = (\<lambda>_. None), os_short = (\<lambda>_. None), fs_now = int,
     fs_id = (\<lambda>u. ''id-'' @ replicate (unat u) CHR ''1''), fs_marshal = (\<lambda>_. Inr [123, 125])\<rparr>"

definition sample_store :: Store where
  "sample_store = Store_New BackendNFS ''/mnt/artifacts''"

definition empty_fs :: fs where
  "empty_fs = \<lparr>fs_tick = 0, fs_files = Map.empty, fs_dirs = {}\<rparr>"

lemma sample_ids: "ids_ok sample_fs_env"
  by (auto simp: ids_ok_def sample_fs_env_def inj_def plain_def replicate_eq_replicate
      intro: unsigned_word_eqI)

theorem artifacts_read_back_witness:
  "fst (Store_Get sample_fs_env sample_store \<lparr>Ref_Backend = ''nfs'',
     Ref_Locator = filepath_Join [''/mnt/artifacts'', ''id-1'']\<rparr>
     (snd (put_all (Store_Put sample_fs_env sample_store) [(1, ([1, 2], None)), (2, ([3], None))] empty_fs))) =
   Inr ([1, 2], None)"
proof -
  let ?cs = "[(1 :: uuid, ([1, 2], None)), (2, ([3], None))] :: (uuid \<times> reader) list"
  let ?r = "put_all (Store_Put sample_fs_env sample_store) ?cs empty_fs"
  have "fst ?r = None" by code_simp
  then have r: "?r = (None, snd ?r)" by (metis prod.collapse)
  have "(1 :: uuid, ([1, 2], None) :: reader) \<in> set ?cs" "distinct (map fst ?cs)" by simp_all
  from artifacts_read_back [OF r this(2,1) sample_ids] show ?thesis
    by (simp add: sample_fs_env_def sample_store_def Store_New_def BackendNFS_def)
qed

text \<open>
  C34: the reference that an accepted put returns is what the build stage registers for that
  identifier: the backend and the path of its artifact row, for the same base path and text form
  of identifiers, so the row leads to the bytes.
\<close>

theorem put_matches_row:
  assumes "Store_Put F (Store_New (bld_backend b) (bld_basePath b)) i content fs = (Inr ref, fs')"
    and "ids_ok F" and "uuid_str E = fs_id F"
  shows "Ref_Backend ref = Artifact_StorageBackend (new_artifact E b jobID (ArtifactID i) out) \<and>
    Ref_Locator ref = Artifact_StoragePath (new_artifact E b jobID (ArtifactID i) out)"
  using Put_payload(3) [OF assms(2,1)] assms(3) by (simp add: new_artifact_def Store_New_def String_defs)

theorem put_matches_row_witness:
  "\<exists>ref fs'. Store_Put sample_fs_env sample_store 1 ([1, 2], None) empty_fs = (Inr ref, fs') \<and>
     Ref_Locator ref = Artifact_StoragePath (new_artifact calm_env
       (Buildinator_New (runStep calm_env) ''nfs'' ''/mnt/artifacts'' ''builder'') (JobID 5) (ArtifactID 1)
       \<lparr>BuildOutput_Type = ''binary'', BuildOutput_Path = ''bin/app'', BuildOutput_Ref = ''''\<rparr>)"
proof -
  let ?b = "Buildinator_New (runStep calm_env) ''nfs'' ''/mnt/artifacts'' ''builder''"
  let ?r = "Store_Put sample_fs_env sample_store 1 ([1, 2], None) empty_fs"
  have s: "sample_store = Store_New (bld_backend ?b) (bld_basePath ?b)"
    by (simp add: sample_store_def Buildinator_New_def BackendNFS_def)
  have "isl (fst ?r) = False" by code_simp
  then obtain ref where "fst ?r = Inr ref" by (cases "fst ?r") auto
  then have r: "?r = (Inr ref, snd ?r)" by (metis prod.collapse)
  have "uuid_str calm_env = fs_id sample_fs_env" by (simp add: calm_env_def sample_fs_env_def)
  from put_matches_row [OF r [unfolded s] sample_ids this] r show ?thesis by (auto simp: s)
qed

text \<open>
  C35: a put is not atomic. When the content cannot be read to its end, \<open>Put\<close> returns an error but
  what it has read stays behind as the payload, in place of what was stored before, and the
  reference of the identifier delivers it.
\<close>

theorem failed_put_is_visible:
  assumes "Store_Put F s i (bs, Some e) fs = (Inl (Wrapf ''write payload: %w'' [] e), fs')" and "ids_ok F"
    and "\<forall>n. os_fault F n = None" and "\<forall>n. os_short F n = None"
  shows "fst (Store_Get F s \<lparr>Ref_Backend = store_backend s,
    Ref_Locator = filepath_Join [store_basePath s, fs_id F i]\<rparr> fs') = Inr (bs, None)"
proof -
  let ?dir = "filepath_Join [store_basePath s, fs_id F i]"
  obtain fs1 f fs2 e' where m: "os_MkdirAll F ?dir fs = (Inr (), fs1)"
    and c: "os_Create F (filepath_Join [?dir, ''payload'']) fs1 = (Inr f, fs2)"
    and w: "io_Copy F f (bs, Some e) fs2 = (Inl e', fs')"
    using assms(1) by (auto simp: Store_Put_def Let_def split: sum.splits prod.splits)
  have "f = payload_loc F s i" using Create_files(1) [OF c] by (simp add: payload_loc_def)
  then have "fs_files fs' (payload_loc F s i) = Some bs"
    using w assms(3,4) by (auto simp: io_Copy_def os_call_def Let_def)
  then show ?thesis using assms(3) by (intro Get_stored) simp_all
qed

theorem failed_put_is_visible_witness:
  "\<exists>fs'. Store_Put sample_fs_env sample_store 1 ([7], Some (External ''EOF'')) empty_fs =
       (Inl (Wrapf ''write payload: %w'' [] (External ''EOF'')), fs') \<and>
     fst (Store_Get sample_fs_env sample_store \<lparr>Ref_Backend = ''nfs'',
       Ref_Locator = filepath_Join [''/mnt/artifacts'', ''id-1'']\<rparr> fs') = Inr ([7], None)"
proof -
  let ?r = "Store_Put sample_fs_env sample_store 1 ([7], Some (External ''EOF'')) empty_fs"
  have "fst ?r = Inl (Wrapf ''write payload: %w'' [] (External ''EOF''))" by code_simp
  then have r: "?r = (Inl (Wrapf ''write payload: %w'' [] (External ''EOF'')), snd ?r)"
    by (metis prod.collapse)
  from failed_put_is_visible [OF r sample_ids] r show ?thesis
    by (auto simp: sample_fs_env_def sample_store_def Store_New_def BackendNFS_def)
qed

end
