(* ===== verification/ServerConfig.thy ===== *)
theory ServerConfig
  imports Prelude
begin

text \<open>
  \<open>internal/server/config/config.go\<close> and \<open>cmd/server/main.go\<close>: the configuration of the server
  process, read through the viper library, and the order of its start-up and shut-down. Viper is a
  parameter; what the code tells it is recorded, and its documented lookup order is a hypothesis.
\<close>

section \<open>Configuration\<close>

record DBConfig =
  DB_Host :: string
  DB_Port :: string
  DB_User :: string
  DB_Password :: string
  DB_Name :: string
  DB_SSLMode :: string

record Server_Config =
  ListenAddr :: string
  Config_DB :: DBConfig
  ArtifactPath :: string
  KubeConfig :: string
  LogLevel :: string

text \<open>The fields of the data base library's configuration.\<close>

record postgres_Config =
  Pg_Host :: string
  Pg_Port :: string
  Pg_User :: string
  Pg_Password :: string
  Pg_DBName :: string
  Pg_SSLMode :: string

definition PostgresConfig :: "DBConfig \<Rightarrow> postgres_Config" where
  "PostgresConfig db = \<lparr>Pg_Host = DB_Host db, Pg_Port = DB_Port db, Pg_User = DB_User db,
     Pg_Password = DB_Password db, Pg_DBName = DB_Name db, Pg_SSLMode = DB_SSLMode db\<rparr>"

text \<open>What a \<open>viper.Viper\<close> has been told.\<close>

record viper =
  v_defaults :: "(string \<times> string) list"
  v_configType :: string
  v_configFile :: "string option"
  v_configName :: string
  v_configPaths :: "string list"
  v_envPrefix :: string
  v_replacer :: "(string \<times> string) list"
  v_automaticEnv :: bool
  v_bound :: "string list"

definition viper_New :: viper where
  "viper_New = \<lparr>v_defaults = [], v_configType = '''', v_configFile = None, v_configName = '''',
     v_configPaths = [], v_envPrefix = '''', v_replacer = [], v_automaticEnv = False, v_bound = []\<rparr>"

text \<open>
  The library's part: reading the file (an error is marked when it is a
  \<open>viper.ConfigFileNotFoundError\<close>), accepting a key to bind, and filling in the struct.
\<close>

record viper_lib =
  ReadInConfig :: "viper \<Rightarrow> (error \<times> bool) option"
  BindEnv_error :: "viper \<Rightarrow> string \<Rightarrow> error option"
  Unmarshal :: "viper \<Rightarrow> error + Server_Config"

definition default_settings :: "(string \<times> string) list" where
  "default_settings = [(''listen_addr'', '':8080''),
     (''artifact_path'', ''/var/lib/shipinator/artifacts''), (''log_level'', ''info''),
     (''db.host'', ''localhost''), (''db.port'', ''5432''), (''db.user'', ''postgres''),
     (''db.password'', ''postgres''), (''db.ssl_mode'', ''disable'')]"

definition bound_keys :: "string list" where
  "bound_keys = [''db.host'', ''db.port'', ''db.user'', ''db.password'', ''db.name'', ''db.ssl_mode'',
     ''kubeconfig'']"

primrec bind_all :: "viper_lib \<Rightarrow> string list \<Rightarrow> viper \<Rightarrow> error + viper" where
  "bind_all L [] v = Inr v"
| "bind_all L (key # keys) v =
    (case BindEnv_error L v key of
       Some e \<Rightarrow> Inl (Wrapf ''binding env for %s: %w'' [AStr key] e)
     | None \<Rightarrow> bind_all L keys (v\<lparr>v_bound := v_bound v @ [key]\<rparr>))"

definition file_settings :: "string \<Rightarrow> viper" where
  "file_settings configPath =
    (let v = viper_New\<lparr>v_defaults := default_settings, v_configType := ''yaml''\<rparr> in
     if configPath \<noteq> '''' then v\<lparr>v_configFile := Some configPath\<rparr>
     else v\<lparr>v_configName := ''config'', v_configPaths := [''.'', ''/etc/shipinator'']\<rparr>)"

definition Server_Load :: "viper_lib \<Rightarrow> string \<Rightarrow> error + Server_Config" where
  "Server_Load L configPath =
    (let v1 = file_settings configPath in
     case ReadInConfig L v1 of
       Some (e, False) \<Rightarrow> Inl (Wrapf ''reading config: %w'' [] e)
     | _ \<Rightarrow>
        (case bind_all L bound_keys (v1\<lparr>v_envPrefix := ''SHIPINATOR'',
                v_replacer := [(''.'', ''_''), (''-'', ''_'')], v_automaticEnv := True\<rparr>) of
           Inl e \<Rightarrow> Inl e
         | Inr v2 \<Rightarrow>
            (case Unmarshal L v2 of
               Inl e \<Rightarrow> Inl (Wrapf ''unmarshalling config: %w'' [] e)
             | Inr cfg \<Rightarrow> if DB_Name (Config_DB cfg) = '''' then Inl (Errorf ''db.name is required'' [])
                 else Inr cfg)))"

section \<open>What viper promises\<close>

text \<open>
  The environment variable of a key: the prefix and the key in upper case, with the replacements.
\<close>

definition to_upper :: "char \<Rightarrow> char" where
  "to_upper c = (if (of_char c :: nat) \<in> {97..122} then char_of (of_char c - 32 :: nat) else c)"

definition replace_char :: "(string \<times> string) list \<Rightarrow> char \<Rightarrow> string" where
  "replace_char rs c = (case map_of rs [c] of Some t \<Rightarrow> t | None \<Rightarrow> [c])"

definition env_name :: "viper \<Rightarrow> string \<Rightarrow> string" where
  "env_name v key = concat (map (replace_char (v_replacer v)) (map to_upper (v_envPrefix v @ ''_'' @ key)))"

text \<open>
  The documented order of precedence: a variable that is set and not empty, for a key that was
  bound or is known otherwise when \<open>AutomaticEnv\<close> is on; then the configuration file; then the
  default.
\<close>

definition resolve :: "(string \<Rightarrow> string) \<Rightarrow> (string \<Rightarrow> string option) \<Rightarrow> viper \<Rightarrow> string \<Rightarrow> string" where
  "resolve getenv file v key =
    (if (key \<in> set (v_bound v) \<or> v_automaticEnv v \<and> (key \<in> fst ` set (v_defaults v) \<or> file key \<noteq> None)) \<and>
        getenv (env_name v key) \<noteq> '''' then getenv (env_name v key)
     else case file key of Some s \<Rightarrow> s
       | None \<Rightarrow> (case map_of (v_defaults v) key of Some s \<Rightarrow> s | None \<Rightarrow> ''''))"

definition config_of :: "(string \<Rightarrow> string) \<Rightarrow> Server_Config" where
  "config_of get = \<lparr>ListenAddr = get ''listen_addr'',
     Config_DB = \<lparr>DB_Host = get ''db.host'', DB_Port = get ''db.port'', DB_User = get ''db.user'',
       DB_Password = get ''db.password'', DB_Name = get ''db.name'', DB_SSLMode = get ''db.ssl_mode''\<rparr>,
     ArtifactPath = get ''artifact_path'', KubeConfig = get ''kubeconfig'', LogLevel = get ''log_level''\<rparr>"

definition viper_documented :: "(string \<Rightarrow> string) \<Rightarrow> (string \<Rightarrow> string option) \<Rightarrow> viper_lib \<Rightarrow> bool" where
  "viper_documented getenv file L \<longleftrightarrow> (\<forall>v key. BindEnv_error L v key = None) \<and>
     (\<forall>v. Unmarshal L v = Inr (config_of (resolve getenv file v)))"

lemma bind_all_ok:
  "\<forall>v key. BindEnv_error L v key = None \<Longrightarrow> bind_all L keys v = Inr (v\<lparr>v_bound := v_bound v @ keys\<rparr>)"
  by (induction keys arbitrary: v) simp_all

text \<open>A key of the server: its variable, else the file, else a default.\<close>

definition setting :: "(string \<Rightarrow> string) \<Rightarrow> (string \<Rightarrow> string option) \<Rightarrow> string \<Rightarrow> string \<Rightarrow> string \<Rightarrow> string" where
  "setting getenv file var key dflt =
    (if getenv var \<noteq> '''' then getenv var else case file key of Some s \<Rightarrow> s | None \<Rightarrow> dflt)"

text \<open>The state of viper after \<open>Load\<close> told it everything.\<close>

definition told :: "viper \<Rightarrow> bool" where
  "told v \<longleftrightarrow> v_defaults v = default_settings \<and> v_envPrefix v = ''SHIPINATOR'' \<and>
     v_replacer v = [(''.'', ''_''), (''-'', ''_'')] \<and> v_automaticEnv v \<and> v_bound v = bound_keys"

definition known_key :: "string \<Rightarrow> bool" where
  "known_key key \<longleftrightarrow> key \<in> set bound_keys \<or> key \<in> fst ` set default_settings"

definition variable_of :: "string \<Rightarrow> string" where
  "variable_of key =
     concat (map (replace_char [(''.'', ''_''), (''-'', ''_'')]) (map to_upper (''SHIPINATOR'' @ ''_'' @ key)))"

definition default_of :: "string \<Rightarrow> string" where
  "default_of key = (case map_of default_settings key of Some s \<Rightarrow> s | None \<Rightarrow> '''')"

lemma resolve_told:
  assumes "told v" and "known_key key"
  shows "resolve getenv file v key = setting getenv file (variable_of key) key (default_of key)"
  using assms
  by (auto simp: resolve_def setting_def told_def known_key_def env_name_def variable_of_def default_of_def
      split: option.splits)

lemma server_key_known:
  "known_key ''listen_addr''" "known_key ''db.host''" "known_key ''db.port''" "known_key ''db.user''"
  "known_key ''db.password''" "known_key ''db.name''" "known_key ''db.ssl_mode''"
  "known_key ''artifact_path''" "known_key ''kubeconfig''" "known_key ''log_level''"
  by code_simp+

lemma server_variable:
  "variable_of ''listen_addr'' = ''SHIPINATOR_LISTEN_ADDR''" "variable_of ''db.host'' = ''SHIPINATOR_DB_HOST''"
  "variable_of ''db.port'' = ''SHIPINATOR_DB_PORT''" "variable_of ''db.user'' = ''SHIPINATOR_DB_USER''"
  "variable_of ''db.password'' = ''SHIPINATOR_DB_PASSWORD''" "variable_of ''db.name'' = ''SHIPINATOR_DB_NAME''"
  "variable_of ''db.ssl_mode'' = ''SHIPINATOR_DB_SSL_MODE''"
  "variable_of ''artifact_path'' = ''SHIPINATOR_ARTIFACT_PATH''"
  "variable_of ''kubeconfig'' = ''SHIPINATOR_KUBECONFIG''" "variable_of ''log_level'' = ''SHIPINATOR_LOG_LEVEL''"
  by code_simp+

lemma server_default:
  "default_of ''listen_addr'' = '':8080''" "default_of ''db.host'' = ''localhost''"
  "default_of ''db.port'' = ''5432''" "default_of ''db.user'' = ''postgres''"
  "default_of ''db.password'' = ''postgres''" "default_of ''db.name'' = ''''"
  "default_of ''db.ssl_mode'' = ''disable''" "default_of ''artifact_path'' = ''/var/lib/shipinator/artifacts''"
  "default_of ''kubeconfig'' = ''''" "default_of ''log_level'' = ''info''"
  by code_simp+

text \<open>
  C24: with viper as documented, each of the ten settings comes from its own variable
  \<open>SHIPINATOR_...\<close>, or else from the file, or else from the default the code states; a file that
  cannot be read is an error unless it is merely not found; and a configuration without a data
  base name is refused.
\<close>

theorem Server_Load_resolves:
  assumes "viper_documented getenv file L"
  shows "Server_Load L path =
    (let v1 = file_settings path; get = setting getenv file in
     if \<exists>e. ReadInConfig L v1 = Some (e, False)
     then Inl (Wrapf ''reading config: %w'' [] (fst (the (ReadInConfig L v1))))
     else if get ''SHIPINATOR_DB_NAME'' ''db.name'' '''' = '''' then Inl (Errorf ''db.name is required'' [])
     else Inr \<lparr>ListenAddr = get ''SHIPINATOR_LISTEN_ADDR'' ''listen_addr'' '':8080'',
       Config_DB = \<lparr>DB_Host = get ''SHIPINATOR_DB_HOST'' ''db.host'' ''localhost'',
         DB_Port = get ''SHIPINATOR_DB_PORT'' ''db.port'' ''5432'',
         DB_User = get ''SHIPINATOR_DB_USER'' ''db.user'' ''postgres'',
         DB_Password = get ''SHIPINATOR_DB_PASSWORD'' ''db.password'' ''postgres'',
         DB_Name = get ''SHIPINATOR_DB_NAME'' ''db.name'' '''',
         DB_SSLMode = get ''SHIPINATOR_DB_SSL_MODE'' ''db.ssl_mode'' ''disable''\<rparr>,
       ArtifactPath = get ''SHIPINATOR_ARTIFACT_PATH'' ''artifact_path'' ''/var/lib/shipinator/artifacts'',
       KubeConfig = get ''SHIPINATOR_KUBECONFIG'' ''kubeconfig'' '''',
       LogLevel = get ''SHIPINATOR_LOG_LEVEL'' ''log_level'' ''info''\<rparr>)"
proof -
  define v1 where "v1 = file_settings path"
  define v2 where "v2 = v1\<lparr>v_envPrefix := ''SHIPINATOR'', v_replacer := [(''.'', ''_''), (''-'', ''_'')],
    v_automaticEnv := True, v_bound := bound_keys\<rparr>"
  have "told v2" by (simp add: told_def v2_def v1_def file_settings_def viper_New_def Let_def)
  then have keys: "known_key key \<Longrightarrow>
      resolve getenv file v2 key = setting getenv file (variable_of key) key (default_of key)" for key
    by (rule resolve_told)
  have "bind_all L bound_keys (v1\<lparr>v_envPrefix := ''SHIPINATOR'', v_replacer := [(''.'', ''_''), (''-'', ''_'')],
      v_automaticEnv := True\<rparr>) = Inr v2"
    using assms by (simp add: viper_documented_def bind_all_ok v2_def v1_def file_settings_def viper_New_def Let_def)
  moreover have "Unmarshal L v2 = Inr (config_of (resolve getenv file v2))"
    using assms by (simp add: viper_documented_def)
  ultimately have "Server_Load L path =
    (case ReadInConfig L v1 of Some (e, False) \<Rightarrow> Inl (Wrapf ''reading config: %w'' [] e)
     | _ \<Rightarrow> let cfg = config_of (resolve getenv file v2) in
         if DB_Name (Config_DB cfg) = '''' then Inl (Errorf ''db.name is required'' []) else Inr cfg)"
    by (simp add: Server_Load_def Let_def v1_def split: option.splits prod.splits bool.splits)
  then show ?thesis
    by (auto simp: config_of_def keys server_key_known server_variable server_default Let_def v1_def [symmetric]
      split: option.splits prod.splits bool.splits)
qed

text \<open>The server's own values, with a file that names the data base and one variable set.\<close>

definition sample_getenv :: "string \<Rightarrow> string" where
  "sample_getenv var = (if var = ''SHIPINATOR_DB_HOST'' then ''db1'' else '''')"

definition sample_file :: "string \<Rightarrow> string option" where
  "sample_file = [''db.name'' \<mapsto> ''ci'', ''db.host'' \<mapsto> ''db0'', ''log_level'' \<mapsto> ''warn'']"

definition sample_viper :: viper_lib where
  "sample_viper = \<lparr>ReadInConfig = (\<lambda>v. None), BindEnv_error = (\<lambda>v key. None),
     Unmarshal = (\<lambda>v. Inr (config_of (resolve sample_getenv sample_file v)))\<rparr>"

lemma sample_viper_documented: "viper_documented sample_getenv sample_file sample_viper"
  by (simp add: viper_documented_def sample_viper_def)

theorem Server_Load_resolves_witness:
  "Server_Load sample_viper ''/etc/ci.yaml'' = Inr \<lparr>ListenAddr = '':8080'',
     Config_DB = \<lparr>DB_Host = ''db1'', DB_Port = ''5432'', DB_User = ''postgres'', DB_Password = ''postgres'',
       DB_Name = ''ci'', DB_SSLMode = ''disable''\<rparr>,
     ArtifactPath = ''/var/lib/shipinator/artifacts'', KubeConfig = '''', LogLevel = ''warn''\<rparr>"
  using Server_Load_resolves [OF sample_viper_documented, of "''/etc/ci.yaml''"]
  by (simp add: setting_def sample_getenv_def sample_file_def sample_viper_def)

end
