(* ===== verification/EntityChain.thy ===== *)
theory EntityChain
  imports PgLaws
begin

text \<open>
  \<open>CreateEntityChain\<close> and \<open>envOrDefault\<close> of \<open>internal/store/storetest/helpers.go\<close>: the fixture
  that the integration tests of the stores start from. A failed \<open>Create\<close> ends the test
  (\<open>t.Fatalf\<close>), which is an error here.
\<close>

section \<open>The code\<close>

record EntityChain =
  Chain_ProjectID :: ProjectID
  Chain_RepositoryID :: RepositoryID
  Chain_PipelineID :: PipelineID
  Chain_PipelineRunID :: PipelineRunID
  Chain_JobID :: JobID
  Chain_JobStepID :: JobStepID

definition chain_project :: "env \<Rightarrow> uuid \<Rightarrow> Project" where
  "chain_project E u = \<lparr>Project_ID = ProjectID 0, Project_Name = ''test-project-'' @ take 8 (uuid_str E u),
     Project_Description = None, Project_CreatedAt = 0, Project_UpdatedAt = 0\<rparr>"

definition chain_repository :: "ProjectID \<Rightarrow> Repository" where
  "chain_repository p = \<lparr>Repository_ID = RepositoryID 0, Repository_ProjectID = p,
     Repository_VCSProvider = ''git'', Repository_CloneURL = ''https://example.com/repo.git'',
     Repository_DefaultBranch = ''main'', Repository_CreatedAt = 0, Repository_UpdatedAt = 0\<rparr>"

definition chain_pipeline :: "RepositoryID \<Rightarrow> Pipeline" where
  "chain_pipeline r = \<lparr>Pipeline_ID = PipelineID 0, Pipeline_RepositoryID = r,
     Pipeline_Name = ''test-pipeline'', Pipeline_TriggerType = ''push'', Pipeline_CreatedAt = 0,
     Pipeline_UpdatedAt = 0\<rparr>"

definition chain_run :: "PipelineID \<Rightarrow> PipelineRun" where
  "chain_run l = \<lparr>PipelineRun_ID = PipelineRunID 0, PipelineRun_PipelineID = l,
     PipelineRun_GitRef = ''refs/heads/main'', PipelineRun_GitSHA = ''abc123def456'',
     PipelineRun_Status = '''', PipelineRun_CreatedAt = 0, PipelineRun_StartedAt = None,
     PipelineRun_FinishedAt = None\<rparr>"

definition chain_job :: "PipelineRunID \<Rightarrow> Job" where
  "chain_job n = \<lparr>Job_ID = JobID 0, Job_PipelineRunID = n, Job_JobType = ''build'', Job_Name = ''test-job'',
     Job_Status = '''', Job_CreatedAt = 0, Job_StartedAt = None, Job_FinishedAt = None\<rparr>"

definition chain_step :: "JobID \<Rightarrow> JobStep" where
  "chain_step j = \<lparr>JobStep_ID = JobStepID 0, JobStep_JobID = j, JobStep_Name = ''test-step'',
     JobStep_ExecutionOrder = None, JobStep_ParallelGroup = None, JobStep_Status = '''',
     JobStep_CreatedAt = 0, JobStep_StartedAt = None, JobStep_FinishedAt = None\<rparr>"

text \<open>\<open>context.Background()\<close> is never done.\<close>

definition CreateEntityChain :: "env \<Rightarrow> world \<Rightarrow> (error + EntityChain) \<times> world" where
  "CreateEntityChain E w =
    (case uuid_New E w of (u, w0) \<Rightarrow>
     case ProjectStore_Create E WithoutCancel (chain_project E u) w0 of
       (Some e, _, w1) \<Rightarrow> (Inl (Wrapf ''creating project: %v'' [] e), w1)
     | (None, p, w1) \<Rightarrow>
     case RepositoryStore_Create E WithoutCancel (chain_repository (Project_ID p)) w1 of
       (Some e, _, w2) \<Rightarrow> (Inl (Wrapf ''creating repository: %v'' [] e), w2)
     | (None, r, w2) \<Rightarrow>
     case PipelineStore_Create E WithoutCancel (chain_pipeline (Repository_ID r)) w2 of
       (Some e, _, w3) \<Rightarrow> (Inl (Wrapf ''creating pipeline: %v'' [] e), w3)
     | (None, pl, w3) \<Rightarrow>
     case PipelineRunStore_Create E WithoutCancel (chain_run (Pipeline_ID pl)) w3 of
       (Some e, _, w4) \<Rightarrow> (Inl (Wrapf ''creating pipeline run: %v'' [] e), w4)
     | (None, run, w4) \<Rightarrow>
     case JobStore_Create E WithoutCancel (chain_job (PipelineRun_ID run)) w4 of
       (Some e, _, w5) \<Rightarrow> (Inl (Wrapf ''creating job: %v'' [] e), w5)
     | (None, j, w5) \<Rightarrow>
     case JobStepStore_Create E WithoutCancel (chain_step (Job_ID j)) w5 of
       (Some e, _, w6) \<Rightarrow> (Inl (Wrapf ''creating job step: %v'' [] e), w6)
     | (None, step, w6) \<Rightarrow>
       (Inr \<lparr>Chain_ProjectID = Project_ID p, Chain_RepositoryID = Repository_ID r,
          Chain_PipelineID = Pipeline_ID pl, Chain_PipelineRunID = PipelineRun_ID run,
          Chain_JobID = Job_ID j, Chain_JobStepID = JobStep_ID step\<rparr>, w6))"

definition envOrDefault :: "(string \<Rightarrow> string) \<Rightarrow> string \<Rightarrow> string \<Rightarrow> string" where
  "envOrDefault getenv key fallback = (if getenv key \<noteq> '''' then getenv key else fallback)"

section \<open>The chain\<close>

lemma chain_SomeE:
  assumes "CreateEntityChain E w = (Inr ch, w6)"
  obtains u w0 p w1 r w2 pl w3 run w4 j w5 step where
    "uuid_New E w = (u, w0)"
    "ProjectStore_Create E WithoutCancel (chain_project E u) w0 = (None, p, w1)"
    "RepositoryStore_Create E WithoutCancel (chain_repository (Project_ID p)) w1 = (None, r, w2)"
    "PipelineStore_Create E WithoutCancel (chain_pipeline (Repository_ID r)) w2 = (None, pl, w3)"
    "PipelineRunStore_Create E WithoutCancel (chain_run (Pipeline_ID pl)) w3 = (None, run, w4)"
    "JobStore_Create E WithoutCancel (chain_job (PipelineRun_ID run)) w4 = (None, j, w5)"
    "JobStepStore_Create E WithoutCancel (chain_step (Job_ID j)) w5 = (None, step, w6)"
    "ch = \<lparr>Chain_ProjectID = Project_ID p, Chain_RepositoryID = Repository_ID r,
       Chain_PipelineID = Pipeline_ID pl, Chain_PipelineRunID = PipelineRun_ID run,
       Chain_JobID = Job_ID j, Chain_JobStepID = JobStep_ID step\<rparr>"
  using assms by (auto simp: CreateEntityChain_def split: prod.splits option.splits)

text \<open>The row that a Create adds, found again in the world it leaves.\<close>

lemma Project_created:
  assumes "ProjectStore_Create E c p w = (None, p', w')"
  obtains k where "w' = w\<lparr>tick := k, projects := projects w @ [p']\<rparr>"
    "Project_ID p' \<notin> Project_ID ` set (projects w)"
  using assms by (cases rule: ProjectStore_Create_cases [of E c p w]) auto

lemma Repository_created:
  assumes "RepositoryStore_Create E c q w = (None, q', w')"
  obtains k where "w' = w\<lparr>tick := k, repositories := repositories w @ [q']\<rparr>"
    "Repository_ID q' \<notin> Repository_ID ` set (repositories w)" "Repository_ProjectID q' = Repository_ProjectID q"
  using assms by (cases rule: RepositoryStore_Create_cases [of E c q w]) auto

lemma Pipeline_created:
  assumes "PipelineStore_Create E c l w = (None, l', w')"
  obtains k where "w' = w\<lparr>tick := k, pipelines := pipelines w @ [l']\<rparr>"
    "Pipeline_ID l' \<notin> Pipeline_ID ` set (pipelines w)" "Pipeline_RepositoryID l' = Pipeline_RepositoryID l"
  using assms by (cases rule: PipelineStore_Create_cases [of E c l w]) auto

lemma PipelineRun_created:
  assumes "PipelineRunStore_Create E c n w = (None, n', w')"
  obtains k where "w' = w\<lparr>tick := k, pipeline_runs := pipeline_runs w @ [n']\<rparr>"
    "PipelineRun_ID n' \<notin> PipelineRun_ID ` set (pipeline_runs w)" "PipelineRun_PipelineID n' = PipelineRun_PipelineID n"
  using assms by (cases rule: PipelineRunStore_Create_cases [of E c n w]) auto

lemma Job_created:
  assumes "JobStore_Create E c j w = (None, j', w')"
  obtains k where "w' = w\<lparr>tick := k, jobs := jobs w @ [j']\<rparr>"
    "Job_ID j' \<notin> Job_ID ` set (jobs w)" "Job_PipelineRunID j' = Job_PipelineRunID j"
  using assms by (cases rule: JobStore_Create_cases [of E c j w]) auto

lemma JobStep_created:
  assumes "JobStepStore_Create E c t w = (None, t', w')"
  obtains k where "w' = w\<lparr>tick := k, job_steps := job_steps w @ [t']\<rparr>"
    "JobStep_ID t' \<notin> JobStep_ID ` set (job_steps w)" "JobStep_JobID t' = JobStep_JobID t"
  using assms by (cases rule: JobStepStore_Create_cases [of E c t w]) auto

text \<open>
  C39: the identifiers of a chain that was created lead, in the tables it leaves, from the job step
  up to the project: each row is there and refers to the row of the next identifier.
\<close>

theorem chain_is_linked:
  assumes "CreateEntityChain E w = (Inr ch, w')"
  shows "map_option JobStep_JobID (get_row JobStep_ID (Chain_JobStepID ch) (job_steps w')) = Some (Chain_JobID ch) \<and>
    map_option Job_PipelineRunID (get_row Job_ID (Chain_JobID ch) (jobs w')) = Some (Chain_PipelineRunID ch) \<and>
    map_option PipelineRun_PipelineID (get_row PipelineRun_ID (Chain_PipelineRunID ch) (pipeline_runs w')) =
      Some (Chain_PipelineID ch) \<and>
    map_option Pipeline_RepositoryID (get_row Pipeline_ID (Chain_PipelineID ch) (pipelines w')) =
      Some (Chain_RepositoryID ch) \<and>
    map_option Repository_ProjectID (get_row Repository_ID (Chain_RepositoryID ch) (repositories w')) =
      Some (Chain_ProjectID ch) \<and>
    get_row Project_ID (Chain_ProjectID ch) (projects w') \<noteq> None"
  using assms
proof (rule chain_SomeE)
  fix u w0 p w1 r w2 pl w3 run w4 j w5 step
  assume ops: "uuid_New E w = (u, w0)"
    "ProjectStore_Create E WithoutCancel (chain_project E u) w0 = (None, p, w1)"
    "RepositoryStore_Create E WithoutCancel (chain_repository (Project_ID p)) w1 = (None, r, w2)"
    "PipelineStore_Create E WithoutCancel (chain_pipeline (Repository_ID r)) w2 = (None, pl, w3)"
    "PipelineRunStore_Create E WithoutCancel (chain_run (Pipeline_ID pl)) w3 = (None, run, w4)"
    "JobStore_Create E WithoutCancel (chain_job (PipelineRun_ID run)) w4 = (None, j, w5)"
    "JobStepStore_Create E WithoutCancel (chain_step (Job_ID j)) w5 = (None, step, w')"
    and ch: "ch = \<lparr>Chain_ProjectID = Project_ID p, Chain_RepositoryID = Repository_ID r,
       Chain_PipelineID = Pipeline_ID pl, Chain_PipelineRunID = PipelineRun_ID run,
       Chain_JobID = Job_ID j, Chain_JobStepID = JobStep_ID step\<rparr>"
  obtain k1 where 1: "w1 = w0\<lparr>tick := k1, projects := projects w0 @ [p]\<rparr>"
    "Project_ID p \<notin> Project_ID ` set (projects w0)" by (rule Project_created [OF ops(2)])
  obtain k2 where 2: "w2 = w1\<lparr>tick := k2, repositories := repositories w1 @ [r]\<rparr>"
    "Repository_ID r \<notin> Repository_ID ` set (repositories w1)" "Repository_ProjectID r = Project_ID p"
    using Repository_created [OF ops(3)] by (auto simp: chain_repository_def)
  obtain k3 where 3: "w3 = w2\<lparr>tick := k3, pipelines := pipelines w2 @ [pl]\<rparr>"
    "Pipeline_ID pl \<notin> Pipeline_ID ` set (pipelines w2)" "Pipeline_RepositoryID pl = Repository_ID r"
    using Pipeline_created [OF ops(4)] by (auto simp: chain_pipeline_def)
  obtain k4 where 4: "w4 = w3\<lparr>tick := k4, pipeline_runs := pipeline_runs w3 @ [run]\<rparr>"
    "PipelineRun_ID run \<notin> PipelineRun_ID ` set (pipeline_runs w3)" "PipelineRun_PipelineID run = Pipeline_ID pl"
    using PipelineRun_created [OF ops(5)] by (auto simp: chain_run_def)
  obtain k5 where 5: "w5 = w4\<lparr>tick := k5, jobs := jobs w4 @ [j]\<rparr>"
    "Job_ID j \<notin> Job_ID ` set (jobs w4)" "Job_PipelineRunID j = PipelineRun_ID run"
    using Job_created [OF ops(6)] by (auto simp: chain_job_def)
  obtain k6 where 6: "w' = w5\<lparr>tick := k6, job_steps := job_steps w5 @ [step]\<rparr>"
    "JobStep_ID step \<notin> JobStep_ID ` set (job_steps w5)" "JobStep_JobID step = Job_ID j"
    using JobStep_created [OF ops(7)] by (auto simp: chain_step_def)
  have tables: "projects w' = projects w0 @ [p]" "repositories w' = repositories w1 @ [r]"
    "pipelines w' = pipelines w2 @ [pl]" "pipeline_runs w' = pipeline_runs w3 @ [run]"
    "jobs w' = jobs w4 @ [j]" "job_steps w' = job_steps w5 @ [step]"
    by (simp_all add: 1(1) 2(1) 3(1) 4(1) 5(1) 6(1))
  show ?thesis
    using 1(2) 2(2,3) 3(2,3) 4(2,3) 5(2,3) 6(2,3)
    by (simp add: tables ch get_row_fresh del: get_row_append get_row_None)
qed

theorem chain_is_linked_witness:
  "\<exists>ch w'. CreateEntityChain calm_env empty_world = (Inr ch, w') \<and>
     map_option Job_PipelineRunID (get_row Job_ID (Chain_JobID ch) (jobs w')) = Some (Chain_PipelineRunID ch)"
proof -
  have "isl (fst (CreateEntityChain calm_env empty_world)) = False" by code_simp
  then obtain ch where "fst (CreateEntityChain calm_env empty_world) = Inr ch"
    by (cases "fst (CreateEntityChain calm_env empty_world)") auto
  then have c: "CreateEntityChain calm_env empty_world = (Inr ch, snd (CreateEntityChain calm_env empty_world))"
    by (metis prod.collapse)
  from chain_is_linked [OF c] c show ?thesis by blast
qed

end
