(* ===== verification/TestPool.thy ===== *)
theory TestPool
  imports ServerConfig Paths EntityChain
begin

text \<open>
  \<open>NewTestPool\<close> and \<open>migrationsDir\<close> of \<open>internal/store/storetest/helpers.go\<close>: a data base for one
  test, made and migrated before the test and dropped after it. What the data base library answers
  is a parameter; the model keeps the calls that the code makes of it. \<open>test_database_lifetime\<close>
  says what is left when the test is over.
\<close>

section \<open>The calls of the library\<close>

text \<open>
  A pool is named by the number of the call that opened it. Every call is kept with its error, and
  the library may answer as a function of all that happened so far.
\<close>

datatype pg_call =
    CallNewPool postgres_Config
  | CallExec nat string
  | CallClosePool nat
  | CallMigrate postgres_Config string

type_synonym pg_calls = "(pg_call \<times> error option) list"

text \<open>
  \<open>Sanitize\<close> quotes an identifier for SQL (\<open>pgx.Identifier.Sanitize\<close>); \<open>thisFile\<close> is the source
  file that \<open>runtime.Caller\<close> reports.
\<close>

record test_env =
  pg_answer :: "pg_calls \<Rightarrow> pg_call \<Rightarrow> error option"
  Sanitize :: "string list \<Rightarrow> string"
  getenv :: "string \<Rightarrow> string"
  thisFile :: string

definition pg_do :: "test_env \<Rightarrow> pg_call \<Rightarrow> pg_calls \<Rightarrow> error option \<times> pg_calls" where
  "pg_do X c h = (pg_answer X h c, h @ [(c, pg_answer X h c)])"

text \<open>\<open>ClosePool\<close> returns nothing.\<close>

definition pg_close :: "nat \<Rightarrow> pg_calls \<Rightarrow> pg_calls" where
  "pg_close pool h = h @ [(CallClosePool pool, None)]"

section \<open>The code\<close>

text \<open>What the function registered with \<open>t.Cleanup\<close> has captured.\<close>

record test_cleanup =
  Cleanup_pool :: nat
  Cleanup_cfg :: postgres_Config
  Cleanup_dbName :: string
  Cleanup_quotedName :: string

record testing =
  T_calls :: pg_calls
  T_cleanups :: "test_cleanup list"
  T_logs :: "error list"

definition testing_init :: testing where
  "testing_init = \<lparr>T_calls = [], T_cleanups = [], T_logs = []\<rparr>"

definition migrationsDir :: "test_env \<Rightarrow> string" where
  "migrationsDir X =
    (let projectRoot = filepath_Join [filepath_Dir (thisFile X), ''..'', ''..'', ''..''] in
     filepath_Join [projectRoot, ''migrations''])"

definition admin_cfg :: "test_env \<Rightarrow> postgres_Config" where
  "admin_cfg X = \<lparr>Pg_Host = envOrDefault (getenv X) ''SHIPINATOR_TEST_DB_HOST'' ''localhost'',
     Pg_Port = envOrDefault (getenv X) ''SHIPINATOR_TEST_DB_PORT'' ''5432'',
     Pg_User = envOrDefault (getenv X) ''SHIPINATOR_TEST_DB_USER'' ''postgres'',
     Pg_Password = envOrDefault (getenv X) ''SHIPINATOR_TEST_DB_PASSWORD'' ''postgres'',
     Pg_DBName = ''postgres'',
     Pg_SSLMode = envOrDefault (getenv X) ''SHIPINATOR_TEST_DB_SSLMODE'' ''disable''\<rparr>"

definition test_db_name :: "env \<Rightarrow> uuid \<Rightarrow> string" where
  "test_db_name E u = ''shipinator_test_'' @ filter (\<lambda>c. c \<noteq> CHR ''-'') (uuid_str E u)"

text \<open>The other configurations are the first one with another data base.\<close>

definition with_db :: "postgres_Config \<Rightarrow> string \<Rightarrow> postgres_Config" where
  "with_db cfg name = \<lparr>Pg_Host = Pg_Host cfg, Pg_Port = Pg_Port cfg, Pg_User = Pg_User cfg,
     Pg_Password = Pg_Password cfg, Pg_DBName = name, Pg_SSLMode = Pg_SSLMode cfg\<rparr>"

text \<open>\<open>t.Fatalf\<close> ends the test, which is an error here.\<close>

definition NewTestPool :: "env \<Rightarrow> test_env \<Rightarrow> testing \<Rightarrow> world \<Rightarrow> (error + nat) \<times> testing \<times> world" where
  "NewTestPool E X T w =
    (case uuid_New E w of (u, w1) \<Rightarrow>
     let cfg = admin_cfg X; dbName = test_db_name E u; quotedName = Sanitize X [dbName];
         adminPool = length (T_calls T) in
     case pg_do X (CallNewPool cfg) (T_calls T) of
       (Some e, h1) \<Rightarrow> (Inl (Wrapf ''connecting to admin database: %v'' [] e), T\<lparr>T_calls := h1\<rparr>, w1)
     | (None, h1) \<Rightarrow>
     case pg_do X (CallExec adminPool (''CREATE DATABASE '' @ quotedName)) h1 of
       (Some e, h2) \<Rightarrow> (Inl (Wrapf ''creating test database %s: %v'' [AStr dbName] e),
           T\<lparr>T_calls := pg_close adminPool h2\<rparr>, w1)
     | (None, h2) \<Rightarrow>
     let h3 = pg_close adminPool h2; testCfg = with_db cfg dbName in
     case pg_do X (CallMigrate testCfg (migrationsDir X)) h3 of
       (Some e, h4) \<Rightarrow> (Inl (Wrapf ''running migrations: %v'' [] e), T\<lparr>T_calls := h4\<rparr>, w1)
     | (None, h4) \<Rightarrow>
     let pool = length h4 in
     case pg_do X (CallNewPool testCfg) h4 of
       (Some e, h5) \<Rightarrow> (Inl (Wrapf ''connecting to test database %s: %v'' [AStr dbName] e),
           T\<lparr>T_calls := h5\<rparr>, w1)
     | (None, h5) \<Rightarrow>
       (Inr pool, T\<lparr>T_calls := h5, T_cleanups := \<lparr>Cleanup_pool = pool, Cleanup_cfg = cfg,
          Cleanup_dbName = dbName, Cleanup_quotedName = quotedName\<rparr> # T_cleanups T\<rparr>, w1))"

definition drop_test_database :: "test_env \<Rightarrow> test_cleanup \<Rightarrow> testing \<Rightarrow> testing" where
  "drop_test_database X c T =
    (let h1 = pg_close (Cleanup_pool c) (T_calls T);
         cleanupPool = length h1 in
     case pg_do X (CallNewPool (with_db (Cleanup_cfg c) ''postgres'')) h1 of
       (Some e, h2) \<Rightarrow> T\<lparr>T_calls := h2,
           T_logs := T_logs T @ [Wrapf ''WARNING: failed to connect for cleanup: %v'' [] e]\<rparr>
     | (None, h2) \<Rightarrow>
     case pg_do X (CallExec cleanupPool (''DROP DATABASE IF EXISTS '' @ Cleanup_quotedName c)) h2 of
       (Some e, h3) \<Rightarrow> T\<lparr>T_calls := pg_close cleanupPool h3,
           T_logs := T_logs T @
             [Wrapf ''WARNING: failed to drop test database %s: %v'' [AStr (Cleanup_dbName c)] e]\<rparr>
     | (None, h3) \<Rightarrow> T\<lparr>T_calls := pg_close cleanupPool h3\<rparr>)"

text \<open>
  A test that begins with \<open>NewTestPool\<close>: it sends its own statements over the pool, and when it is
  over, or was ended by \<open>t.Fatalf\<close>, the package \<open>testing\<close> calls the functions registered, the
  last one first.
\<close>

definition run_test :: "env \<Rightarrow> test_env \<Rightarrow> (pg_calls \<Rightarrow> (string \<times> error option) list) \<Rightarrow> world \<Rightarrow> testing" where
  "run_test E X body w =
    (case NewTestPool E X testing_init w of
       (Inl e, T, _) \<Rightarrow> fold (drop_test_database X) (T_cleanups T) T
     | (Inr pool, T, _) \<Rightarrow>
         fold (drop_test_database X) (T_cleanups T)
           (T\<lparr>T_calls := T_calls T @ map (\<lambda>(s, r). (CallExec pool s, r)) (body (T_calls T))\<rparr>))"

section \<open>What is left behind\<close>

text \<open>The pools opened and not closed, and whether a data base exists that did not at first.\<close>

fun opened :: "nat \<times> pg_call \<times> error option \<Rightarrow> bool" where
  "opened (_, CallNewPool _, None) = True"
| "opened _ = False"

definition open_pools :: "pg_calls \<Rightarrow> nat list" where
  "open_pools h = filter (\<lambda>i. (CallClosePool i, None) \<notin> set h) (map fst (filter opened (List.enumerate 0 h)))"

fun db_exists_step :: "string \<Rightarrow> pg_call \<times> error option \<Rightarrow> bool \<Rightarrow> bool" where
  "db_exists_step q (CallExec _ s, None) b = (s = ''CREATE DATABASE '' @ q \<or> b \<and> s \<noteq> ''DROP DATABASE IF EXISTS '' @ q)"
| "db_exists_step q _ b = b"

definition db_exists :: "string \<Rightarrow> pg_calls \<Rightarrow> bool" where
  "db_exists q h = fold (db_exists_step q) h False"


text \<open>The statements of a test open no pool and, if they name no data base, leave them alone.\<close>

lemma opened_statements:
  "filter opened (List.enumerate n (map (\<lambda>(s, r). (CallExec p s, r)) xs)) = []"
  by (induction xs arbitrary: n) auto

definition spares :: "string \<Rightarrow> (string \<times> error option) list \<Rightarrow> bool" where
  "spares q xs \<longleftrightarrow> list_all (\<lambda>(s, r). s \<noteq> ''CREATE DATABASE '' @ q \<and> s \<noteq> ''DROP DATABASE IF EXISTS '' @ q) xs"

lemma db_exists_statements:
  "spares q xs \<Longrightarrow> fold (db_exists_step q) (map (\<lambda>(s, r). (CallExec p s, r)) xs) b = b"
proof (induction xs arbitrary: b)
  case (Cons x xs)
  obtain s r where x: "x = (s, r)" by fastforce
  with Cons.prems have "db_exists_step q (CallExec p s, r) b = b"
    by (cases r) (simp_all add: spares_def)
  with Cons x show ?case by (simp add: spares_def)
qed (simp add: spares_def)

text \<open>How \<open>NewTestPool\<close> ends, and the calls it has made by then.\<close>

definition setup_calls :: "env \<Rightarrow> test_env \<Rightarrow> uuid \<Rightarrow> pg_call list" where
  "setup_calls E X u =
    [CallNewPool (admin_cfg X), CallExec 0 (''CREATE DATABASE '' @ Sanitize X [test_db_name E u]),
     CallClosePool 0, CallMigrate (with_db (admin_cfg X) (test_db_name E u)) (migrationsDir X),
     CallNewPool (with_db (admin_cfg X) (test_db_name E u))]"

lemma NewTestPool_cases:
  assumes "uuid_New E w = (u, w1)"
  obtains (no_admin) e f where "NewTestPool E X testing_init w = (Inl f, testing_init\<lparr>T_calls :=
        [(setup_calls E X u ! 0, Some e)]\<rparr>, w1)"
  | (not_created) e f where "NewTestPool E X testing_init w = (Inl f, testing_init\<lparr>T_calls :=
        [(setup_calls E X u ! 0, None), (setup_calls E X u ! 1, Some e), (setup_calls E X u ! 2, None)]\<rparr>, w1)"
  | (not_migrated) e f where "NewTestPool E X testing_init w = (Inl f, testing_init\<lparr>T_calls :=
        map (\<lambda>c. (c, None)) (take 3 (setup_calls E X u)) @ [(setup_calls E X u ! 3, Some e)]\<rparr>, w1)"
  | (no_pool) e f where "NewTestPool E X testing_init w = (Inl f, testing_init\<lparr>T_calls :=
        map (\<lambda>c. (c, None)) (take 4 (setup_calls E X u)) @ [(setup_calls E X u ! 4, Some e)]\<rparr>, w1)"
  | (ready) "NewTestPool E X testing_init w = (Inr 4, testing_init\<lparr>
        T_calls := map (\<lambda>c. (c, None)) (setup_calls E X u),
        T_cleanups := [\<lparr>Cleanup_pool = 4, Cleanup_cfg = admin_cfg X, Cleanup_dbName = test_db_name E u,
          Cleanup_quotedName = Sanitize X [test_db_name E u]\<rparr>]\<rparr>, w1)"
proof -
  let ?c = "\<lambda>i. setup_calls E X u ! i"
  let ?ok = "\<lambda>n. map (\<lambda>c. (c, None)) (take n (setup_calls E X u))"
  note defs = NewTestPool_def assms Let_def pg_do_def pg_close_def testing_init_def setup_calls_def
    numeral_eq_Suc
  consider e where "pg_answer X [] (?c 0) = Some e"
    | e where "pg_answer X [] (?c 0) = None" "pg_answer X (?ok 1) (?c 1) = Some e"
    | e where "pg_answer X [] (?c 0) = None" "pg_answer X (?ok 1) (?c 1) = None" "pg_answer X (?ok 3) (?c 3) = Some e"
    | e where "pg_answer X [] (?c 0) = None" "pg_answer X (?ok 1) (?c 1) = None" "pg_answer X (?ok 3) (?c 3) = None"
        "pg_answer X (?ok 4) (?c 4) = Some e"
    | "pg_answer X [] (?c 0) = None" "pg_answer X (?ok 1) (?c 1) = None" "pg_answer X (?ok 3) (?c 3) = None"
        "pg_answer X (?ok 4) (?c 4) = None"
    by (metis option.exhaust)
  then show ?thesis
  proof cases
    case 1
    then show ?thesis by (intro no_admin) (simp add: defs)
  next
    case 2
    then show ?thesis by (intro not_created) (simp add: defs)
  next
    case 3
    then show ?thesis by (intro not_migrated) (simp add: defs)
  next
    case 4
    then show ?thesis by (intro no_pool) (simp add: defs)
  next
    case 5
    then show ?thesis by (intro ready) (simp add: defs)
  qed
qed

text \<open>What the registered function adds to the calls, and whether it warns.\<close>

lemma drop_test_database_cases:
  obtains (no_pool) e f where "drop_test_database X c T = T\<lparr>T_calls := T_calls T @
        [(CallClosePool (Cleanup_pool c), None), (CallNewPool (with_db (Cleanup_cfg c) ''postgres''), Some e)],
        T_logs := T_logs T @ [f]\<rparr>"
  | (dropped) r fs where "drop_test_database X c T = T\<lparr>T_calls := T_calls T @
        [(CallClosePool (Cleanup_pool c), None), (CallNewPool (with_db (Cleanup_cfg c) ''postgres''), None),
         (CallExec (Suc (length (T_calls T))) (''DROP DATABASE IF EXISTS '' @ Cleanup_quotedName c), r),
         (CallClosePool (Suc (length (T_calls T))), None)], T_logs := T_logs T @ fs\<rparr>" "fs = [] \<longleftrightarrow> r = None"
proof -
  let ?h = "T_calls T @ [(CallClosePool (Cleanup_pool c), None)]"
  let ?n = "CallNewPool (with_db (Cleanup_cfg c) ''postgres'')"
  let ?d = "CallExec (length ?h) (''DROP DATABASE IF EXISTS '' @ Cleanup_quotedName c)"
  note defs = drop_test_database_def Let_def pg_do_def pg_close_def
  consider e where "pg_answer X ?h ?n = Some e"
    | e where "pg_answer X ?h ?n = None" "pg_answer X (?h @ [(?n, None)]) ?d = Some e"
    | "pg_answer X ?h ?n = None" "pg_answer X (?h @ [(?n, None)]) ?d = None"
    by (metis option.exhaust)
  then show ?thesis
  proof cases
    case 1
    then show ?thesis by (intro no_pool) (simp add: defs)
  next
    case (2 e)
    then show ?thesis
      by (intro dropped [where r = "Some e" and
            fs = "[Wrapf ''WARNING: failed to drop test database %s: %v'' [AStr (Cleanup_dbName c)] e]"])
        (simp_all add: defs)
  next
    case 3
    then show ?thesis by (intro dropped [where r = None and fs = "[]"]) (simp_all add: defs)
  qed
qed

section \<open>The life of a test data base\<close>

text \<open>
  C38: whatever fails, a test leaves no pool open. It leaves its data base behind exactly when the
  data base was created and then either the migrations or the connection to it failed (the function
  that drops it is registered only after them), or dropping it failed, of which only a warning is
  logged. A test that runs at all runs over a pool to a data base created and migrated before.
\<close>

theorem test_database_lifetime:
  assumes "uuid_New E w = (u, w1)" and "\<forall>h. spares (Sanitize X [test_db_name E u]) (body h)"
  shows "open_pools (T_calls (run_test E X body w)) = [] \<and>
    (db_exists (Sanitize X [test_db_name E u]) (T_calls (run_test E X body w)) \<longleftrightarrow>
       (CallExec 0 (''CREATE DATABASE '' @ Sanitize X [test_db_name E u]), None) \<in> set (T_calls (run_test E X body w)) \<and>
       ((\<exists>e. (CallMigrate (with_db (admin_cfg X) (test_db_name E u)) (migrationsDir X), Some e)
           \<in> set (T_calls (run_test E X body w))) \<or>
        (\<exists>e. (CallNewPool (with_db (admin_cfg X) (test_db_name E u)), Some e) \<in> set (T_calls (run_test E X body w))) \<or>
        T_logs (run_test E X body w) \<noteq> [])) \<and>
    (\<forall>pool T w'. NewTestPool E X testing_init w = (Inr pool, T, w') \<longrightarrow>
       T_calls T = map (\<lambda>c. (c, None)) (setup_calls E X u) \<and>
       setup_calls E X u ! pool = CallNewPool (with_db (admin_cfg X) (test_db_name E u)))"
  using assms(1)
proof (cases rule: NewTestPool_cases [where X = X])
  case ready
  let ?q = "Sanitize X [test_db_name E u]"
  define c where "c = \<lparr>Cleanup_pool = 4, Cleanup_cfg = admin_cfg X, Cleanup_dbName = test_db_name E u,
    Cleanup_quotedName = ?q\<rparr>"
  define h where "h = map (\<lambda>c. (c, None :: error option)) (setup_calls E X u)"
  define sent where "sent = map (\<lambda>(s, r). (CallExec 4 s, r)) (body h)"
  define T where "T = \<lparr>T_calls = h @ sent, T_cleanups = [c], T_logs = []\<rparr>"
  have run: "run_test E X body w = drop_test_database X c T"
    unfolding run_test_def ready by (simp add: c_def h_def sent_def T_def testing_init_def)
  have name: "test_db_name E u \<noteq> ''postgres''"
    by (simp add: test_db_name_def)
  have opens: "filter opened (List.enumerate n sent) = []" for n
    by (simp add: sent_def opened_statements)
  have spared: "fold (db_exists_step ?q) sent b = b" for b
    using assms(2) by (simp add: sent_def db_exists_statements)
  have sentD: "(CallMigrate a b, r) \<notin> set sent" "(CallNewPool a, r) \<notin> set sent" for a b r
    by (auto simp: sent_def)
  note defs = open_pools_def db_exists_def T_def h_def setup_calls_def enumerate_append_eq opens spared
    name c_def with_db_def sentD numeral_eq_Suc
  show ?thesis
  proof (cases rule: drop_test_database_cases [of X c T])
    case (no_pool e f)
    then show ?thesis by (simp add: run ready defs)
  next
    case (dropped r fs)
    then show ?thesis by (cases r) (simp_all add: run ready defs)
  qed
qed (simp_all add: run_test_def testing_init_def open_pools_def db_exists_def setup_calls_def numeral_eq_Suc with_db_def)

text \<open>
  A library that accepts everything but what \<open>refuses\<close> says, and a test that sends one statement.
\<close>

definition sample_tests :: "(pg_call \<Rightarrow> bool) \<Rightarrow> test_env" where
  "sample_tests refuses = \<lparr>pg_answer = (\<lambda>h c. if refuses c then Some (External ''refused'') else None),
     Sanitize = (\<lambda>ns. CHR 34 # concat ns @ [CHR 34]), getenv = (\<lambda>_. []),
     thisFile = ''/src/shipinator/internal/store/storetest/helpers.go''\<rparr>"

definition one_statement :: "pg_calls \<Rightarrow> (string \<times> error option) list" where
  "one_statement h = [(''SELECT 1'', None)]"

fun is_migrate :: "pg_call \<Rightarrow> bool" where
  "is_migrate (CallMigrate _ _) = True"
| "is_migrate _ = False"

theorem test_database_lifetime_witness:
  "open_pools (T_calls (run_test calm_env (sample_tests is_migrate) one_statement empty_world)) = [] \<and>
   db_exists (Sanitize (sample_tests is_migrate) [test_db_name calm_env 1])
     (T_calls (run_test calm_env (sample_tests is_migrate) one_statement empty_world)) \<and>
   \<not> db_exists (Sanitize (sample_tests (\<lambda>_. False)) [test_db_name calm_env 1])
     (T_calls (run_test calm_env (sample_tests (\<lambda>_. False)) one_statement empty_world))"
proof -
  have u: "uuid_New calm_env empty_world = (1, tock empty_world)"
    by (simp add: uuid_New_def calm_env_def empty_world_def)
  have ok: "\<forall>h. spares (Sanitize (sample_tests f) [test_db_name calm_env 1]) (one_statement h)" for f
    by (simp add: spares_def one_statement_def)
  have logs: "T_logs (run_test calm_env (sample_tests (\<lambda>_. False)) one_statement empty_world) = []"
    by code_simp
  have refused: "(CallExec 0 (''CREATE DATABASE '' @ Sanitize (sample_tests is_migrate) [test_db_name calm_env 1]), None)
      \<in> set (T_calls (run_test calm_env (sample_tests is_migrate) one_statement empty_world))"
    "(CallMigrate (with_db (admin_cfg (sample_tests is_migrate)) (test_db_name calm_env 1))
        (migrationsDir (sample_tests is_migrate)), Some (External ''refused''))
      \<in> set (T_calls (run_test calm_env (sample_tests is_migrate) one_statement empty_world))"
    by code_simp+
  have none: "list_all (\<lambda>x. snd x = None) (T_calls (run_test calm_env (sample_tests (\<lambda>_. False)) one_statement empty_world))"
    by code_simp
  note bad = test_database_lifetime [OF u ok [of is_migrate]]
  note good = test_database_lifetime [OF u ok [of "\<lambda>_. False"]]
  have "db_exists (Sanitize (sample_tests is_migrate) [test_db_name calm_env 1])
      (T_calls (run_test calm_env (sample_tests is_migrate) one_statement empty_world))"
    by (rule iffD2 [OF conjunct1 [OF conjunct2 [OF bad]]], intro conjI disjI1 exI, rule refused(1), rule refused(2))
  moreover have "\<not> db_exists (Sanitize (sample_tests (\<lambda>_. False)) [test_db_name calm_env 1])
      (T_calls (run_test calm_env (sample_tests (\<lambda>_. False)) one_statement empty_world))"
    unfolding conjunct1 [OF conjunct2 [OF good]] using logs none by (auto simp: list_all_iff)
  ultimately show ?thesis
    using conjunct1 [OF bad] by blast
qed

section \<open>The migrations\<close>

text \<open>
  Three levels above the directory of the source file: \<open>migrationsDir\<close> is the directory
  \<open>migrations\<close> of the repository the file was compiled from.
\<close>

lemma migrationsDir_in_repository:
  assumes "p \<noteq> []" and "thisFile X = p @ ''/internal/store/storetest/helpers.go''"
  shows "migrationsDir X = filepath_Join [p, ''migrations'']"
proof -
  let ?d = "filepath_Dir (thisFile X)"
  have "?d = filepath_Clean ((p @ slash # ''internal/store/storetest'') @ [slash])"
    using Dir_file [of "''helpers.go''" "p @ slash # ''internal/store/storetest''"] assms(2) by simp
  then have d: "path_root ?d = path_root p" "path_comps ?d = path_comps p @ [''internal'', ''store'', ''storetest'']" "?d \<noteq> []"
    using assms(1) by (simp_all add: Clean_comps path_root_append path_comps_append) (simp add: clean_step_def)
  let ?j = "?d @ slash # ''../../..''"
  have j: "path_root ?j = path_root p" "path_comps ?j = path_comps p"
    using d by (simp_all add: path_root_append path_comps_append) (simp add: clean_step_def)
  have "filepath_Join [?d, ''..'', ''..'', ''..''] = filepath_Clean ?j"
    using d(3) by (simp add: filepath_Join_def)
  moreover have "plain ''migrations''" by (simp add: plain_def)
  ultimately show ?thesis
    using j by (simp add: migrationsDir_def Join_eq_iff Clean_comps)
qed

end
