(* ===== verification/ServerMain.thy ===== *)
theory ServerMain
  imports ServerConfig "HOL-Library.Sublist"
begin

text \<open>
  \<open>cmd/server/main.go\<close>: the server process. Its two goroutines (\<open>main\<close> and the one that
  serves) and the operating system's signals interleave, so the process is a step relation; what
  the data base library and the HTTP server answer is left open. \<open>main_order\<close> states the order of
  the effects and which of the deferred calls run, \<open>main_shuts_down\<close> that the process stops on a
  signal, and in what order it gives up its requests and its pool.
\<close>

section \<open>The log level\<close>

text \<open>
  \<open>slog.Level.UnmarshalText\<close>: a name in any case, with an offset that starts at the first sign.
  A level is a 64-bit integer and the sum wraps around. Strings are sequences of bytes: of the
  letters outside ASCII, \<open>strings.ToUpper\<close> takes only the dotless i (196, 177) to a letter of a
  level's name.
\<close>

fun ToUpper_ascii :: "string \<Rightarrow> string" where
  "ToUpper_ascii (a # b # s) =
    (if of_char a = (196 :: nat) \<and> of_char b = (177 :: nat) then CHR ''I'' # ToUpper_ascii s
     else to_upper a # ToUpper_ascii (b # s))"
| "ToUpper_ascii [a] = [to_upper a]"
| "ToUpper_ascii [] = []"

definition is_digit :: "char \<Rightarrow> bool" where
  "is_digit c \<longleftrightarrow> (of_char c :: nat) \<in> {48..57}"

definition Atoi_signed :: "string \<Rightarrow> error + int" where
  "Atoi_signed s =
    (let ds = tl s;
         n = foldl (\<lambda>n c. 10 * n + (of_char c - 48)) (0 :: int) ds;
         k = (if hd s = CHR ''-'' then - n else n) in
     if ds = [] \<or> \<not> list_all is_digit ds then Inl (Errorf ''strconv.Atoi: parsing %q: invalid syntax'' [AStr s])
     else if k < - (2 ^ 63) \<or> 2 ^ 63 \<le> k then Inl (Errorf ''strconv.Atoi: parsing %q: value out of range'' [AStr s])
     else Inr k)"

definition level_of_name :: "string \<Rightarrow> int option" where
  "level_of_name name = map_of [(''DEBUG'', -4), (''INFO'', 0), (''WARN'', 4), (''ERROR'', 8)] (ToUpper_ascii name)"

definition Level_UnmarshalText :: "string \<Rightarrow> error + 64 word" where
  "Level_UnmarshalText s =
    (let sign = (\<lambda>c. c = CHR ''+'' \<or> c = CHR ''-'');
         name = takeWhile (\<lambda>c. \<not> sign c) s;
         rest = dropWhile (\<lambda>c. \<not> sign c) s in
     case (if rest = [] then Inr 0 else Atoi_signed rest) of
       Inl e \<Rightarrow> Inl (Wrapf ''slog: level string %q: %w'' [AStr s] e)
     | Inr offset \<Rightarrow>
        (case level_of_name name of
           None \<Rightarrow> Inl (Wrapf ''slog: level string %q: %w'' [AStr s] (Errorf ''unknown name'' []))
         | Some l \<Rightarrow> Inr (word_of_int l + word_of_int offset)))"

text \<open>Names in any case, offsets of either sign, and what is refused.\<close>

lemma level_samples:
  "Level_UnmarshalText ''info'' = Inr 0" "Level_UnmarshalText ''debug-4'' = Inr (-8)"
  "Level_UnmarshalText ''ERROR+2'' = Inr 10" "isl (Level_UnmarshalText ''verbose'')"
  "isl (Level_UnmarshalText ''warn+'')" "isl (Level_UnmarshalText [])"
  by code_simp+

section \<open>The process\<close>

text \<open>
  Where \<open>main\<close> stands, by the call it makes next; where the serving goroutine stands; and how a
  process ends: by \<open>os.Exit\<close> or the return of \<open>main\<close>, or by a signal nobody handles.
\<close>

datatype main_pc =
    AtLoad
  | AtLevel Server_Config
  | AtNotify Server_Config
  | AtMigrate Server_Config
  | AtNewPool Server_Config
  | AtRoutes Server_Config
  | AtGo Server_Config
  | AtWait Server_Config
  | AtShutdown Server_Config
  | InShutdown Server_Config
  | AtClosePool Server_Config
  | AtStop Server_Config
  | AtReturn Server_Config

datatype go_pc = NotStarted | AtListen | Serving | Ended

datatype proc_end = Exit int | Killed

datatype main_event =
    Migrate postgres_Config string
  | OpenPool postgres_Config
  | Route string string
  | Listen string
  | Shutdown
  | ClosePool
  | StopNotify

record proc =
  mpc :: main_pc
  gpc :: go_pc
  ctx_Done :: bool
  proc_exit :: "proc_end option"
  effects :: "main_event list"
  requests :: nat

definition proc_init :: proc where
  "proc_init = \<lparr>mpc = AtLoad, gpc = NotStarted, ctx_Done = False, proc_exit = None, effects = [],
     requests = 0\<rparr>"

abbreviation exits :: "int \<Rightarrow> proc \<Rightarrow> proc" where
  "exits n p \<equiv> p\<lparr>proc_exit := Some (Exit n)\<rparr>"

abbreviation does :: "main_event \<Rightarrow> proc \<Rightarrow> proc" where
  "does ev p \<equiv> p\<lparr>effects := effects p @ [ev]\<rparr>"

text \<open>
  The steps of the two goroutines. Each call of a library that reports an error has a rule for
  either outcome; \<open>os.Exit\<close> ends the process at once, without the deferred calls, in whichever
  goroutine it happens. \<open>Shutdown\<close> may fail at any time; without an error it returns only when no
  request is being served, and it has no deadline of its own (its context is \<open>Background\<close>). The serving goroutine does nothing when \<open>Start\<close> returns
  \<open>http.ErrServerClosed\<close>, which it does only once \<open>Shutdown\<close> has been called.
\<close>

inductive main_step :: "viper_lib \<Rightarrow> string \<Rightarrow> proc \<Rightarrow> proc \<Rightarrow> bool"
  for L :: viper_lib and configPath :: string where
  load_fails: "proc_exit p = None \<Longrightarrow> mpc p = AtLoad \<Longrightarrow> Server_Load L configPath = Inl e \<Longrightarrow>
    main_step L configPath p (exits 1 p)"
| load: "proc_exit p = None \<Longrightarrow> mpc p = AtLoad \<Longrightarrow> Server_Load L configPath = Inr cfg \<Longrightarrow>
    main_step L configPath p (p\<lparr>mpc := AtLevel cfg\<rparr>)"
| level_fails: "proc_exit p = None \<Longrightarrow> mpc p = AtLevel cfg \<Longrightarrow> Level_UnmarshalText (LogLevel cfg) = Inl e \<Longrightarrow>
    main_step L configPath p (exits 1 p)"
| level: "proc_exit p = None \<Longrightarrow> mpc p = AtLevel cfg \<Longrightarrow> Level_UnmarshalText (LogLevel cfg) = Inr l \<Longrightarrow>
    main_step L configPath p (p\<lparr>mpc := AtNotify cfg\<rparr>)"
| notify: "proc_exit p = None \<Longrightarrow> mpc p = AtNotify cfg \<Longrightarrow> main_step L configPath p (p\<lparr>mpc := AtMigrate cfg\<rparr>)"
| migrate_fails: "proc_exit p = None \<Longrightarrow> mpc p = AtMigrate cfg \<Longrightarrow>
    main_step L configPath p (exits 1 p)"
| migrate: "proc_exit p = None \<Longrightarrow> mpc p = AtMigrate cfg \<Longrightarrow>
    main_step L configPath p
      (does (Migrate (PostgresConfig (Config_DB cfg)) ''migrations'') (p\<lparr>mpc := AtNewPool cfg\<rparr>))"
| pool_fails: "proc_exit p = None \<Longrightarrow> mpc p = AtNewPool cfg \<Longrightarrow>
    main_step L configPath p (exits 1 p)"
| pool: "proc_exit p = None \<Longrightarrow> mpc p = AtNewPool cfg \<Longrightarrow>
    main_step L configPath p (does (OpenPool (PostgresConfig (Config_DB cfg))) (p\<lparr>mpc := AtRoutes cfg\<rparr>))"
| routes: "proc_exit p = None \<Longrightarrow> mpc p = AtRoutes cfg \<Longrightarrow>
    main_step L configPath p (does (Route ''GET'' ''/healthz'') (p\<lparr>mpc := AtGo cfg\<rparr>))"
| go: "proc_exit p = None \<Longrightarrow> mpc p = AtGo cfg \<Longrightarrow>
    main_step L configPath p (p\<lparr>mpc := AtWait cfg, gpc := AtListen\<rparr>)"
| done_wait: "proc_exit p = None \<Longrightarrow> mpc p = AtWait cfg \<Longrightarrow> ctx_Done p \<Longrightarrow>
    main_step L configPath p (p\<lparr>mpc := AtShutdown cfg\<rparr>)"
| shutdown: "proc_exit p = None \<Longrightarrow> mpc p = AtShutdown cfg \<Longrightarrow>
    main_step L configPath p (does Shutdown (p\<lparr>mpc := InShutdown cfg\<rparr>))"
| shutdown_fails: "proc_exit p = None \<Longrightarrow> mpc p = InShutdown cfg \<Longrightarrow>
    main_step L configPath p (exits 1 p)"
| shutdown_returns: "proc_exit p = None \<Longrightarrow> mpc p = InShutdown cfg \<Longrightarrow> requests p = 0 \<Longrightarrow>
    main_step L configPath p (p\<lparr>mpc := AtClosePool cfg\<rparr>)"
| close_pool: "proc_exit p = None \<Longrightarrow> mpc p = AtClosePool cfg \<Longrightarrow>
    main_step L configPath p (does ClosePool (p\<lparr>mpc := AtStop cfg\<rparr>))"
| stop: "proc_exit p = None \<Longrightarrow> mpc p = AtStop cfg \<Longrightarrow>
    main_step L configPath p (does StopNotify (p\<lparr>mpc := AtReturn cfg\<rparr>))"
| returns: "proc_exit p = None \<Longrightarrow> mpc p = AtReturn cfg \<Longrightarrow> main_step L configPath p (exits 0 p)"

text \<open>The configuration \<open>main\<close> holds; the serving goroutine shares it.\<close>

fun cfg_of :: "main_pc \<Rightarrow> Server_Config option" where
  "cfg_of AtLoad = None"
| "cfg_of (AtLevel cfg) = Some cfg"
| "cfg_of (AtNotify cfg) = Some cfg"
| "cfg_of (AtMigrate cfg) = Some cfg"
| "cfg_of (AtNewPool cfg) = Some cfg"
| "cfg_of (AtRoutes cfg) = Some cfg"
| "cfg_of (AtGo cfg) = Some cfg"
| "cfg_of (AtWait cfg) = Some cfg"
| "cfg_of (AtShutdown cfg) = Some cfg"
| "cfg_of (InShutdown cfg) = Some cfg"
| "cfg_of (AtClosePool cfg) = Some cfg"
| "cfg_of (AtStop cfg) = Some cfg"
| "cfg_of (AtReturn cfg) = Some cfg"

inductive serve_step :: "proc \<Rightarrow> proc \<Rightarrow> bool" where
  start: "proc_exit p = None \<Longrightarrow> gpc p = AtListen \<Longrightarrow> cfg_of (mpc p) = Some cfg \<Longrightarrow>
    serve_step p (does (Listen (ListenAddr cfg)) (p\<lparr>gpc := Serving\<rparr>))"
| serve_fails: "proc_exit p = None \<Longrightarrow> gpc p = Serving \<Longrightarrow> serve_step p (exits 1 p)"
| serve_closed: "proc_exit p = None \<Longrightarrow> gpc p = Serving \<Longrightarrow> Shutdown \<in> set (effects p) \<Longrightarrow>
    serve_step p (p\<lparr>gpc := Ended\<rparr>)"

text \<open>
  Requests are served in goroutines of the library: they are accepted while the server serves and
  until \<open>Shutdown\<close> has closed the listener, and each ends some time after.
\<close>

inductive request_step :: "proc \<Rightarrow> proc \<Rightarrow> bool" where
  accepted: "proc_exit p = None \<Longrightarrow> gpc p = Serving \<Longrightarrow> Shutdown \<notin> set (effects p) \<Longrightarrow>
    request_step p (p\<lparr>requests := Suc (requests p)\<rparr>)"
| answered: "proc_exit p = None \<Longrightarrow> requests p = Suc n \<Longrightarrow> request_step p (p\<lparr>requests := n\<rparr>)"

text \<open>The handler of the route: a status and a body, whatever the request.\<close>

definition healthz :: "nat \<times> string" where
  "healthz = (200, ''ok'')"

text \<open>
  SIGTERM and SIGINT: they end the context between \<open>NotifyContext\<close> and its \<open>stop\<close>, and kill the
  process before and after.
\<close>

fun handled :: "main_pc \<Rightarrow> bool" where
  "handled AtLoad = False"
| "handled (AtLevel cfg) = False"
| "handled (AtNotify cfg) = False"
| "handled (AtReturn cfg) = False"
| "handled pc = True"

inductive signal_step :: "proc \<Rightarrow> proc \<Rightarrow> bool" where
  "proc_exit p = None \<Longrightarrow>
    signal_step p (if handled (mpc p) then p\<lparr>ctx_Done := True\<rparr> else p\<lparr>proc_exit := Some Killed\<rparr>)"

inductive main_reaches :: "viper_lib \<Rightarrow> string \<Rightarrow> proc \<Rightarrow> bool"
  for L :: viper_lib and configPath :: string where
  init: "main_reaches L configPath proc_init"
| main: "main_reaches L configPath p \<Longrightarrow> main_step L configPath p q \<Longrightarrow> main_reaches L configPath q"
| serve: "main_reaches L configPath p \<Longrightarrow> serve_step p q \<Longrightarrow> main_reaches L configPath q"
| request: "main_reaches L configPath p \<Longrightarrow> request_step p q \<Longrightarrow> main_reaches L configPath q"
| signal: "main_reaches L configPath p \<Longrightarrow> signal_step p q \<Longrightarrow> main_reaches L configPath q"

section \<open>The order of the effects\<close>

definition planned :: "Server_Config \<Rightarrow> main_event list" where
  "planned cfg = [Migrate (PostgresConfig (Config_DB cfg)) ''migrations'',
     OpenPool (PostgresConfig (Config_DB cfg)), Route ''GET'' ''/healthz'', Shutdown, ClosePool, StopNotify]"

fun is_Listen :: "main_event \<Rightarrow> bool" where
  "is_Listen (Listen addr) = True"
| "is_Listen ev = False"

text \<open>How many of the planned effects lie behind \<open>main\<close>, and how many steps before it.\<close>

fun planned_done :: "main_pc \<Rightarrow> nat" where
  "planned_done (AtNewPool cfg) = 1"
| "planned_done (AtRoutes cfg) = 2"
| "planned_done (AtGo cfg) = 3"
| "planned_done (AtWait cfg) = 3"
| "planned_done (AtShutdown cfg) = 3"
| "planned_done (InShutdown cfg) = 4"
| "planned_done (AtClosePool cfg) = 4"
| "planned_done (AtStop cfg) = 5"
| "planned_done (AtReturn cfg) = 6"
| "planned_done pc = 0"

fun main_left :: "main_pc \<Rightarrow> nat" where
  "main_left AtLoad = 13"
| "main_left (AtLevel cfg) = 12"
| "main_left (AtNotify cfg) = 11"
| "main_left (AtMigrate cfg) = 10"
| "main_left (AtNewPool cfg) = 9"
| "main_left (AtRoutes cfg) = 8"
| "main_left (AtGo cfg) = 7"
| "main_left (AtWait cfg) = 6"
| "main_left (AtShutdown cfg) = 5"
| "main_left (InShutdown cfg) = 4"
| "main_left (AtClosePool cfg) = 3"
| "main_left (AtStop cfg) = 2"
| "main_left (AtReturn cfg) = 1"

fun go_left :: "go_pc \<Rightarrow> nat" where
  "go_left NotStarted = 3"
| "go_left AtListen = 2"
| "go_left Serving = 1"
| "go_left Ended = 0"

definition level_ok :: "Server_Config \<Rightarrow> bool" where
  "level_ok cfg \<longleftrightarrow> (\<exists>l. Level_UnmarshalText (LogLevel cfg) = Inr l)"

definition proc_inv :: "viper_lib \<Rightarrow> string \<Rightarrow> proc \<Rightarrow> bool" where
  "proc_inv L configPath p \<longleftrightarrow>
    (\<forall>cfg. cfg_of (mpc p) = Some cfg \<longrightarrow> Server_Load L configPath = Inr cfg \<and>
       (main_left (mpc p) < 12 \<longrightarrow> level_ok cfg) \<and>
       filter (Not \<circ> is_Listen) (effects p) = take (planned_done (mpc p)) (planned cfg) \<and>
       filter is_Listen (effects p) = (if gpc p \<in> {Serving, Ended} then [Listen (ListenAddr cfg)] else []) \<and>
       (3 \<le> planned_done (mpc p) \<longrightarrow> prefix (take 3 (planned cfg)) (effects p))) \<and>
    (cfg_of (mpc p) = None \<longrightarrow> effects p = []) \<and>
    (main_left (mpc p) \<le> 6 \<longleftrightarrow> gpc p \<noteq> NotStarted) \<and>
    (proc_exit p = Some (Exit 0) \<longrightarrow> main_left (mpc p) = 1)"

lemma planned_length [simp]: "length (planned cfg) = 6"
  by (simp add: planned_def)

lemma no_Listen: "filter is_Listen evs = [] \<Longrightarrow> filter (Not \<circ> is_Listen) evs = evs"
  by (induction evs) (auto split: if_splits)

lemma proc_inv_init: "proc_inv L configPath proc_init"
  by (simp add: proc_inv_def proc_init_def)

lemma proc_inv_main:
  assumes "main_step L configPath p q" and "proc_inv L configPath p"
  shows "proc_inv L configPath q"
  using assms
  by cases (auto simp: proc_inv_def planned_def level_ok_def eval_nat_numeral no_Listen intro: prefix_prefix)

lemma proc_inv_serve:
  assumes "serve_step p q" and "proc_inv L configPath p"
  shows "proc_inv L configPath q"
  using assms by cases (auto simp: proc_inv_def intro: prefix_prefix)

lemma proc_inv_request:
  assumes "request_step p q" and "proc_inv L configPath p"
  shows "proc_inv L configPath q"
  using assms by cases (auto simp: proc_inv_def)

lemma proc_inv_signal:
  assumes "signal_step p q" and "proc_inv L configPath p"
  shows "proc_inv L configPath q"
  using assms by cases (auto simp: proc_inv_def)

lemma reaches_inv: "main_reaches L configPath p \<Longrightarrow> proc_inv L configPath p"
  by (induction rule: main_reaches.induct) (auto intro: proc_inv_init proc_inv_main proc_inv_serve proc_inv_request proc_inv_signal)

text \<open>
  C22: the effects of \<open>main\<close> come in one order: the migrations, the pool, the route of the health
  endpoint, the shutdown of the server, the close of the pool, the end of the signal handling; only with a configuration that \<open>Load\<close>
  accepted and a log level that parses. The server listens at most once, on the configured address
  and only after the migrations, the pool and the route. The process ends with status 0 only when all of them
  have happened.
\<close>

theorem main_order:
  assumes "main_reaches L configPath p"
  shows "(effects p = [] \<and> proc_exit p \<noteq> Some (Exit 0)) \<or>
    (\<exists>cfg l. Server_Load L configPath = Inr cfg \<and> Level_UnmarshalText (LogLevel cfg) = Inr l \<and>
       prefix (filter (Not \<circ> is_Listen) (effects p)) (planned cfg) \<and>
       (filter is_Listen (effects p) = [] \<or>
        filter is_Listen (effects p) = [Listen (ListenAddr cfg)] \<and> prefix (take 3 (planned cfg)) (effects p)) \<and>
       (proc_exit p = Some (Exit 0) \<longrightarrow> filter (Not \<circ> is_Listen) (effects p) = planned cfg))"
proof (cases "effects p = [] \<and> proc_exit p \<noteq> Some (Exit 0)")
  case False
  have inv: "proc_inv L configPath p"
    using assms by (rule reaches_inv)
  show ?thesis
  proof (cases "cfg_of (mpc p)")
    case None
    then have "effects p = [] \<and> main_left (mpc p) = 13"
      using inv by (cases "mpc p") (auto simp: proc_inv_def)
    then show ?thesis using inv False by (auto simp: proc_inv_def)
  next
    case (Some cfg)
    then have facts: "Server_Load L configPath = Inr cfg" "main_left (mpc p) < 12 \<Longrightarrow> level_ok cfg"
        "filter (Not \<circ> is_Listen) (effects p) = take (planned_done (mpc p)) (planned cfg)"
        "filter is_Listen (effects p) = (if gpc p \<in> {Serving, Ended} then [Listen (ListenAddr cfg)] else [])"
        "3 \<le> planned_done (mpc p) \<Longrightarrow> prefix (take 3 (planned cfg)) (effects p)"
        "main_left (mpc p) \<le> 6 \<longleftrightarrow> gpc p \<noteq> NotStarted"
        "proc_exit p = Some (Exit 0) \<Longrightarrow> main_left (mpc p) = 1"
      using inv by (simp_all add: proc_inv_def)
    have late: "main_left (mpc p) < 12"
    proof (rule ccontr)
      assume "\<not> main_left (mpc p) < 12"
      moreover have "effects p = []" if "\<not> main_left (mpc p) < 12"
        using facts(3,4,6) that Some no_Listen [of "effects p"] by (cases "mpc p") auto
      ultimately show False using False facts(7) by auto
    qed
    have "main_left (mpc p) \<le> 6 \<Longrightarrow> 3 \<le> planned_done (mpc p)"
      by (cases "mpc p") auto
    moreover have "main_left (mpc p) = 1 \<Longrightarrow> planned_done (mpc p) = 6"
      by (cases "mpc p") auto
    ultimately show ?thesis
      using facts facts(2)[OF late] by (auto simp: level_ok_def take_is_prefix)
  qed
qed simp

section \<open>Two runs\<close>

text \<open>Every configuration with a valid level gets to the point where the server waits for a signal.\<close>

definition serving :: "Server_Config \<Rightarrow> proc" where
  "serving cfg = \<lparr>mpc = AtWait cfg, gpc = Serving, ctx_Done = False, proc_exit = None,
     effects = take 3 (planned cfg) @ [Listen (ListenAddr cfg)], requests = 0\<rparr>"

lemma reaches_serving:
  assumes "Server_Load L configPath = Inr cfg" and "Level_UnmarshalText (LogLevel cfg) = Inr l"
  shows "main_reaches L configPath (serving cfg)"
proof -
  note step = main_reaches.main [of L configPath]
  let ?p = "\<lambda>pc evs. \<lparr>mpc = pc, gpc = NotStarted, ctx_Done = False, proc_exit = None, effects = evs, requests = 0\<rparr>"
  let ?pg = "PostgresConfig (Config_DB cfg)"
  have "main_reaches L configPath (?p (AtLevel cfg) [])"
    using step [OF main_reaches.init main_step.load] assms(1) by (simp add: proc_init_def)
  then have "main_reaches L configPath (?p (AtNotify cfg) [])"
    using step main_step.level [of "?p (AtLevel cfg) []" cfg l] assms(2) by fastforce
  then have "main_reaches L configPath (?p (AtMigrate cfg) [])"
    using step main_step.notify [of "?p (AtNotify cfg) []" cfg] by fastforce
  then have "main_reaches L configPath (?p (AtNewPool cfg) [Migrate ?pg ''migrations''])"
    using step main_step.migrate [of "?p (AtMigrate cfg) []" cfg] by fastforce
  then have "main_reaches L configPath (?p (AtRoutes cfg) [Migrate ?pg ''migrations'', OpenPool ?pg])"
    using step main_step.pool [of "?p (AtNewPool cfg) [Migrate ?pg ''migrations'']" cfg] by fastforce
  then have "main_reaches L configPath
      (?p (AtGo cfg) [Migrate ?pg ''migrations'', OpenPool ?pg, Route ''GET'' ''/healthz''])"
    using step main_step.routes [of "?p (AtRoutes cfg) [Migrate ?pg ''migrations'', OpenPool ?pg]" cfg] by fastforce
  then have "main_reaches L configPath ((?p (AtWait cfg)
      [Migrate ?pg ''migrations'', OpenPool ?pg, Route ''GET'' ''/healthz''])\<lparr>gpc := AtListen\<rparr>)"
    using step main_step.go [of "?p (AtGo cfg)
      [Migrate ?pg ''migrations'', OpenPool ?pg, Route ''GET'' ''/healthz'']" cfg] by fastforce
  from main_reaches.serve [OF this serve_step.start [of _ cfg]] show ?thesis
    by (simp add: serving_def planned_def eval_nat_numeral)
qed

text \<open>
  When the server fails to listen, the process ends by \<open>os.Exit\<close> in the serving goroutine: the pool is
  open and its deferred close never runs.
\<close>

lemma failed_server_leaks_pool:
  assumes "Server_Load L configPath = Inr cfg" and "Level_UnmarshalText (LogLevel cfg) = Inr l"
  shows "\<exists>p. main_reaches L configPath p \<and> proc_exit p = Some (Exit 1) \<and>
    OpenPool (PostgresConfig (Config_DB cfg)) \<in> set (effects p) \<and> ClosePool \<notin> set (effects p)"
proof (intro exI conjI)
  show "main_reaches L configPath (exits 1 (serving cfg))"
    by (rule main_reaches.serve [OF reaches_serving [OF assms] serve_step.serve_fails]) (simp_all add: serving_def)
qed (simp_all add: serving_def planned_def eval_nat_numeral)

text \<open>A signal, no request to wait for, and the shutdown goes through.\<close>

definition stopped :: "Server_Config \<Rightarrow> proc" where
  "stopped cfg = \<lparr>mpc = AtReturn cfg, gpc = Serving, ctx_Done = True, proc_exit = Some (Exit 0),
     effects = take 3 (planned cfg) @ Listen (ListenAddr cfg) # drop 3 (planned cfg), requests = 0\<rparr>"

lemma reaches_stopped:
  assumes "Server_Load L configPath = Inr cfg" and "Level_UnmarshalText (LogLevel cfg) = Inr l"
  shows "main_reaches L configPath (stopped cfg)"
proof -
  note step = main_reaches.main [of L configPath]
  let ?p = "\<lambda>pc evs. \<lparr>mpc = pc, gpc = Serving, ctx_Done = True, proc_exit = None,
    effects = take 3 (planned cfg) @ Listen (ListenAddr cfg) # evs, requests = 0\<rparr>"
  have "main_reaches L configPath (?p (AtWait cfg) [])"
    using main_reaches.signal [OF reaches_serving [OF assms] signal_step.intros] by (simp add: serving_def)
  then have "main_reaches L configPath (?p (AtShutdown cfg) [])"
    using step main_step.done_wait [of "?p (AtWait cfg) []" cfg] by fastforce
  then have "main_reaches L configPath (?p (InShutdown cfg) [Shutdown])"
    using step main_step.shutdown [of "?p (AtShutdown cfg) []" cfg] by fastforce
  then have "main_reaches L configPath (?p (AtClosePool cfg) [Shutdown])"
    using step main_step.shutdown_returns [of "?p (InShutdown cfg) [Shutdown]" cfg] by fastforce
  then have "main_reaches L configPath (?p (AtStop cfg) [Shutdown, ClosePool])"
    using step main_step.close_pool [of "?p (AtClosePool cfg) [Shutdown]" cfg] by fastforce
  then have "main_reaches L configPath (?p (AtReturn cfg) [Shutdown, ClosePool, StopNotify])"
    using step main_step.stop [of "?p (AtStop cfg) [Shutdown, ClosePool]" cfg] by fastforce
  from step [OF this main_step.returns [of _ cfg]] show ?thesis
    by (simp add: stopped_def planned_def eval_nat_numeral)
qed

definition sample_settings :: Server_Config where
  "sample_settings = \<lparr>ListenAddr = '':8080'',
     Config_DB = \<lparr>DB_Host = ''db1'', DB_Port = ''5432'', DB_User = ''postgres'', DB_Password = ''postgres'',
       DB_Name = ''ci'', DB_SSLMode = ''disable''\<rparr>,
     ArtifactPath = ''/var/lib/shipinator/artifacts'', KubeConfig = '''', LogLevel = ''warn''\<rparr>"

lemma sample_load: "Server_Load sample_viper ''/etc/ci.yaml'' = Inr sample_settings"
  by code_simp

lemma sample_level: "Level_UnmarshalText (LogLevel sample_settings) = Inr 4"
  by code_simp

theorem main_order_witness:
  "filter (Not \<circ> is_Listen) (effects (stopped sample_settings)) = planned sample_settings \<and>
   prefix (take 3 (planned sample_settings)) (effects (stopped sample_settings))"
  using main_order [OF reaches_stopped [OF sample_load sample_level]]
  by (auto simp: sample_load stopped_def planned_def eval_nat_numeral)

section \<open>The end of the process\<close>

text \<open>
  What \<open>main\<close> has done by where it stands: it passes the wait only with a signal, and it leaves
  \<open>Shutdown\<close> only when every request has been answered; none is accepted after it.
\<close>

definition shut_inv :: "proc \<Rightarrow> bool" where
  "shut_inv p \<longleftrightarrow> (Shutdown \<in> set (effects p) \<longleftrightarrow> main_left (mpc p) \<le> 4) \<and>
     (ClosePool \<in> set (effects p) \<longleftrightarrow> main_left (mpc p) \<le> 2) \<and>
     (main_left (mpc p) \<le> 5 \<longrightarrow> ctx_Done p) \<and> (main_left (mpc p) \<le> 3 \<longrightarrow> requests p = 0) \<and>
     (proc_exit p = Some (Exit 0) \<longrightarrow> main_left (mpc p) = 1)"

lemma shut_inv_reached: "main_reaches L configPath p \<Longrightarrow> shut_inv p"
proof (induction rule: main_reaches.induct)
  case init
  then show ?case by (simp add: shut_inv_def proc_init_def)
next
  case (main p q)
  from main(2,3) show ?case by cases (auto simp: shut_inv_def)
next
  case (serve p q)
  from serve(2,3) show ?case by cases (auto simp: shut_inv_def)
next
  case (request p q)
  from request(2,3) show ?case by cases (auto simp: shut_inv_def)
next
  case (signal p q)
  from signal(2,3) show ?case by cases (auto simp: shut_inv_def)
qed

text \<open>What is left of a process that shuts down: steps of \<open>main\<close>, of the serving goroutine, and requests.\<close>

definition left_steps :: "proc \<Rightarrow> nat" where
  "left_steps p = main_left (mpc p) + go_left (gpc p) + requests p + (if proc_exit p = None then 1 else 0)"

lemma main_step_left:
  assumes "main_step L configPath p q" and "main_left (mpc p) \<le> 6"
  shows "left_steps q < left_steps p"
  using assms by cases (auto simp: left_steps_def)

lemma serve_step_left: "serve_step p q \<Longrightarrow> left_steps q < left_steps p"
  by (induction rule: serve_step.induct) (auto simp: left_steps_def)

lemma request_step_left: "request_step p q \<Longrightarrow> Shutdown \<in> set (effects p) \<Longrightarrow> left_steps q < left_steps p"
  by (induction rule: request_step.induct) (auto simp: left_steps_def)

text \<open>In a shutdown, either \<open>main\<close> goes on without an error or a request is still to be answered.\<close>

lemma shutdown_goes_on:
  assumes "shut_inv p" and "proc_exit p = None" and "Shutdown \<in> set (effects p)"
  shows "(\<exists>q. main_step L configPath p q \<and> proc_exit q \<in> {None, Some (Exit 0)}) \<or>
    (\<exists>q. request_step p q \<and> requests q < requests p)"
proof (cases "requests p")
  case (Suc n)
  then show ?thesis using request_step.answered [OF assms(2) Suc] by auto
next
  case 0
  have "main_left (mpc p) \<le> 4" using assms by (simp add: shut_inv_def)
  then show ?thesis
    using main_step.shutdown_returns [of p] main_step.close_pool [of p] main_step.stop [of p]
      main_step.returns [of p] assms(2) 0
    by (cases "mpc p") fastforce+
qed

text \<open>
  C23: how the process stops, in every interleaving of \<open>main\<close>, the serving goroutine, the requests
  and the signals. The server is shut down only after a signal, for which \<open>main\<close> waits; the pool is
  closed only when the shutdown has been called and no request is being served any more; and status
  0 is reached only with both done. Once the shutdown has been called, every step of the program
  brings the end nearer (no request is accepted any more), and there is a next one: of \<open>main\<close>, without
  an error, or the answer to one of the requests that \<open>Shutdown\<close> waits for, which it does without a
  deadline.
\<close>

theorem main_shuts_down:
  assumes "main_reaches L configPath p"
  shows "(Shutdown \<in> set (effects p) \<longrightarrow> ctx_Done p) \<and>
    (mpc p = AtWait cfg \<and> \<not> ctx_Done p \<longrightarrow> (\<nexists>q. main_step L configPath p q)) \<and>
    (ClosePool \<in> set (effects p) \<longrightarrow> Shutdown \<in> set (effects p) \<and> requests p = 0) \<and>
    (proc_exit p = Some (Exit 0) \<longrightarrow> ctx_Done p \<and> ClosePool \<in> set (effects p) \<and> requests p = 0) \<and>
    (proc_exit p = None \<and> Shutdown \<in> set (effects p) \<longrightarrow>
       (\<forall>q. main_step L configPath p q \<or> serve_step p q \<or> request_step p q \<longrightarrow> left_steps q < left_steps p) \<and>
       ((\<exists>q. main_step L configPath p q \<and> proc_exit q \<in> {None, Some (Exit 0)}) \<or>
        (\<exists>q. request_step p q \<and> requests q < requests p)))"
proof -
  note inv = shut_inv_reached [OF assms]
  have "(mpc p = AtWait cfg \<and> \<not> ctx_Done p \<longrightarrow> (\<nexists>q. main_step L configPath p q))"
    by (auto elim: main_step.cases)
  moreover have "left_steps q < left_steps p" if "Shutdown \<in> set (effects p)"
    "main_step L configPath p q \<or> serve_step p q \<or> request_step p q" for q
    using that inv main_step_left [of L configPath p q] serve_step_left request_step_left
    by (auto simp: shut_inv_def)
  ultimately show ?thesis
    using inv shutdown_goes_on [OF inv, of L configPath] by (auto simp: shut_inv_def)
qed

text \<open>A process that has been asked to stop while it serves a request.\<close>

definition stopping :: "Server_Config \<Rightarrow> proc" where
  "stopping cfg = \<lparr>mpc = InShutdown cfg, gpc = Serving, ctx_Done = True, proc_exit = None,
     effects = take 3 (planned cfg) @ [Listen (ListenAddr cfg), Shutdown], requests = 1\<rparr>"

lemma reaches_stopping:
  assumes "Server_Load L configPath = Inr cfg" and "Level_UnmarshalText (LogLevel cfg) = Inr l"
  shows "main_reaches L configPath (stopping cfg)"
proof -
  note step = main_reaches.main [of L configPath]
  let ?p = "\<lambda>pc evs. \<lparr>mpc = pc, gpc = Serving, ctx_Done = True, proc_exit = None,
    effects = take 3 (planned cfg) @ Listen (ListenAddr cfg) # evs, requests = 1\<rparr>"
  have "main_reaches L configPath (serving cfg\<lparr>requests := 1\<rparr>)"
    using main_reaches.request [OF reaches_serving [OF assms] request_step.accepted]
    by (simp add: serving_def planned_def eval_nat_numeral)
  from main_reaches.signal [OF this signal_step.intros]
  have "main_reaches L configPath (?p (AtWait cfg) [])" by (simp add: serving_def)
  then have "main_reaches L configPath (?p (AtShutdown cfg) [])"
    using step main_step.done_wait [of "?p (AtWait cfg) []" cfg] by fastforce
  then show ?thesis
    using step main_step.shutdown [of "?p (AtShutdown cfg) []" cfg] by (fastforce simp: stopping_def)
qed

theorem main_shuts_down_witness:
  "(\<exists>q. request_step (stopping sample_settings) q \<and> requests q = 0) \<and> ctx_Done (stopping sample_settings)"
proof -
  have "\<not> (\<exists>q. main_step sample_viper ''/etc/ci.yaml'' (stopping sample_settings) q \<and>
      proc_exit q \<in> {None, Some (Exit 0)})"
    by (auto simp: stopping_def elim: main_step.cases)
  with main_shuts_down [OF reaches_stopping [OF sample_load sample_level]]
  show ?thesis by (auto simp: stopping_def)
qed

end
