(* ===== verification/Spec2Isabelle.thy ===== *)
theory Spec2Isabelle
  imports RunWitnesses KubeRuns TestPlan StepLaws StoreRefinement ArtifactFs TestPool ServerMain
begin

text \<open>
  A verification development for Shipinator, a CI/CD control plane written in Go. It covers the
  hand-written code below \<open>internal/\<close> and \<open>cmd/\<close> (all paths are relative to the root of the
  repository).

  \<^bold>\<open>The program.\<close> A pipeline run is a row of the data base. \<open>Orchestrator.Run\<close> moves it to running,
  executes the configured stages (build, test, deploy) as jobs, and finalizes it. A stage consists
  of steps: each is a row, a workload submitted to an executor (Kubernetes Jobs) and an execution
  row that is updated while the executor is polled. The build stage registers artifact rows, the
  deploy stage looks one up. Everything persistent goes through the PostgreSQL stores. Parallel
  test steps run as goroutines. Next to this there are the configuration files of pipelines and of
  the server, the store of artifact bytes, and the server process.

  \<^bold>\<open>Theories and code.\<close>
  \<^item> \<open>Prelude\<close>: Go errors, identifiers, times; tables as lists of rows with a key.
  \<^item> \<open>Fsm\<close>: \<open>orchestrator/states.go\<close>, \<open>stage_fsm.go\<close>, \<open>pipeline_run_fsm.go\<close>.
  \<^item> \<open>Models\<close>: \<open>store/models.go\<close> and \<open>executor/executor.go\<close>, a record per struct.
  \<^item> \<open>World\<close>: the tables, the log of events, the clock, and the environment (see below).
  \<^item> \<open>PgHelpers\<close>, \<open>PgEntities\<close>, \<open>PgRuns\<close>: \<open>store/postgres\<close>, one definition per operation of the
    eight stores, each a statement against the tables with the constraints of \<open>migrations/\<close>.
    \<open>PgIntegrity\<close>: a call of any writing operation is a step (\<open>db_step\<close>); what every statement
    keeps, every sequence of steps keeps (locale \<open>table_invariant\<close>, interpreted for integrity and
    for history). \<open>PgLaws\<close>: what single operations promise (read back, deletion, time stamps).
  \<^item> \<open>StoreInterfaces\<close>: \<open>store/store.go\<close>, a record of methods per interface, the constructors of
    \<open>store/postgres\<close> that provide them, and the abstract data base: one finite map per entity, with
    the answers and the effect that each call may have. \<open>StoreRefinement\<close>: every session with the
    eight stores of PostgreSQL is one of the abstract data base (locale \<open>simulation\<close>).
  \<^item> \<open>Threads\<close>: calls as step machines, goroutines and the wait group, under any scheduler.
  \<^item> \<open>Steps\<close>: \<open>runStep\<close>, \<open>executeAndPoll\<close>, \<open>poll\<close> of \<open>orchestrator/orchestrator.go\<close>, in direct style
    and as a step machine, proved equal. \<open>StepSafety\<close>, \<open>StepProgress\<close>, \<open>StepLaws\<close>, \<open>StepFns\<close>:
    permitted transitions, ownership of rows, termination, traces, and the contract a stage relies
    on (locale \<open>step_function\<close>).
  \<^item> \<open>Paths\<close>: \<open>filepath.Join\<close>, \<open>Clean\<close> and \<open>Dir\<close>. \<open>Config\<close>: \<open>config/config.go\<close>, the structs with the
    \<open>validate\<close> tags of their fields as they stand in the source.
  \<^item> \<open>Buildinator\<close>, \<open>Testinator\<close> with \<open>TestPlan\<close>, \<open>Deployinator\<close>: the packages of these names.
  \<^item> \<open>Orchestrator\<close>: \<open>New\<close>, \<open>Run\<close>, \<open>executeStages\<close>, \<open>runStage\<close>. \<open>RunLifecycle\<close>: how runs end, what they
    log, leave behind and leave alone, and which artifact is deployed. \<open>RunLiveness\<close>: a run in a
    healthy outside succeeds. \<open>RunRefinement\<close>: what holds of every action of a run holds of the run
    (locales \<open>step_client\<close> for the work of a stage and \<open>run_client\<close>; interpreted for \<open>db_step\<close>: a run
    is a sequence of store operations). \<open>RunTypes\<close>: a run keeps the types of the status columns, for
    Kubernetes without a further hypothesis (\<open>KubeRuns\<close>); \<open>RunControl\<close>: it leaves the rows that were
    there alone, and the exact sequence of status changes of the run and its jobs (the other
    interpretations). \<open>RunWitnesses\<close>: the properties of runs at a concrete run.
  \<^item> \<open>Durations\<close>, \<open>Kubernetes\<close>: \<open>executor/kubernetes/executor.go\<close>.
  \<^item> \<open>ArtifactFs\<close>: \<open>artifact/filesystem/store.go\<close> and \<open>artifact/artifact.go\<close>.
  \<^item> \<open>ServerConfig\<close>: \<open>server/config/config.go\<close>. \<open>ServerMain\<close>: \<open>cmd/server/main.go\<close>.
  \<^item> \<open>EntityChain\<close>, \<open>TestPool\<close>: \<open>store/storetest/helpers.go\<close>, the fixture of the integration tests and the
    data base that each of them runs on.
  \<^item> \<open>Samples\<close>: the environment and tables on which the properties are exercised.

  \<^bold>\<open>The environment.\<close> Every call that leaves the program takes the next tick of the world, and the
  environment answers it as a function of the tick: new identifiers, the time, whether a statement
  fails, whether the context is done, what the executor says, which of the live goroutines moves next. A
  property of all environments thus holds for every behaviour of the outside, in every
  interleaving at the granularity of one statement or request. A statement is atomic and either
  takes effect or fails; the refusals of the tables are those of the constraints in \<open>migrations/\<close>,
  any other one (of a text with a NUL or invalid UTF-8, say) is a fault of the statement. Nothing is assumed of identifiers, clocks or the executor unless a
  property says so: \<open>db_reliable\<close> (no faults), \<open>fresh_uuids\<close> and \<open>uuids_new\<close> (identifiers are not
  zero, and new), \<open>honest\<close> (errors from outside are not \<open>pgx.ErrNoRows\<close>), \<open>settled\<close> (from some tick on the context is done and seen to be, or every status
  call has a terminal answer), \<open>healthy\<close> (all of it, and success in the end). Goroutines and loops
  without a bound of their own are partial functions: \<open>None\<close> means that a call never returns, and
  \<open>run_returns\<close> and \<open>healthy_run_succeeds\<close> say when it does; \<open>lost_job_hangs\<close> says when it does not.
  There is no fuel anywhere.

  \<^bold>\<open>Representation.\<close> Identifiers are 128-bit words, durations 64-bit words, the number of active
  pods and backoffs 32-bit words; the column \<open>execution_order\<close> refuses what does not fit 32 bits.
  Times are integers in microseconds, the precision of the columns. Strings are lists of bytes. Go's
  errors keep format and arguments instead of text. Lists come back ordered by creation, with ties
  in table order. \<open>Duration.Seconds\<close> is computed in rationals rounded to the 53 bits of a float64
  (\<open>round64\<close>; the range of a duration needs the binades up to \<open>2 ^ 34\<close>). The environment of a
  specification is a list where Go has a map, whose order Go leaves open; the code always passes an
  empty one.

  \<^bold>\<open>Parameters.\<close> Code outside the repository is an argument: the YAML decoder and the validator of
  \<open>config.go\<close> (hypothesis \<open>honours_tags\<close>: a configuration is valid when its tags hold, read as the validator
  documents them by \<open>valid\<close>), viper
  (\<open>viper_documented\<close>: variable, file, default; a file that puts a scalar where the table \<open>db\<close> should
  be is not covered by it), the client of the Kubernetes API, the encoder of the artifact metadata,
  the text of an identifier. In \<open>ServerMain\<close> the data base library and the HTTP server may answer in
  any way; only that \<open>Start\<close> returns \<open>ErrServerClosed\<close> after \<open>Shutdown\<close> and not before, and that \<open>Shutdown\<close>
  stops accepting requests and returns without an error only when those accepted are answered, is
  used. In
  \<open>TestPool\<close> the data base library answers as a function of the calls it has had. The
  operating system's files in \<open>ArtifactFs\<close> are a state of directories and contents by path, where
  every call may fail; a failed copy may leave part of the bytes.

  \<^bold>\<open>What the properties say.\<close> Runs: final status and time stamps, permitted transitions, nothing left
  running, success in a healthy outside, order of stages, the deployed artifact is the run's own,
  the exact status changes of the run and its jobs, termination, types, frame. Steps: traces of
  every outcome. Stages: what is submitted, which rows and artifacts there are, on
  success and on errors. Stores: refinement of finite maps in every session, integrity, append-only
  history, deletion, time stamps. Files, Kubernetes, configuration and process: read back, deadlines, phases, polls that
  hang, where settings come from, order of start-up and shut-down. Several properties state
  behaviour that the code hardly means to have: \<open>succeeded_has_no_end\<close>, \<open>run_restart_unchecked\<close>,
  \<open>deploy_needs_build\<close>, \<open>run_precancelled\<close>, \<open>unrecorded_is_orphaned\<close>, \<open>lost_job_hangs\<close>,
  \<open>failed_put_is_visible\<close>, \<open>test_database_lifetime\<close> (a test data base left behind), and the lemmas \<open>submit_ignores_artifacts\<close> and \<open>failed_server_leaks_pool\<close>.

  \<^bold>\<open>Not modelled.\<close> Logging. The generated gRPC API (used by nothing) and the generated mocks. Of
  \<open>main\<close>, the store values it constructs and drops. The poll interval is taken to be positive (\<open>New\<close>
  replaces only zero, and a ticker with a negative one panics); it only sets the pace of ticks.
\<close>

end
